(* ===== verification/Go_Prelude.thy ===== *)
theory Go_Prelude
  imports "HOL-Library.AList" "HOL-Library.Word" "HOL-Library.Code_Target_Numeral"
begin

text \<open>
  The shared vocabulary of the development: what the program uses of the Go language and of
  its packages \<open>strings\<close>, \<open>strconv\<close> and \<open>maps\<close>, and the generic lemmas every
  component rests on.

  \<^item> A Go string is a sequence of bytes, here a \<^typ>\<open>string\<close> (a list of 8-bit characters).
  \<^item> An \<open>error\<close> result is an \<^typ>\<open>'e option\<close>: \<^const>\<open>None\<close> is Go's \<open>nil\<close>. A pair
    \<open>(T, error)\<close> is a sum, with \<^const>\<open>Inl\<close> for the error.
  \<^item> A chain of checks that each return at the first failure is \<open>first_error\<close>; a loop over a
    slice whose body may fail is \<open>for_each\<close>, which stops at the first error.
  \<^item> A \<open>map[string]string\<close> is an association list in its iteration order, so that theorems
    hold for every order Go may choose; \<open>nil\<close> and the empty map, which no operation of the
    program tells apart, are both the empty list. A \<open>map[string]bool\<close> used as a set is a set.
\<close>

named_theorems go_defs \<open>definitions that unfold to a case distinction on the inputs\<close>
named_theorems go_loops \<open>facts that carry a property across a loop\<close>

section \<open>Fixed-width integers\<close>

text \<open>The value an \<open>int64\<close> or \<open>int32\<close> holds after wrap-around.\<close>

definition int64 :: "int \<Rightarrow> int" where
  "int64 x = signed_take_bit 63 x"

definition int32 :: "int \<Rightarrow> int" where
  "int32 x = signed_take_bit 31 x"

lemma int64_eq: "int64 x = (x + 2 ^ 63) mod 2 ^ 64 - 2 ^ 63"
  by (simp add: int64_def signed_take_bit_eq_take_bit_shift take_bit_eq_mod)

lemma int32_eq: "int32 x = (x + 2 ^ 31) mod 2 ^ 32 - 2 ^ 31"
  by (simp add: int32_def signed_take_bit_eq_take_bit_shift take_bit_eq_mod)

lemma int64_sint: "int64 x = sint (word_of_int x :: 64 word)"
  by (simp add: int64_def sint_sbintrunc')

lemma int32_sint: "int32 x = sint (word_of_int x :: 32 word)"
  by (simp add: int32_def sint_sbintrunc')

lemma int64_range: "- (2 ^ 63) \<le> int64 x" "int64 x < 2 ^ 63"
  by (simp_all add: int64_eq)

lemmas int64_bounds [simp] = int64_range [simplified]

lemma int64_id: "- (2 ^ 63) \<le> x \<Longrightarrow> x < 2 ^ 63 \<Longrightarrow> int64 x = x"
  by (simp add: int64_eq)

lemma int32_id: "- (2 ^ 31) \<le> x \<Longrightarrow> x < 2 ^ 31 \<Longrightarrow> int32 x = x"
  by (simp add: int32_eq)

section \<open>Errors and loops\<close>

text \<open>Consecutive \<open>if err := f(); err != nil { return err }\<close> statements.\<close>

fun first_error :: "'e option list \<Rightarrow> 'e option" where
  "first_error [] = None"
| "first_error (None # cs) = first_error cs"
| "first_error (Some e # cs) = Some e"

text \<open>\<open>if cond { return err }\<close>.\<close>

definition fail_if :: "bool \<Rightarrow> 'e \<Rightarrow> 'e option" where
  "fail_if b e = (if b then Some e else None)"

lemma fail_if_None [simp]: "fail_if b e = None \<longleftrightarrow> \<not> b"
  by (simp add: fail_if_def)

lemma fail_if_Some [simp]: "fail_if b e = Some e' \<longleftrightarrow> b \<and> e' = e"
  by (auto simp: fail_if_def)

lemma first_error_None [simp]: "first_error (c # cs) = None \<longleftrightarrow> c = None \<and> first_error cs = None"
  by (cases c) simp_all

lemma first_error_ok_iff: "first_error cs = None \<longleftrightarrow> (\<forall>c \<in> set cs. c = None)"
  by (induction cs) simp_all

lemma first_error_SomeD: "first_error cs = Some e \<Longrightarrow> Some e \<in> set cs"
  by (induction cs rule: first_error.induct) auto

lemma first_error_append_ok: "first_error (xs @ ys) = None \<longleftrightarrow> first_error xs = None \<and> first_error ys = None"
  by (auto simp: first_error_ok_iff)

lemma first_error_enumerate:
  assumes "\<And>i x. f (i, x) = None \<longleftrightarrow> Q x"
  shows "first_error (map f (enumerate n xs)) = None \<longleftrightarrow> (\<forall>x \<in> set xs. Q x)"
  using assms by (induction xs arbitrary: n) simp_all

lemma first_error_enumerate_nested:
  assumes "\<And>i x. first_error (f (i, x)) = None \<longleftrightarrow> Q x"
  shows "first_error (concat (map f (enumerate n xs))) = None \<longleftrightarrow> (\<forall>x \<in> set xs. Q x)"
  using assms by (induction xs arbitrary: n) (simp_all add: first_error_append_ok)

text \<open>A \<open>for\<close> loop whose body returns an error and changes a state \<open>w\<close>.\<close>

fun for_each :: "('x \<Rightarrow> 'w \<Rightarrow> 'e option \<times> 'w) \<Rightarrow> 'x list \<Rightarrow> 'w \<Rightarrow> 'e option \<times> 'w" where
  "for_each f [] w = (None, w)"
| "for_each f (x # xs) w =
     (case f x w of
        (Some e, w') \<Rightarrow> (Some e, w')
      | (None, w') \<Rightarrow> for_each f xs w')"

lemma for_each_append:
  "for_each f (xs @ ys) w =
     (case for_each f xs w of
        (Some e, w') \<Rightarrow> (Some e, w')
      | (None, w') \<Rightarrow> for_each f ys w')"
  by (induction xs arbitrary: w) (auto split: prod.splits option.splits)

lemma for_each_invariant [go_loops]:
  assumes "for_each f xs w = (r, w')"
    and "I w"
    and "\<And>x v r' v'. x \<in> set xs \<Longrightarrow> I v \<Longrightarrow> f x v = (r', v') \<Longrightarrow> I v'"
  shows "I w'"
  using assms
proof (induction xs arbitrary: w)
  case Nil
  then show ?case by simp
next
  case (Cons x xs)
  obtain r1 w1 where fx: "f x w = (r1, w1)" by (cases "f x w")
  have w1: "I w1" using Cons.prems(2,3) fx by auto
  show ?case
  proof (cases r1)
    case None
    then have "for_each f xs w1 = (r, w')" using Cons.prems(1) fx by simp
    then show ?thesis using w1 Cons.prems(3) by (intro Cons.IH) auto
  next
    case (Some e)
    then show ?thesis using Cons.prems(1) fx w1 by simp
  qed
qed

lemma for_each_ok [go_loops]:
  assumes "I w"
    and "\<And>x v. x \<in> set xs \<Longrightarrow> I v \<Longrightarrow> \<exists>v'. f x v = (None, v') \<and> I v'"
  shows "\<exists>w'. for_each f xs w = (None, w') \<and> I w'"
  using assms
proof (induction xs arbitrary: w)
  case Nil
  then show ?case by simp
next
  case (Cons x xs)
  from Cons.prems(2)[of x w] Cons.prems(1) obtain w1 where "f x w = (None, w1)" "I w1" by auto
  moreover from Cons.IH[OF \<open>I w1\<close>] Cons.prems(2) obtain w'
    where "for_each f xs w1 = (None, w') \<and> I w'" by auto
  ultimately show ?case by auto
qed

lemma for_each_cong:
  "(\<And>x v. x \<in> set xs \<Longrightarrow> f x v = g x v) \<Longrightarrow> for_each f xs w = for_each g xs w"
  by (induction xs arbitrary: w) (auto split: prod.splits option.splits)

lemma for_each_concat:
  "for_each (\<lambda>x. for_each (f x) (g x)) xs w = for_each (\<lambda>(x, y). f x y) (concat (map (\<lambda>x. map (Pair x) (g x)) xs)) w"
proof -
  have inner: "for_each (f x) ys v = for_each (\<lambda>(x, y). f x y) (map (Pair x) ys) v" for x ys v
    by (induction ys arbitrary: v) (auto split: prod.splits option.splits)
  show ?thesis
    by (induction xs arbitrary: w) (auto simp: for_each_append inner split: prod.splits option.splits)
qed

text \<open>
  A loop that settles one entry of a table per element and leaves the other entries alone
  settles them all, when the elements have distinct keys.
\<close>

lemma for_each_settles:
  assumes "for_each f xs w = (r, w')" "I w" "distinct (map key xs)"
    and "\<And>x v r' v'. x \<in> set xs \<Longrightarrow> I v \<Longrightarrow> f x v = (r', v') \<Longrightarrow>
      r' = None \<and> I v' \<and> D x (table v' (key x)) \<and> (\<forall>k. k \<noteq> key x \<longrightarrow> table v' k = table v k)"
  shows "r = None \<and> I w' \<and> (\<forall>x \<in> set xs. D x (table w' (key x)))
    \<and> (\<forall>k. k \<notin> set (map key xs) \<longrightarrow> table w' k = table w k)"
  using assms
proof (induction xs arbitrary: w)
  case Nil
  then show ?case by simp
next
  case (Cons x xs)
  obtain r1 w1 where fx: "f x w = (r1, w1)" by (cases "f x w")
  note step = Cons.prems(4)[OF _ Cons.prems(2) fx]
  then have rest: "for_each f xs w1 = (r, w')" using Cons.prems(1) fx by auto
  have "r = None \<and> I w' \<and> (\<forall>x \<in> set xs. D x (table w' (key x)))
    \<and> (\<forall>k. k \<notin> set (map key xs) \<longrightarrow> table w' k = table w1 k)"
  proof (rule Cons.IH[OF rest])
    show "I w1" "distinct (map key xs)" using step Cons.prems(3) by simp_all
  next
    fix y v r' v' assume "y \<in> set xs" "I v" "f y v = (r', v')"
    then show "r' = None \<and> I v' \<and> D y (table v' (key y)) \<and> (\<forall>k. k \<noteq> key y \<longrightarrow> table v' k = table v k)"
      by (intro Cons.prems(4)) simp_all
  qed
  then show ?case using step Cons.prems(3) by auto
qed

text \<open>What each step of a successful loop establishes and later steps keep holds at the end.\<close>

lemma for_each_establishes:
  assumes "for_each f xs w = (None, w')"
    and "\<And>x v v'. x \<in> set xs \<Longrightarrow> f x v = (None, v') \<Longrightarrow> D x v'"
    and "\<And>x y v v'. x \<in> set xs \<Longrightarrow> y \<in> set xs \<Longrightarrow> D y v \<Longrightarrow> f x v = (None, v') \<Longrightarrow> D y v'"
  shows "\<forall>x \<in> set xs. D x w'"
  using assms
proof (induction xs arbitrary: w' rule: rev_induct)
  case (snoc x xs)
  obtain w1 where w1: "for_each f xs w = (None, w1)" "f x w1 = (None, w')"
    using snoc.prems(1) by (auto simp: for_each_append split: prod.splits option.splits)
  have before: "\<forall>y \<in> set xs. D y w1"
  proof (rule snoc.IH[OF w1(1)])
    fix y v v' assume "y \<in> set xs" "f y v = (None, v')"
    then show "D y v'" using snoc.prems(2)[of y v v'] by simp
  next
    fix y z v v' assume "y \<in> set xs" "z \<in> set xs" "D z v" "f y v = (None, v')"
    then show "D z v'" using snoc.prems(3)[of y z v v'] by simp
  qed
  have "D x w'" using w1(2) snoc.prems(2)[of x w1 w'] by simp
  moreover have "D y w'" if "y \<in> set xs" for y
    using that before w1(2) snoc.prems(3)[of x y w1 w'] by simp
  ultimately show ?case by simp
qed simp

lemma set_last_butlast: "xs \<noteq> [] \<Longrightarrow> set xs = insert (last xs) (set (butlast xs))"
  by (induction xs rule: rev_induct) auto

section \<open>Package \<open>strings\<close>\<close>

definition HasPrefix :: "string \<Rightarrow> string \<Rightarrow> bool" where
  "HasPrefix s p \<longleftrightarrow> take (length p) s = p"

definition HasSuffix :: "string \<Rightarrow> string \<Rightarrow> bool" where
  "HasSuffix s p \<longleftrightarrow> length p \<le> length s \<and> drop (length s - length p) s = p"

definition TrimSuffix :: "string \<Rightarrow> string \<Rightarrow> string" where
  "TrimSuffix s p = (if HasSuffix s p then take (length s - length p) s else s)"

fun Contains :: "string \<Rightarrow> string \<Rightarrow> bool" where
  "Contains [] p \<longleftrightarrow> p = []"
| "Contains (c # s) p \<longleftrightarrow> HasPrefix (c # s) p \<or> Contains s p"

fun LastIndexByte :: "string \<Rightarrow> char \<Rightarrow> nat option" where
  "LastIndexByte [] c = None"
| "LastIndexByte (x # xs) c =
     (case LastIndexByte xs c of
        Some i \<Rightarrow> Some (Suc i)
      | None \<Rightarrow> if x = c then Some 0 else None)"

text \<open>
  \<open>strings.ToUpper\<close> on UTF-8 text. Two runes outside ASCII, U+0131 and U+017F, have an ASCII
  upper case and are mapped; every other rune outside ASCII keeps an upper case outside ASCII
  and is left as it is here, so the result is exact whenever it is an ASCII string.
\<close>

definition upper_byte :: "char \<Rightarrow> char" where
  "upper_byte c =
     (if 97 \<le> (of_char c :: nat) \<and> (of_char c :: nat) \<le> 122 then char_of ((of_char c :: nat) - 32) else c)"

fun ToUpper :: "string \<Rightarrow> string" where
  "ToUpper [] = []"
| "ToUpper [c] = [upper_byte c]"
| "ToUpper (c # d # s) =
     (if c = CHR 0xC4 \<and> d = CHR 0xB1 then CHR ''I'' # ToUpper s
      else if c = CHR 0xC5 \<and> d = CHR 0xBF then CHR ''S'' # ToUpper s
      else upper_byte c # ToUpper (d # s))"

lemma HasPrefix_append [simp]: "HasPrefix (p @ s) p"
  by (simp add: HasPrefix_def)

lemma HasPrefix_iff: "HasPrefix s p \<longleftrightarrow> (\<exists>t. s = p @ t)"
  by (metis HasPrefix_def append_eq_conv_conj append_take_drop_id)

lemma HasSuffix_append [simp]: "HasSuffix (s @ p) p"
  by (simp add: HasSuffix_def)

lemma HasSuffix_iff: "HasSuffix s p \<longleftrightarrow> (\<exists>t. s = t @ p)"
  by (metis HasSuffix_def HasSuffix_append append_take_drop_id)

lemma TrimSuffix_append [simp]: "TrimSuffix (s @ p) p = s"
  by (simp add: TrimSuffix_def)

lemma Contains_HasPrefix: "HasPrefix s p \<Longrightarrow> Contains s p"
  by (cases s) (auto simp: HasPrefix_def)

lemma Contains_append_left: "Contains t p \<Longrightarrow> Contains (s @ t) p"
  by (induction s) auto

lemma Contains_iff: "Contains s p \<longleftrightarrow> (\<exists>a b. s = a @ p @ b)"
proof
  assume "Contains s p"
  then show "\<exists>a b. s = a @ p @ b"
  proof (induction s)
    case Nil
    then show ?case by simp
  next
    case (Cons c s)
    show ?case
    proof (cases "HasPrefix (c # s) p")
      case True
      then show ?thesis by (metis HasPrefix_iff append_Nil)
    next
      case False
      with Cons obtain a b where "s = a @ p @ b" by auto
      then have "c # s = (c # a) @ p @ b" by simp
      then show ?thesis by blast
    qed
  qed
next
  assume "\<exists>a b. s = a @ p @ b"
  then obtain a b where "s = a @ (p @ b)" by blast
  moreover have "Contains (p @ b) p" by (rule Contains_HasPrefix) simp
  ultimately show "Contains s p" by (simp add: Contains_append_left)
qed

lemma Contains_mid [intro]: "Contains m p \<Longrightarrow> Contains (a @ m @ b) p"
  by (metis Contains_iff append.assoc)

lemma LastIndexByte_None: "LastIndexByte s c = None \<longleftrightarrow> c \<notin> set s"
  by (induction s) (auto split: option.splits)

lemma LastIndexByte_after: "c \<notin> set t \<Longrightarrow> LastIndexByte (s @ c # t) c = Some (length s)"
  by (induction s) (simp_all add: LastIndexByte_None[THEN iffD2])

section \<open>Decimal numbers: package \<open>strconv\<close>\<close>

definition is_digit :: "char \<Rightarrow> bool" where
  "is_digit c \<longleftrightarrow> 48 \<le> (of_char c :: nat) \<and> (of_char c :: nat) \<le> 57"

definition digit_val :: "char \<Rightarrow> nat" where
  "digit_val c = of_char c - 48"

definition digits_val :: "nat \<Rightarrow> string \<Rightarrow> nat" where
  "digits_val n ds = foldl (\<lambda>a c. 10 * a + digit_val c) n ds"

lemma digits_val_Nil [simp]: "digits_val n [] = n"
  by (simp add: digits_val_def)

lemma digits_val_Cons [simp]: "digits_val n (c # cs) = digits_val (10 * n + digit_val c) cs"
  by (simp add: digits_val_def)

lemma digits_val_append [simp]: "digits_val n (xs @ ys) = digits_val (digits_val n xs) ys"
  by (simp add: digits_val_def)

lemma digits_val_ge: "x \<le> digits_val x ds"
proof (induction ds arbitrary: x)
  case Nil
  then show ?case by simp
next
  case (Cons c ds)
  have "x \<le> 10 * x + digit_val c" by simp
  also have "\<dots> \<le> digits_val (10 * x + digit_val c) ds" by (rule Cons.IH)
  finally show ?case by simp
qed

definition digit_char :: "nat \<Rightarrow> char" where
  "digit_char d = char_of (48 + d)"

lemma digit_char_simps [simp]:
  assumes "d < 10"
  shows "is_digit (digit_char d)" "digit_val (digit_char d) = d"
  using assms by (simp_all add: digit_char_def is_digit_def digit_val_def)

text \<open>\<open>strconv.Itoa\<close>, as \<open>%d\<close> prints a non-negative number.\<close>

fun Itoa :: "nat \<Rightarrow> string" where
  "Itoa n = (if n < 10 then [digit_char n] else Itoa (n div 10) @ [digit_char (n mod 10)])"

declare Itoa.simps [simp del]

lemma Itoa_digits: "\<forall>c \<in> set (Itoa n). is_digit c"
proof (induction n rule: Itoa.induct)
  case (1 n)
  then show ?case by (subst Itoa.simps) auto
qed

lemma Itoa_nonempty [simp]: "Itoa n \<noteq> []"
  by (subst Itoa.simps) simp

lemma Itoa_val [simp]: "digits_val 0 (Itoa n) = n"
proof (induction n rule: Itoa.induct)
  case (1 n)
  then show ?case by (subst Itoa.simps) simp
qed

lemma Itoa_inject: "Itoa m = Itoa n \<Longrightarrow> m = n"
  by (metis Itoa_val)

text \<open>\<open>strconv.Atoi\<close>: an optional sign, then decimal digits whose value fits in an \<open>int64\<close>.
  \<^const>\<open>None\<close> stands for either of its errors (syntax and range).\<close>

definition Atoi_digits :: "bool \<Rightarrow> string \<Rightarrow> int option" where
  "Atoi_digits neg ds =
     (if ds = [] \<or> \<not> list_all is_digit ds then None
      else let n = int (digits_val 0 ds); v = (if neg then - n else n)
           in if - (2 ^ 63) \<le> v \<and> v < 2 ^ 63 then Some v else None)"

fun Atoi :: "string \<Rightarrow> int option" where
  "Atoi [] = None"
| "Atoi (c # s) =
     (if c = CHR ''-'' then Atoi_digits True s
      else if c = CHR ''+'' then Atoi_digits False s
      else Atoi_digits False (c # s))"

lemma sign_not_digit [simp]: "\<not> is_digit (CHR ''-'')" "\<not> is_digit (CHR ''+'')" "\<not> is_digit (CHR ''.'')"
  by (simp_all add: is_digit_def)

lemma Atoi_digits_Some:
  "Atoi_digits neg ds = Some v \<Longrightarrow> - (2 ^ 63) \<le> v \<and> v < 2 ^ 63"
  by (auto simp: Atoi_digits_def Let_def split: if_splits)

lemma Atoi_range: "Atoi s = Some v \<Longrightarrow> - (2 ^ 63) \<le> v \<and> v < 2 ^ 63"
  by (cases s) (auto split: if_splits dest: Atoi_digits_Some)

lemma Atoi_Itoa: "int n < 2 ^ 63 \<Longrightarrow> Atoi (Itoa n) = Some (int n)"
proof -
  assume n: "int n < 2 ^ 63"
  obtain c cs where c: "Itoa n = c # cs" by (cases "Itoa n") auto
  have "is_digit c" "list_all is_digit (Itoa n)"
    using Itoa_digits[of n] c by (simp_all add: list_all_iff)
  then have "Atoi (Itoa n) = Atoi_digits False (Itoa n)" using c by (auto simp: is_digit_def)
  with n \<open>list_all is_digit (Itoa n)\<close> show ?thesis by (simp add: Atoi_digits_def)
qed

section \<open>Maps\<close>

type_synonym go_map = "(string \<times> string) list"

text \<open>\<open>m[k]\<close>: the zero value, the empty string, for a missing key.\<close>

definition map_get :: "go_map \<Rightarrow> string \<Rightarrow> string" where
  "map_get m k = (case map_of m k of None \<Rightarrow> [] | Some v \<Rightarrow> v)"

text \<open>\<open>maps.Copy(dst, src)\<close> inserts every pair of \<open>src\<close> in its iteration order.\<close>

definition maps_Copy :: "go_map \<Rightarrow> go_map \<Rightarrow> go_map" where
  "maps_Copy dst src = fold (\<lambda>(k, v) m. AList.update k v m) src dst"

text \<open>A Go map holds each key once.\<close>

definition wf_map :: "go_map \<Rightarrow> bool" where
  "wf_map m \<longleftrightarrow> distinct (map fst m)"

lemma wf_map_Nil [simp]: "wf_map []"
  by (simp add: wf_map_def)

lemma map_of_fold_update:
  "map_of (fold (\<lambda>(k, v) m. AList.update k v m) src dst) = map_of dst ++ map_of (rev src)"
  by (induction src arbitrary: dst) (auto simp: update_conv' map_add_def fun_eq_iff split: option.splits)

lemma map_of_rev_wf: "wf_map m \<Longrightarrow> map_of (rev m) = map_of m"
  by (induction m)
     (auto simp: wf_map_def map_add_def fun_eq_iff map_of_eq_None_iff[THEN iffD2] split: option.splits)

lemma map_of_maps_Copy: "wf_map src \<Longrightarrow> map_of (maps_Copy dst src) = map_of dst ++ map_of src"
  by (simp add: maps_Copy_def map_of_fold_update map_of_rev_wf)

lemma wf_map_update: "wf_map m \<Longrightarrow> wf_map (AList.update k v m)"
  by (simp add: wf_map_def distinct_update)

lemma wf_map_Copy: "wf_map dst \<Longrightarrow> wf_map (maps_Copy dst src)"
  unfolding maps_Copy_def by (induction src arbitrary: dst) (auto simp: wf_map_update)

end
