(* ===== verification/Go_Time.thy ===== *)
theory Go_Time
  imports Go_Prelude
begin

text \<open>
  What the program uses of package \<open>time\<close>: \<open>time.ParseDuration\<close> with its \<open>uint64\<close>
  accumulators and its \<open>float64\<close> fractions, and \<open>Duration.Seconds\<close>. A
  \<open>time.Duration\<close> is an \<open>int64\<close> count of nanoseconds, here an \<^typ>\<open>int\<close> in that range.
\<close>

type_synonym duration = int

abbreviation Second :: duration where "Second \<equiv> 1000000000"
abbreviation Minute :: duration where "Minute \<equiv> 60000000000"
abbreviation Hour :: duration where "Hour \<equiv> 3600000000000"

section \<open>Non-negative \<open>float64\<close> values\<close>

text \<open>
  A finite non-negative double is \<open>m * 2 ^ e\<close>; \<open>Inf\<close> is positive infinity. \<open>f64_round p q\<close>
  is \<open>p / q\<close> rounded to nearest, ties to even, as IEEE 754 and Go require.
\<close>

datatype f64 = Fin nat int | Inf

fun bitlen :: "nat \<Rightarrow> nat" where
  "bitlen n = (if n = 0 then 0 else Suc (bitlen (n div 2)))"

declare bitlen.simps [simp del]

definition div_even :: "nat \<Rightarrow> nat \<Rightarrow> nat" where
  "div_even a b =
     (let d = a div b; r = a mod b
      in if 2 * r < b \<or> (2 * r = b \<and> even d) then d else Suc d)"

definition scaled :: "nat \<Rightarrow> nat \<Rightarrow> int \<Rightarrow> nat \<times> nat" where
  "scaled p q e = (if 0 \<le> e then (p, q * 2 ^ nat e) else (p * 2 ^ nat (- e), q))"

definition f64_round :: "nat \<Rightarrow> nat \<Rightarrow> f64" where
  "f64_round p q =
     (if p = 0 then Fin 0 0
      else let k = int (bitlen p) - int (bitlen q) - 53;
               (a, b) = scaled p q k;
               e = max (- 1074) (if a < b * 2 ^ 53 then k else k + 1);
               (a', b') = scaled p q e;
               m = div_even a' b'
           in if 971 < e \<or> (e = 971 \<and> m = 2 ^ 53) then Inf else Fin m e)"

definition f64_of_nat :: "nat \<Rightarrow> f64" where
  "f64_of_nat n = f64_round n 1"

fun f64_mul :: "f64 \<Rightarrow> f64 \<Rightarrow> f64" where
  "f64_mul (Fin m e) (Fin m' e') =
     (let (p, q) = scaled (m * m') 1 (- (e + e')) in f64_round p q)"
| "f64_mul _ _ = Inf"

text \<open>Division by a positive double.\<close>

fun f64_div :: "f64 \<Rightarrow> f64 \<Rightarrow> f64" where
  "f64_div (Fin m e) (Fin m' e') = (let (p, q) = scaled m m' (e' - e) in f64_round p q)"
| "f64_div (Fin m e) Inf = Fin 0 0"
| "f64_div Inf _ = Inf"

fun f64_add :: "f64 \<Rightarrow> f64 \<Rightarrow> f64" where
  "f64_add (Fin m e) (Fin m' e') =
     (let k = min e e'; (p, q) = scaled (m * 2 ^ nat (e - k) + m' * 2 ^ nat (e' - k)) 1 (- k)
      in f64_round p q)"
| "f64_add _ _ = Inf"

text \<open>Conversion of an in-range value to an integer drops the fraction.\<close>

fun f64_trunc :: "f64 \<Rightarrow> nat" where
  "f64_trunc (Fin m e) = (if 0 \<le> e then m * 2 ^ nat e else m div 2 ^ nat (- e))"
| "f64_trunc Inf = 0"

text \<open>\<open>Duration.Seconds\<close> of a non-negative duration.\<close>

definition Duration_Seconds :: "duration \<Rightarrow> f64" where
  "Duration_Seconds d =
     f64_add (f64_of_nat (nat (d div Second))) (f64_div (f64_of_nat (nat (d mod Second))) (f64_of_nat 1000000000))"

lemma bitlen_le: "n < 2 ^ k \<Longrightarrow> bitlen n \<le> k"
proof (induction k arbitrary: n)
  case 0
  then show ?case by (simp add: bitlen.simps)
next
  case (Suc k)
  then have "n div 2 < 2 ^ k" by simp
  then show ?case using Suc.IH by (subst bitlen.simps) simp
qed

lemma bitlen_shift: "0 < n \<Longrightarrow> bitlen (n * 2 ^ j) = bitlen n + j"
proof (induction j)
  case 0
  then show ?case by simp
next
  case (Suc j)
  have "bitlen (n * 2 ^ Suc j) = Suc (bitlen (n * 2 ^ Suc j div 2))"
    using Suc.prems by (subst bitlen.simps) simp
  also have "n * 2 ^ Suc j div 2 = n * 2 ^ j" by simp
  finally show ?case using Suc by simp
qed

lemma bitlen_1: "bitlen (Suc 0) = Suc 0"
  by (simp add: bitlen.simps[of "Suc 0"] bitlen.simps[of 0])

lemma bitlen_pow: "bitlen (2 ^ j) = Suc j"
  using bitlen_shift[of 1 j] by (simp add: bitlen_1)

lemma div_even_mult: "0 < b \<Longrightarrow> div_even (a * b) b = a"
  by (simp add: div_even_def)

text \<open>Integers of at most 53 bits are doubles.\<close>

lemma f64_round_nat:
  assumes "0 < n" "n < 2 ^ 53"
  shows "\<exists>e. e \<le> 0 \<and> f64_round (n * 2 ^ j) (2 ^ j) = Fin (n * 2 ^ nat (- e)) e"
proof -
  let ?p = "n * 2 ^ j" and ?q = "2 ^ j :: nat"
  define k where "k = int (bitlen ?p) - int (bitlen ?q) - 53"
  define e where "e = (if fst (scaled ?p ?q k) < snd (scaled ?p ?q k) * 2 ^ 53 then k else k + 1)"
  have "1 \<le> bitlen n" using assms(1) by (subst bitlen.simps) simp
  then have k: "- 53 \<le> k" "k \<le> - 1"
    using bitlen_le[OF assms(2)] bitlen_shift[OF assms(1), of j] bitlen_pow[of j] by (simp_all add: k_def)
  then have e: "- 1074 \<le> e" "e \<le> 0" by (auto simp: e_def)
  have "f64_round ?p ?q = (let (a, b) = scaled ?p ?q e; m = div_even a b
      in if 971 < e \<or> (e = 971 \<and> m = 2 ^ 53) then Inf else Fin m e)"
    using assms(1) e(1) by (auto simp: f64_round_def k_def[symmetric] e_def case_prod_beta Let_def max_def)
  also have "\<dots> = Fin (n * 2 ^ nat (- e)) e"
    using e div_even_mult[of "2 ^ j" "n * 2 ^ nat (- e)"] by (auto simp: scaled_def ac_simps)
  finally show ?thesis using e(2) by blast
qed

lemma f64_round_0 [simp]: "f64_round 0 q = Fin 0 0"
  by (simp add: f64_round_def)

lemma f64_trunc_scaled: "e \<le> 0 \<Longrightarrow> f64_trunc (Fin (n * 2 ^ nat (- e)) e) = n"
  by simp

lemma f64_of_nat_exact:
  assumes "0 < n" "n < 2 ^ 53"
  obtains i where "f64_of_nat n = Fin (n * 2 ^ i) (- int i)"
  using f64_round_nat[OF assms, of 0] that by (fastforce simp: f64_of_nat_def)

lemma f64_mul_exact:
  assumes "0 < a" "0 < b" "a * b < 2 ^ 53"
  shows "f64_trunc (f64_mul (f64_of_nat a) (f64_of_nat b)) = a * b"
proof -
  have "a \<le> a * b" "b \<le> a * b" using assms(1,2) by simp_all
  then have "a < 2 ^ 53" "b < 2 ^ 53" using assms(3) by (blast intro: le_less_trans)+
  then obtain i j where ij: "f64_of_nat a = Fin (a * 2 ^ i) (- int i)" "f64_of_nat b = Fin (b * 2 ^ j) (- int j)"
    using f64_of_nat_exact assms(1,2) by metis
  have "f64_mul (f64_of_nat a) (f64_of_nat b) = f64_round (a * b * 2 ^ (i + j)) (2 ^ (i + j))"
    by (simp add: ij scaled_def power_add ac_simps nat_add_distrib)
  moreover obtain e where "e \<le> 0" "f64_round (a * b * 2 ^ (i + j)) (2 ^ (i + j)) = Fin (a * b * 2 ^ nat (- e)) e"
    using f64_round_nat[of "a * b" "i + j"] assms by auto
  ultimately show ?thesis using f64_trunc_scaled by simp
qed

lemma Duration_Seconds_whole:
  assumes "0 \<le> d" "d mod Second = 0" "d div Second < 2 ^ 53"
  shows "int (f64_trunc (Duration_Seconds d)) = d div Second"
proof -
  define n where "n = nat (d div Second)"
  have n: "int n = d div Second" using assms(1) by (simp add: n_def pos_imp_zdiv_nonneg_iff)
  have zero: "f64_div (f64_of_nat 0) (f64_of_nat q) = Fin 0 0" for q
    by (cases "f64_of_nat q") (simp_all add: f64_of_nat_def scaled_def)
  show ?thesis
  proof (cases "n = 0")
    case True
    then show ?thesis using assms(2) n zero
      by (simp add: Duration_Seconds_def n_def[symmetric] f64_of_nat_def scaled_def)
  next
    case False
    moreover have small: "n < 2 ^ 53" using assms(3) n by simp
    ultimately obtain e where e: "e \<le> 0" "f64_round n 1 = Fin (n * 2 ^ nat (- e)) e"
      using f64_round_nat[of n 0] by auto
    have "Duration_Seconds d = f64_add (Fin (n * 2 ^ nat (- e)) e) (Fin 0 0)"
      using assms(2) zero e by (simp add: Duration_Seconds_def n_def[symmetric] f64_of_nat_def)
    also have "\<dots> = f64_round (n * 2 ^ nat (- e)) (2 ^ nat (- e))"
      using e(1) by (simp add: scaled_def Let_def min_def)
    finally have "Duration_Seconds d = f64_round (n * 2 ^ nat (- e)) (2 ^ nat (- e))" .
    then show ?thesis
      using f64_round_nat[of n "nat (- e)"] False small f64_trunc_scaled[of _ n] n by auto
  qed
qed

section \<open>\<open>time.ParseDuration\<close>\<close>

fun leadingInt :: "nat \<Rightarrow> string \<Rightarrow> (nat \<times> string) option" where
  "leadingInt x [] = Some (x, [])"
| "leadingInt x (c # s) =
     (if \<not> is_digit c then Some (x, c # s)
      else if 2 ^ 63 div 10 < x then None
      else let x' = 10 * x + digit_val c
           in if 2 ^ 63 < x' then None else leadingInt x' s)"

fun leadingFraction :: "nat \<Rightarrow> f64 \<Rightarrow> bool \<Rightarrow> string \<Rightarrow> nat \<times> f64 \<times> string" where
  "leadingFraction x scale overflow [] = (x, scale, [])"
| "leadingFraction x scale overflow (c # s) =
     (if \<not> is_digit c then (x, scale, c # s)
      else if overflow then leadingFraction x scale True s
      else if (2 ^ 63 - 1) div 10 < x then leadingFraction x scale True s
      else let y = 10 * x + digit_val c
           in if 2 ^ 63 < y then leadingFraction x scale True s
              else leadingFraction y (f64_mul scale (f64_of_nat 10)) False s)"

definition unitMap :: "string \<Rightarrow> nat option" where
  "unitMap u = map_of
     [(''ns'', 1), (''us'', 1000),
      ([CHR 0xC2, CHR 0xB5, CHR ''s''], 1000), ([CHR 0xCE, CHR 0xBC, CHR ''s''], 1000),
      (''ms'', 1000000), (''s'', 1000000000), (''m'', 60000000000), (''h'', 3600000000000)] u"

definition num_char :: "char \<Rightarrow> bool" where
  "num_char c \<longleftrightarrow> c = CHR ''.'' \<or> is_digit c"

text \<open>One number with its unit: the value in nanoseconds and what is left of the input.\<close>

definition parse_term :: "string \<Rightarrow> (nat \<times> string) option" where
  "parse_term s =
     (if s = [] \<or> \<not> num_char (hd s) then None
      else case leadingInt 0 s of
        None \<Rightarrow> None
      | Some (v, s1) \<Rightarrow>
          let pre = (length s1 \<noteq> length s);
              (f, scale, s2, post) =
                (if s1 \<noteq> [] \<and> hd s1 = CHR ''.''
                 then let (f, scale, r) = leadingFraction 0 (f64_of_nat 1) False (tl s1)
                      in (f, scale, r, length r \<noteq> length (tl s1))
                 else (0, f64_of_nat 1, s1, False));
              u = takeWhile (\<lambda>c. \<not> num_char c) s2;
              s3 = dropWhile (\<lambda>c. \<not> num_char c) s2
          in if \<not> pre \<and> \<not> post then None
             else if u = [] then None
             else case unitMap u of
               None \<Rightarrow> None
             | Some unit \<Rightarrow>
                 if 2 ^ 63 div unit < v then None
                 else if f = 0 then Some (v * unit, s3)
                 else let v' = v * unit
                             + f64_trunc (f64_mul (f64_of_nat f) (f64_div (f64_of_nat unit) scale))
                      in if 2 ^ 63 < v' then None else Some (v', s3))"

lemma leadingInt_length: "leadingInt x s = Some (v, r) \<Longrightarrow> length r \<le> length s"
  by (induction x s rule: leadingInt.induct) (auto simp: Let_def split: if_splits)

lemma leadingFraction_length: "leadingFraction x sc ov s = (f, scale, r) \<Longrightarrow> length r \<le> length s"
  by (induction x sc ov s rule: leadingFraction.induct) (auto simp: Let_def split: if_splits)

lemma dropWhile_shorter: "takeWhile P xs \<noteq> [] \<Longrightarrow> length (dropWhile P xs) < length xs"
  by (cases xs) (auto simp: length_dropWhile_le le_imp_less_Suc split: if_splits)

lemma parse_term_shorter: "parse_term s = Some (v, r) \<Longrightarrow> length r < length s"
proof -
  assume p: "parse_term s = Some (v, r)"
  then obtain n s1 where n: "leadingInt 0 s = Some (n, s1)"
    by (auto simp: parse_term_def split: if_splits option.splits)
  define s2 where "s2 = (if s1 \<noteq> [] \<and> hd s1 = CHR ''.''
    then snd (snd (leadingFraction 0 (f64_of_nat 1) False (tl s1))) else s1)"
  have s2: "length s2 \<le> length s"
  proof (cases "s1 \<noteq> [] \<and> hd s1 = CHR ''.''")
    case True
    obtain a b c where "leadingFraction 0 (f64_of_nat 1) False (tl s1) = (a, b, c)"
      by (cases "leadingFraction 0 (f64_of_nat 1) False (tl s1)")
    with True show ?thesis
      using leadingFraction_length[of 0 "f64_of_nat 1" False "tl s1" a b c] leadingInt_length[OF n]
      by (simp add: s2_def)
  next
    case False
    then show ?thesis using leadingInt_length[OF n] by (auto simp: s2_def)
  qed
  have "takeWhile (\<lambda>c. \<not> num_char c) s2 \<noteq> [] \<and> r = dropWhile (\<lambda>c. \<not> num_char c) s2"
    using p n by (auto simp: parse_term_def s2_def Let_def split: if_splits option.splits prod.splits)
  then show ?thesis using dropWhile_shorter s2 by fastforce
qed

text \<open>The loop over the terms; the sum is a \<open>uint64\<close>.\<close>

function parse_terms :: "nat \<Rightarrow> string \<Rightarrow> nat option" where
  "parse_terms d s =
     (if s = [] then Some d
      else case parse_term s of
        None \<Rightarrow> None
      | Some (v, r) \<Rightarrow>
          let d' = (d + v) mod 2 ^ 64
          in if 2 ^ 63 < d' then None else parse_terms d' r)"
  by pat_completeness auto
termination
  by (relation "measure (\<lambda>(d, s). length s)") (auto dest: parse_term_shorter)

declare parse_terms.simps [simp del]

lemma parse_terms_Nil [simp]: "parse_terms d [] = Some d"
  by (subst parse_terms.simps) simp

lemma parse_terms_step:
  "parse_term s = Some (v, r) \<Longrightarrow>
   parse_terms d s = (if 2 ^ 63 < (d + v) mod 2 ^ 64 then None else parse_terms ((d + v) mod 2 ^ 64) r)"
  by (subst parse_terms.simps) (auto simp: parse_term_def)

lemma parse_terms_fail: "s \<noteq> [] \<Longrightarrow> parse_term s = None \<Longrightarrow> parse_terms d s = None"
  by (subst parse_terms.simps) simp

definition parse_magnitude :: "bool \<Rightarrow> string \<Rightarrow> duration option" where
  "parse_magnitude neg s =
     (if s = ''0'' then Some 0
      else if s = [] then None
      else case parse_terms 0 s of
        None \<Rightarrow> None
      | Some d \<Rightarrow>
          if neg then Some (int64 (- int64 (int d)))
          else if 2 ^ 63 - 1 < d then None
          else Some (int64 (int d)))"

fun time_ParseDuration :: "string \<Rightarrow> duration option" where
  "time_ParseDuration [] = None"
| "time_ParseDuration (c # s) =
     (if c = CHR ''-'' then parse_magnitude True s
      else if c = CHR ''+'' then parse_magnitude False s
      else parse_magnitude False (c # s))"

lemma time_ParseDuration_range:
  "time_ParseDuration s = Some d \<Longrightarrow> - (2 ^ 63) \<le> d \<and> d < 2 ^ 63"
  by (cases s) (auto simp: parse_magnitude_def split: if_splits option.splits)

text \<open>A number followed by a unit parses to its value, whatever follows.\<close>

lemma leadingInt_digits:
  assumes "list_all is_digit ds" "digits_val x ds \<le> 2 ^ 63" "r = [] \<or> \<not> is_digit (hd r)"
  shows "leadingInt x (ds @ r) = Some (digits_val x ds, r)"
  using assms
proof (induction ds arbitrary: x)
  case Nil
  then show ?case by (cases r) auto
next
  case (Cons c ds)
  have "10 * x + digit_val c \<le> 2 ^ 63"
    using digits_val_ge[of "10 * x + digit_val c" ds] Cons.prems(2) by simp
  then show ?case using Cons by simp
qed

lemma parse_term_Itoa:
  assumes unit: "unitMap u = Some k" and u: "u \<noteq> []" "list_all (\<lambda>c. \<not> num_char c) u"
    and r: "r = [] \<or> num_char (hd r)" and n: "n \<le> 2 ^ 63 div k" "n \<le> 2 ^ 63"
  shows "parse_term (Itoa n @ u @ r) = Some (n * k, r)"
proof -
  have digits: "list_all is_digit (Itoa n)" using Itoa_digits by (simp add: list_all_iff)
  then have first: "num_char (hd (Itoa n))"
    by (cases "Itoa n") (auto simp: num_char_def dest: Itoa_nonempty[THEN notE])
  have hd_u: "\<not> num_char (hd u)" using u by (cases u) auto
  then have "leadingInt 0 (Itoa n @ u @ r) = Some (n, u @ r)"
    using leadingInt_digits[OF digits, of 0 "u @ r"] u n by (simp add: num_char_def)
  moreover have "takeWhile (\<lambda>c. \<not> num_char c) (u @ r) = u" "dropWhile (\<lambda>c. \<not> num_char c) (u @ r) = r"
    using u r by (cases r; simp add: list_all_iff)+
  moreover have "hd (Itoa n @ u @ r) = hd (Itoa n)" "hd (u @ r) = hd u" using u by simp_all
  moreover have "hd u \<noteq> CHR ''.''" using hd_u by (auto simp: num_char_def)
  ultimately show ?thesis using unit u n first
    by (simp add: parse_term_def)
qed

lemma time_ParseDuration_Itoa:
  assumes unit: "unitMap u = Some k" and u: "u \<noteq> []" "list_all (\<lambda>c. \<not> num_char c) u"
    and n: "n * k < 2 ^ 63" and k: "0 < k"
  shows "time_ParseDuration (Itoa n @ u) = Some (int (n * k))"
proof -
  obtain c cs where c: "Itoa n = c # cs" by (cases "Itoa n") auto
  have dig: "is_digit c" using Itoa_digits[of n] c by simp
  have n': "n \<le> 2 ^ 63 div k" using n k by (simp add: less_eq_div_iff_mult_less_eq)
  have "n \<le> n * k" using k by simp
  then have "n \<le> 2 ^ 63" using n by linarith
  then have t: "parse_term (Itoa n @ u) = Some (n * k, [])"
    using parse_term_Itoa[OF unit u, of "[]" n] n' by simp
  have small: "(0 + n * k) mod 2 ^ 64 = n * k" "\<not> 2 ^ 63 < n * k" using n by simp_all
  have "parse_terms 0 (Itoa n @ u) = Some (n * k)"
    unfolding parse_terms_step[OF t] small(1) using small(2) by simp
  moreover have "Itoa n @ u \<noteq> ''0''"
    using c u by auto
  moreover have "int64 (int (n * k)) = int (n * k)"
    using n by (intro int64_id) (simp_all flip: of_nat_mult)
  moreover have "c \<noteq> CHR ''-''" "c \<noteq> CHR ''+''" using dig by auto
  moreover have "time_ParseDuration (Itoa n @ u) = parse_magnitude False (Itoa n @ u)"
    using c calculation by simp
  ultimately show ?thesis using n u by (simp add: parse_magnitude_def)
qed

text \<open>A number whose value in nanoseconds does not fit an \<open>int64\<close> is refused.\<close>

lemma leadingInt_overflow:
  assumes "list_all is_digit ds" "x \<le> 2 ^ 63" "2 ^ 63 < digits_val x ds"
  shows "leadingInt x (ds @ r) = None"
  using assms by (induction ds arbitrary: x) (auto simp: Let_def)

lemma time_ParseDuration_overflow:
  assumes unit: "unitMap u = Some k" and u: "u \<noteq> []" "list_all (\<lambda>c. \<not> num_char c) u"
    and n: "2 ^ 63 \<le> n * k" and k: "0 < k"
  shows "time_ParseDuration (Itoa n @ u) = None"
proof -
  obtain c cs where c: "Itoa n = c # cs" by (cases "Itoa n") auto
  have digits: "list_all is_digit (Itoa n)" using Itoa_digits by (simp add: list_all_iff)
  have sign: "c \<noteq> CHR ''-''" "c \<noteq> CHR ''+''" using Itoa_digits[of n] c by auto
  have "parse_magnitude False (Itoa n @ u) = None"
  proof (cases "n \<le> 2 ^ 63 \<and> n \<le> 2 ^ 63 div k")
    case True
    have "n * k \<le> 2 ^ 63" using True k by (simp add: less_eq_div_iff_mult_less_eq)
    with n have nk: "n * k = 2 ^ 63" by simp
    have t: "parse_term (Itoa n @ u) = Some (2 ^ 63, [])"
      using parse_term_Itoa[OF unit u, of "[]" n] True unfolding nk by simp
    have "parse_terms 0 (Itoa n @ u) = Some (2 ^ 63)"
      unfolding parse_terms_step[OF t] by simp
    moreover have "Itoa n @ u \<noteq> ''0''" using c u by auto
    ultimately show ?thesis by (simp add: parse_magnitude_def)
  next
    case False
    have "parse_term (Itoa n @ u) = None"
    proof (cases "n \<le> 2 ^ 63")
      case True
      have hd_u: "\<not> num_char (hd u)" using u by (cases u) auto
      then have "leadingInt 0 (Itoa n @ u) = Some (n, u)"
        using leadingInt_digits[OF digits, of 0 u] u True by (simp add: num_char_def)
      moreover have whole: "takeWhile (\<lambda>c. \<not> num_char c) u = u" using u(2) by (simp add: list_all_iff)
      moreover have "hd u \<noteq> CHR ''.''" using hd_u by (auto simp: num_char_def)
      ultimately show ?thesis using unit u True False by (simp add: parse_term_def Let_def whole)
    next
      case big: False
      then have "leadingInt 0 (Itoa n @ u) = None"
        using leadingInt_overflow[OF digits, of 0 u] by simp
      then show ?thesis by (simp add: parse_term_def)
    qed
    moreover have "Itoa n @ u \<noteq> ''0''" using c u by auto
    ultimately show ?thesis using parse_terms_fail[of "Itoa n @ u" 0] u by (simp add: parse_magnitude_def)
  qed
  then show ?thesis using c sign by simp
qed

end
