(* ===== verification/Client_Model.thy ===== *)
theory Client_Model
  imports Go_Time
begin

text \<open>
  The data the packages \<open>client\<close> and \<open>provisioner\<close> share: error values with Go's wrapping, the
  transport-neutral resources of \<open>internal/client\<close>, the admin interfaces of
  \<open>internal/provisioner/provisioner.go\<close>, and the events a run produces (the admin calls it
  makes and the log records it writes, in order).
\<close>

section \<open>Error values\<close>

datatype grpc_code =
    CodeOK | CodeCanceled | CodeUnknown | CodeInvalidArgument | CodeDeadlineExceeded | CodeNotFound
  | CodeAlreadyExists | CodePermissionDenied | CodeFailedPrecondition | CodeUnavailable | CodeOther nat

text \<open>
  \<open>StatusError\<close> is what the Pub/Sub admin clients return: a gRPC code and the text of the
  error. \<open>StorageError\<close> is what the Cloud Storage client returns: whether it is
  \<open>storage.ErrBucketNotExist\<close>, the code its \<open>HTTPCode\<close> method reports if it has one, and its
  text. \<open>Wrapped pre e post\<close> is \<open>fmt.Errorf("pre%wpost", e)\<close>.
\<close>

datatype go_error =
    ErrNotFound
  | ErrBucketNotFound
  | StatusError grpc_code string
  | StorageError bool "int option" string
  | ErrorText string
  | Wrapped string go_error string

fun err_Error :: "go_error \<Rightarrow> string" where
  "err_Error ErrNotFound = ''resource not found''"
| "err_Error ErrBucketNotFound = ''bucket not found''"
| "err_Error (StatusError c msg) = msg"
| "err_Error (StorageError ne h msg) = msg"
| "err_Error (ErrorText msg) = msg"
| "err_Error (Wrapped pre e post) = pre @ err_Error e @ post"

text \<open>\<open>errors.Is\<close> against the three sentinels the program tests for.\<close>

fun is_ErrNotFound :: "go_error \<Rightarrow> bool" where
  "is_ErrNotFound ErrNotFound = True"
| "is_ErrNotFound (Wrapped pre e post) = is_ErrNotFound e"
| "is_ErrNotFound _ = False"

fun is_ErrBucketNotFound :: "go_error \<Rightarrow> bool" where
  "is_ErrBucketNotFound ErrBucketNotFound = True"
| "is_ErrBucketNotFound (Wrapped pre e post) = is_ErrBucketNotFound e"
| "is_ErrBucketNotFound _ = False"

fun is_ErrBucketNotExist :: "go_error \<Rightarrow> bool" where
  "is_ErrBucketNotExist (StorageError ne h msg) = ne"
| "is_ErrBucketNotExist (Wrapped pre e post) = is_ErrBucketNotExist e"
| "is_ErrBucketNotExist _ = False"

text \<open>\<open>status.Code\<close> looks through wrapping; an error without a status is \<open>Unknown\<close>.\<close>

fun status_Code :: "go_error \<Rightarrow> grpc_code" where
  "status_Code (StatusError c msg) = c"
| "status_Code (Wrapped pre e post) = status_Code e"
| "status_Code _ = CodeUnknown"

text \<open>\<open>errors.As\<close> for an error with an \<open>HTTPCode\<close> method.\<close>

fun http_code :: "go_error \<Rightarrow> int option" where
  "http_code (StorageError ne h msg) = h"
| "http_code (Wrapped pre e post) = http_code e"
| "http_code _ = None"

text \<open>\<open>%q\<close> of an ASCII string; bytes outside ASCII are passed through.\<close>

definition hex_digit :: "nat \<Rightarrow> char" where
  "hex_digit n = (if n < 10 then char_of (48 + n) else char_of (87 + n))"

definition quote_byte :: "char \<Rightarrow> string" where
  "quote_byte c =
     (let n = (of_char c :: nat) in
      if n = 34 then [CHR 0x5C, CHR 0x22]
      else if n = 92 then [CHR 0x5C, CHR 0x5C]
      else if n = 7 then [CHR 0x5C, CHR ''a''] else if n = 8 then [CHR 0x5C, CHR ''b'']
      else if n = 9 then [CHR 0x5C, CHR ''t''] else if n = 10 then [CHR 0x5C, CHR ''n'']
      else if n = 11 then [CHR 0x5C, CHR ''v''] else if n = 12 then [CHR 0x5C, CHR ''f'']
      else if n = 13 then [CHR 0x5C, CHR ''r'']
      else if n < 32 \<or> n = 127 then [CHR 0x5C, CHR ''x'', hex_digit (n div 16), hex_digit (n mod 16)]
      else [c])"

definition quote :: "string \<Rightarrow> string" where
  "quote s = [CHR 0x22] @ concat (map quote_byte s) @ [CHR 0x22]"

fun join :: "string \<Rightarrow> string list \<Rightarrow> string" where
  "join sep [] = []"
| "join sep [s] = s"
| "join sep (s # ss) = s @ sep @ join sep ss"

section \<open>Transport-neutral resources\<close>

record Topic =
  t_Name :: string
  t_Labels :: go_map
  t_MessageRetention :: duration

record DeadLetterPolicy =
  d_Topic :: string
  d_MaxDeliveryAttempts :: int

record RetryPolicy =
  r_MinimumBackoff :: duration
  r_MaximumBackoff :: duration

record OIDCToken =
  o_ServiceAccountEmail :: string
  o_Audience :: string

datatype Wrapper = WrapperUnset | WrapperPubSub | WrapperNone

record PushConfig =
  p_Endpoint :: string
  p_Attributes :: go_map
  p_OIDCToken :: "OIDCToken option"
  p_Wrapper :: Wrapper
  p_WriteMetadata :: bool

record Subscription =
  s_Name :: string
  s_Topic :: string
  s_AckDeadline :: duration
  s_MessageRetention :: duration
  s_RetainAckedMessages :: "bool option"
  s_EnableMessageOrdering :: "bool option"
  s_EnableExactlyOnceDelivery :: "bool option"
  s_Filter :: string
  s_ExpirationSet :: bool
  s_ExpirationTTL :: duration
  s_Labels :: go_map
  s_Push :: "PushConfig option"
  s_DeadLetter :: "DeadLetterPolicy option"
  s_Retry :: "RetryPolicy option"

record Bucket =
  b_Name :: string
  b_VersioningEnabled :: bool
  b_Location :: string
  b_StorageClass :: string

definition DerefBool :: "bool option \<Rightarrow> bool" where
  "DerefBool b \<longleftrightarrow> (case b of None \<Rightarrow> False | Some v \<Rightarrow> v)"

lemma DerefBool_simps [simp]: "DerefBool None = False" "DerefBool (Some v) = v"
  by (simp_all add: DerefBool_def)

section \<open>The admin interfaces\<close>

text \<open>
  An operation takes the endpoint's state and returns its result with the state after the
  call. The context argument is left out: a cancelled or expired context shows as an error of
  the call.
\<close>

record 'p PubSubAdmin =
  GetTopic :: "string \<Rightarrow> 'p \<Rightarrow> (go_error + Topic) \<times> 'p"
  CreateTopic :: "Topic \<Rightarrow> 'p \<Rightarrow> go_error option \<times> 'p"
  UpdateTopic :: "Topic \<Rightarrow> string list \<Rightarrow> 'p \<Rightarrow> go_error option \<times> 'p"
  GetSubscription :: "string \<Rightarrow> 'p \<Rightarrow> (go_error + Subscription) \<times> 'p"
  CreateSubscription :: "Subscription \<Rightarrow> 'p \<Rightarrow> go_error option \<times> 'p"
  UpdateSubscription :: "Subscription \<Rightarrow> string list \<Rightarrow> 'p \<Rightarrow> go_error option \<times> 'p"

record 'q StorageAdmin =
  GetBucket :: "string \<Rightarrow> 'q \<Rightarrow> (go_error + Bucket) \<times> 'q"
  CreateBucket :: "Bucket \<Rightarrow> 'q \<Rightarrow> go_error option \<times> 'q"
  SetVersioning :: "string \<Rightarrow> bool \<Rightarrow> 'q \<Rightarrow> go_error option \<times> 'q"

record Options =
  DryRun :: bool
  CompareCreateOnlyBucketAttrs :: bool

definition DefaultOptions :: Options where
  "DefaultOptions = \<lparr>DryRun = False, CompareCreateOnlyBucketAttrs = False\<rparr>"

section \<open>Events and the world\<close>

datatype log_level = Debug | Info | Warn | Error

datatype attr =
    AStr string | AInt int | ABool bool | ADur duration | AStrs "string list" | AErr go_error

datatype event =
    Log log_level string "(string \<times> attr) list"
  | CallGetTopic string
  | CallCreateTopic Topic
  | CallUpdateTopic Topic "string list"
  | CallGetSubscription string
  | CallCreateSubscription Subscription
  | CallUpdateSubscription Subscription "string list"
  | CallGetBucket string
  | CallCreateBucket Bucket
  | CallSetVersioning string bool
  | CallStat string
  | CallMkdirAll string
  | CallWriteFile string string

record drift =
  dr_field :: string
  dr_current :: attr
  dr_desired :: attr

text \<open>The calls that change an endpoint or the file system.\<close>

fun mutating :: "event \<Rightarrow> bool" where
  "mutating (CallCreateTopic t) = True"
| "mutating (CallUpdateTopic t ps) = True"
| "mutating (CallCreateSubscription s) = True"
| "mutating (CallUpdateSubscription s ps) = True"
| "mutating (CallCreateBucket b) = True"
| "mutating (CallSetVersioning n v) = True"
| "mutating (CallMkdirAll p) = True"
| "mutating (CallWriteFile p c) = True"
| "mutating _ = False"

text \<open>
  The world of a run: the Pub/Sub endpoint, the Cloud Storage endpoint and the file system,
  each with a state type of its own, and the events so far.
\<close>

record ('p, 'q, 'f) world =
  pubsub_state :: 'p
  storage_state :: 'q
  files :: 'f
  trace :: "event list"

definition emit :: "event \<Rightarrow> ('p, 'q, 'f) world \<Rightarrow> ('p, 'q, 'f) world" where
  "emit e w = w\<lparr>trace := trace w @ [e]\<rparr>"

definition slog :: "log_level \<Rightarrow> string \<Rightarrow> (string \<times> attr) list \<Rightarrow> ('p, 'q, 'f) world \<Rightarrow> ('p, 'q, 'f) world" where
  "slog l msg attrs = emit (Log l msg attrs)"

definition on_pubsub :: "event \<Rightarrow> ('p \<Rightarrow> 'r \<times> 'p) \<Rightarrow> ('p, 'q, 'f) world \<Rightarrow> 'r \<times> ('p, 'q, 'f) world" where
  "on_pubsub e f w = (case f (pubsub_state w) of (r, s) \<Rightarrow> (r, (emit e w)\<lparr>pubsub_state := s\<rparr>))"

definition on_storage :: "event \<Rightarrow> ('q \<Rightarrow> 'r \<times> 'q) \<Rightarrow> ('p, 'q, 'f) world \<Rightarrow> 'r \<times> ('p, 'q, 'f) world" where
  "on_storage e f w = (case f (storage_state w) of (r, s) \<Rightarrow> (r, (emit e w)\<lparr>storage_state := s\<rparr>))"

definition on_files :: "event \<Rightarrow> ('f \<Rightarrow> 'r \<times> 'f) \<Rightarrow> ('p, 'q, 'f) world \<Rightarrow> 'r \<times> ('p, 'q, 'f) world" where
  "on_files e f w = (case f (files w) of (r, s) \<Rightarrow> (r, (emit e w)\<lparr>files := s\<rparr>))"

lemma emit_simps [simp]:
  "trace (emit e w) = trace w @ [e]" "pubsub_state (emit e w) = pubsub_state w"
  "storage_state (emit e w) = storage_state w" "files (emit e w) = files w"
  by (simp_all add: emit_def)

lemma slog_simps [simp]:
  "trace (slog l m a w) = trace w @ [Log l m a]" "pubsub_state (slog l m a w) = pubsub_state w"
  "storage_state (slog l m a w) = storage_state w" "files (slog l m a w) = files w"
  by (simp_all add: slog_def)

lemma on_pubsub_eq:
  "on_pubsub e f w = (fst (f (pubsub_state w)), (emit e w)\<lparr>pubsub_state := snd (f (pubsub_state w))\<rparr>)"
  by (simp add: on_pubsub_def split: prod.splits)

lemma on_storage_eq:
  "on_storage e f w = (fst (f (storage_state w)), (emit e w)\<lparr>storage_state := snd (f (storage_state w))\<rparr>)"
  by (simp add: on_storage_def split: prod.splits)

lemma on_files_eq:
  "on_files e f w = (fst (f (files w)), (emit e w)\<lparr>files := snd (f (files w))\<rparr>)"
  by (simp add: on_files_def split: prod.splits)

text \<open>\<open>if err != nil { return fmt.Errorf("...: %w", err) }\<close>.\<close>

definition wrap_result :: "string \<Rightarrow> go_error option \<times> 'w \<Rightarrow> go_error option \<times> 'w" where
  "wrap_result pre = map_prod (map_option (\<lambda>e. Wrapped pre e [])) id"

lemma wrap_result_eq [simp]:
  "wrap_result pre (r, w) = (map_option (\<lambda>e. Wrapped pre e []) r, w)"
  by (simp add: wrap_result_def)

lemma wrap_result_elim:
  assumes "wrap_result pre x = (r, w)"
  obtains r' where "x = (r', w)" "r = map_option (\<lambda>e. Wrapped pre e []) r'"
  using assms by (cases x) auto

section \<open>What a step adds to the trace\<close>

text \<open>\<open>emits P w w'\<close>: from \<open>w\<close> to \<open>w'\<close> only events satisfying \<open>P\<close> were added.\<close>

definition emits :: "(event \<Rightarrow> bool) \<Rightarrow> ('p, 'q, 'f) world \<Rightarrow> ('p, 'q, 'f) world \<Rightarrow> bool" where
  "emits P w w' \<longleftrightarrow> (\<exists>es. trace w' = trace w @ es \<and> list_all P es)"

lemma emits_refl [simp]: "emits P w w"
  by (simp add: emits_def)

lemma emits_trans: "emits P u v \<Longrightarrow> emits P v w \<Longrightarrow> emits P u w"
  by (auto simp: emits_def)

lemma emits_mono: "emits P w w' \<Longrightarrow> (\<And>e. P e \<Longrightarrow> Q e) \<Longrightarrow> emits Q w w'"
  by (auto simp: emits_def list_all_iff)

lemma emits_slog [simp]: "emits P w (slog l m a w) \<longleftrightarrow> P (Log l m a)"
  by (simp add: emits_def)

lemma emits_slog_after: "emits P w v \<Longrightarrow> P (Log l m a) \<Longrightarrow> emits P w (slog l m a v)"
  by (auto simp: emits_def)

lemma emits_slog_before: "emits P (slog l m a v) w \<Longrightarrow> P (Log l m a) \<Longrightarrow> emits P v w"
  by (auto simp: emits_def)

lemma emits_on_pubsub: "P e \<Longrightarrow> on_pubsub e f w = (r, w') \<Longrightarrow> emits P w w'"
  by (auto simp: on_pubsub_eq emits_def)

lemma emits_on_storage: "P e \<Longrightarrow> on_storage e f w = (r, w') \<Longrightarrow> emits P w w'"
  by (auto simp: on_storage_eq emits_def)

lemma emits_on_files: "P e \<Longrightarrow> on_files e f w = (r, w') \<Longrightarrow> emits P w w'"
  by (auto simp: on_files_eq emits_def)

lemma emits_for_each:
  assumes "for_each f xs w = (r, w')" "\<And>x v r v'. x \<in> set xs \<Longrightarrow> f x v = (r, v') \<Longrightarrow> emits P v v'"
  shows "emits P w w'"
  using assms(1) by (rule for_each_invariant[where I = "emits P w"]) (auto intro: emits_trans assms(2))

text \<open>The parts of the world a step leaves alone.\<close>

definition only_pubsub :: "('p, 'q, 'f) world \<Rightarrow> ('p, 'q, 'f) world \<Rightarrow> bool" where
  "only_pubsub w w' \<longleftrightarrow> storage_state w' = storage_state w \<and> files w' = files w"

lemma only_pubsub_refl [simp]: "only_pubsub w w"
  by (simp add: only_pubsub_def)

lemma only_pubsub_trans: "only_pubsub u v \<Longrightarrow> only_pubsub v w \<Longrightarrow> only_pubsub u w"
  by (simp add: only_pubsub_def)

lemma only_pubsub_slog [simp]: "only_pubsub w (slog l m a v) \<longleftrightarrow> only_pubsub w v"
  "only_pubsub (slog l m a v) w \<longleftrightarrow> only_pubsub v w"
  by (simp_all add: only_pubsub_def)

lemma only_pubsub_on_pubsub: "on_pubsub e f w = (r, w') \<Longrightarrow> only_pubsub w w'"
  by (auto simp: on_pubsub_eq only_pubsub_def)

end
