(* ===== verification/PubSub_Client.thy ===== *)
theory PubSub_Client
  imports Client_Model
begin

text \<open>
  \<open>internal/client/pubsub.go\<close>: the conversion between the transport-neutral resources and
  the Pub/Sub messages, and the six admin operations. The Pub/Sub admin API itself is the
  parameter \<open>api\<close> (a \<open>pubsub_api\<close>), and \<open>durationpb\<close>, the Go binding of the protobuf
  \<open>Duration\<close> message, the parameter \<open>pb\<close>; its law, that reading back a message built
  from a duration gives the duration, is the locale \<open>duration_message\<close>.
\<close>

section \<open>Pub/Sub messages\<close>

text \<open>The message fields the program sets and reads; \<^typ>\<open>'d\<close> is a \<open>Duration\<close> message.\<close>

record 'd durationpb =
  New :: "duration \<Rightarrow> 'd"
  AsDuration :: "'d option \<Rightarrow> duration"

record 'd pb_Topic =
  pt_Name :: string
  pt_Labels :: go_map
  pt_MessageRetentionDuration :: "'d option"

record pb_OidcToken =
  po_ServiceAccountEmail :: string
  po_Audience :: string

datatype pb_Wrapper = PubsubWrapper | NoWrapper bool

record pb_PushConfig =
  pp_PushEndpoint :: string
  pp_Attributes :: go_map
  pp_OidcToken :: "pb_OidcToken option"
  pp_Wrapper :: "pb_Wrapper option"

record pb_DeadLetterPolicy =
  pd_DeadLetterTopic :: string
  pd_MaxDeliveryAttempts :: int

record 'd pb_RetryPolicy =
  pr_MinimumBackoff :: "'d option"
  pr_MaximumBackoff :: "'d option"

record 'd pb_ExpirationPolicy =
  pe_Ttl :: "'d option"

record 'd pb_Subscription =
  pq_Name :: string
  pq_Topic :: string
  pq_AckDeadlineSeconds :: int
  pq_MessageRetentionDuration :: "'d option"
  pq_RetainAckedMessages :: bool
  pq_EnableMessageOrdering :: bool
  pq_EnableExactlyOnceDelivery :: bool
  pq_Filter :: string
  pq_Labels :: go_map
  pq_ExpirationPolicy :: "'d pb_ExpirationPolicy option"
  pq_PushConfig :: "pb_PushConfig option"
  pq_DeadLetterPolicy :: "pb_DeadLetterPolicy option"
  pq_RetryPolicy :: "'d pb_RetryPolicy option"

section \<open>Resource paths\<close>

definition projectPath :: "string \<Rightarrow> string" where
  "projectPath projectID = ''projects/'' @ projectID"

definition TopicPath :: "string \<Rightarrow> string \<Rightarrow> string" where
  "TopicPath projectID name = projectPath projectID @ ''/topics/'' @ name"

definition SubscriptionPath :: "string \<Rightarrow> string \<Rightarrow> string" where
  "SubscriptionPath projectID name = projectPath projectID @ ''/subscriptions/'' @ name"

definition shortName :: "string \<Rightarrow> string" where
  "shortName path = (case LastIndexByte path (CHR ''/'') of Some i \<Rightarrow> drop (i + 1) path | None \<Rightarrow> path)"

section \<open>Conversion\<close>

text \<open>\<open>if d > 0 { field = durationpb.New(d) }\<close>.\<close>

definition positive :: "'d durationpb \<Rightarrow> duration \<Rightarrow> 'd option" where
  "positive pb d = (if 0 < d then Some (New pb d) else None)"

definition toProtoTopic :: "'d durationpb \<Rightarrow> string \<Rightarrow> Topic \<Rightarrow> 'd pb_Topic" where
  "toProtoTopic pb projectID t =
     \<lparr>pt_Name = TopicPath projectID (t_Name t), pt_Labels = t_Labels t,
      pt_MessageRetentionDuration = positive pb (t_MessageRetention t)\<rparr>"

definition fromProtoTopic :: "'d durationpb \<Rightarrow> 'd pb_Topic \<Rightarrow> Topic" where
  "fromProtoTopic pb t =
     \<lparr>t_Name = shortName (pt_Name t), t_Labels = pt_Labels t,
      t_MessageRetention = AsDuration pb (pt_MessageRetentionDuration t)\<rparr>"

definition toProtoPushConfig :: "PushConfig \<Rightarrow> pb_PushConfig" where
  "toProtoPushConfig p =
     \<lparr>pp_PushEndpoint = p_Endpoint p, pp_Attributes = p_Attributes p,
      pp_OidcToken = map_option
        (\<lambda>t. \<lparr>po_ServiceAccountEmail = o_ServiceAccountEmail t, po_Audience = o_Audience t\<rparr>) (p_OIDCToken p),
      pp_Wrapper = (case p_Wrapper p of
          WrapperPubSub \<Rightarrow> Some PubsubWrapper
        | WrapperNone \<Rightarrow> Some (NoWrapper (p_WriteMetadata p))
        | WrapperUnset \<Rightarrow> None)\<rparr>"

definition fromProtoPushConfig :: "pb_PushConfig option \<Rightarrow> PushConfig option" where
  "fromProtoPushConfig pc =
     (case pc of
        None \<Rightarrow> None
      | Some c \<Rightarrow> Some
          \<lparr>p_Endpoint = pp_PushEndpoint c, p_Attributes = pp_Attributes c,
           p_OIDCToken = map_option
             (\<lambda>t. \<lparr>o_ServiceAccountEmail = po_ServiceAccountEmail t, o_Audience = po_Audience t\<rparr>) (pp_OidcToken c),
           p_Wrapper = (case pp_Wrapper c of
               Some (NoWrapper wm) \<Rightarrow> WrapperNone
             | Some PubsubWrapper \<Rightarrow> WrapperPubSub
             | None \<Rightarrow> WrapperUnset),
           p_WriteMetadata = (case pp_Wrapper c of Some (NoWrapper wm) \<Rightarrow> wm | _ \<Rightarrow> False)\<rparr>)"

definition toProtoSubscription :: "'d durationpb \<Rightarrow> string \<Rightarrow> Subscription \<Rightarrow> 'd pb_Subscription" where
  "toProtoSubscription pb projectID s =
     \<lparr>pq_Name = SubscriptionPath projectID (s_Name s),
      pq_Topic = TopicPath projectID (s_Topic s),
      pq_AckDeadlineSeconds =
        (if 0 < s_AckDeadline s then int32 (int (f64_trunc (Duration_Seconds (s_AckDeadline s)))) else 0),
      pq_MessageRetentionDuration = positive pb (s_MessageRetention s),
      pq_RetainAckedMessages = DerefBool (s_RetainAckedMessages s),
      pq_EnableMessageOrdering = DerefBool (s_EnableMessageOrdering s),
      pq_EnableExactlyOnceDelivery = DerefBool (s_EnableExactlyOnceDelivery s),
      pq_Filter = s_Filter s,
      pq_Labels = s_Labels s,
      pq_ExpirationPolicy =
        (if s_ExpirationSet s then Some \<lparr>pe_Ttl = positive pb (s_ExpirationTTL s)\<rparr> else None),
      pq_PushConfig = map_option toProtoPushConfig (s_Push s),
      pq_DeadLetterPolicy = map_option
        (\<lambda>d. \<lparr>pd_DeadLetterTopic = TopicPath projectID (d_Topic d),
              pd_MaxDeliveryAttempts = d_MaxDeliveryAttempts d\<rparr>) (s_DeadLetter s),
      pq_RetryPolicy = map_option
        (\<lambda>r. \<lparr>pr_MinimumBackoff = positive pb (r_MinimumBackoff r),
              pr_MaximumBackoff = positive pb (r_MaximumBackoff r)\<rparr>) (s_Retry s)\<rparr>"

definition fromProtoSubscription :: "'d durationpb \<Rightarrow> 'd pb_Subscription \<Rightarrow> Subscription" where
  "fromProtoSubscription pb s =
     \<lparr>s_Name = shortName (pq_Name s),
      s_Topic = shortName (pq_Topic s),
      s_AckDeadline = int64 (pq_AckDeadlineSeconds s * Second),
      s_MessageRetention = AsDuration pb (pq_MessageRetentionDuration s),
      s_RetainAckedMessages = Some (pq_RetainAckedMessages s),
      s_EnableMessageOrdering = Some (pq_EnableMessageOrdering s),
      s_EnableExactlyOnceDelivery = Some (pq_EnableExactlyOnceDelivery s),
      s_Filter = pq_Filter s,
      s_ExpirationSet = (pq_ExpirationPolicy s \<noteq> None),
      s_ExpirationTTL = (case pq_ExpirationPolicy s of None \<Rightarrow> 0 | Some p \<Rightarrow> AsDuration pb (pe_Ttl p)),
      s_Labels = pq_Labels s,
      s_Push = fromProtoPushConfig (pq_PushConfig s),
      s_DeadLetter = map_option
        (\<lambda>p. \<lparr>d_Topic = shortName (pd_DeadLetterTopic p),
              d_MaxDeliveryAttempts = pd_MaxDeliveryAttempts p\<rparr>) (pq_DeadLetterPolicy s),
      s_Retry = map_option
        (\<lambda>p. \<lparr>r_MinimumBackoff = AsDuration pb (pr_MinimumBackoff p),
              r_MaximumBackoff = AsDuration pb (pr_MaximumBackoff p)\<rparr>) (pq_RetryPolicy s)\<rparr>"

section \<open>The admin operations\<close>

record ('p, 'd) pubsub_api =
  api_GetTopic :: "string \<Rightarrow> 'p \<Rightarrow> (go_error + 'd pb_Topic) \<times> 'p"
  api_CreateTopic :: "'d pb_Topic \<Rightarrow> 'p \<Rightarrow> go_error option \<times> 'p"
  api_UpdateTopic :: "'d pb_Topic \<Rightarrow> string list \<Rightarrow> 'p \<Rightarrow> go_error option \<times> 'p"
  api_GetSubscription :: "string \<Rightarrow> 'p \<Rightarrow> (go_error + 'd pb_Subscription) \<times> 'p"
  api_CreateSubscription :: "'d pb_Subscription \<Rightarrow> 'p \<Rightarrow> go_error option \<times> 'p"
  api_UpdateSubscription :: "'d pb_Subscription \<Rightarrow> string list \<Rightarrow> 'p \<Rightarrow> go_error option \<times> 'p"

record ('p, 'd) PubSubClient =
  c_projectID :: string
  c_api :: "('p, 'd) pubsub_api"
  c_pb :: "'d durationpb"

definition client_GetTopic :: "('p, 'd) PubSubClient \<Rightarrow> string \<Rightarrow> 'p \<Rightarrow> (go_error + Topic) \<times> 'p" where
  "client_GetTopic c name st =
     (case api_GetTopic (c_api c) (TopicPath (c_projectID c) name) st of
        (Inl e, st') \<Rightarrow>
          (if status_Code e = CodeNotFound then (Inl ErrNotFound, st')
           else (Inl (Wrapped (''getting topic '' @ quote name @ '': '') e []), st'))
      | (Inr t, st') \<Rightarrow> (Inr (fromProtoTopic (c_pb c) t), st'))"

definition client_CreateTopic :: "('p, 'd) PubSubClient \<Rightarrow> Topic \<Rightarrow> 'p \<Rightarrow> go_error option \<times> 'p" where
  "client_CreateTopic c t st =
     (case api_CreateTopic (c_api c) (toProtoTopic (c_pb c) (c_projectID c) t) st of
        (Some e, st') \<Rightarrow>
          (if status_Code e = CodeAlreadyExists then (None, st')
           else (Some (Wrapped (''creating topic '' @ quote (t_Name t) @ '': '') e []), st'))
      | (None, st') \<Rightarrow> (None, st'))"

definition client_UpdateTopic ::
    "('p, 'd) PubSubClient \<Rightarrow> Topic \<Rightarrow> string list \<Rightarrow> 'p \<Rightarrow> go_error option \<times> 'p" where
  "client_UpdateTopic c t paths st =
     (if paths = [] then (None, st)
      else case api_UpdateTopic (c_api c) (toProtoTopic (c_pb c) (c_projectID c) t) paths st of
        (Some e, st') \<Rightarrow>
          (Some (Wrapped (''updating topic '' @ quote (t_Name t) @ '' ('' @ join '','' paths @ ''): '') e []), st')
      | (None, st') \<Rightarrow> (None, st'))"

definition client_GetSubscription ::
    "('p, 'd) PubSubClient \<Rightarrow> string \<Rightarrow> 'p \<Rightarrow> (go_error + Subscription) \<times> 'p" where
  "client_GetSubscription c name st =
     (case api_GetSubscription (c_api c) (SubscriptionPath (c_projectID c) name) st of
        (Inl e, st') \<Rightarrow>
          (if status_Code e = CodeNotFound then (Inl ErrNotFound, st')
           else (Inl (Wrapped (''getting subscription '' @ quote name @ '': '') e []), st'))
      | (Inr s, st') \<Rightarrow> (Inr (fromProtoSubscription (c_pb c) s), st'))"

definition client_CreateSubscription ::
    "('p, 'd) PubSubClient \<Rightarrow> Subscription \<Rightarrow> 'p \<Rightarrow> go_error option \<times> 'p" where
  "client_CreateSubscription c s st =
     (case api_CreateSubscription (c_api c) (toProtoSubscription (c_pb c) (c_projectID c) s) st of
        (Some e, st') \<Rightarrow>
          (if status_Code e = CodeAlreadyExists then (None, st')
           else (Some (Wrapped (''creating subscription '' @ quote (s_Name s) @ '': '') e []), st'))
      | (None, st') \<Rightarrow> (None, st'))"

definition client_UpdateSubscription ::
    "('p, 'd) PubSubClient \<Rightarrow> Subscription \<Rightarrow> string list \<Rightarrow> 'p \<Rightarrow> go_error option \<times> 'p" where
  "client_UpdateSubscription c s paths st =
     (if paths = [] then (None, st)
      else case api_UpdateSubscription (c_api c) (toProtoSubscription (c_pb c) (c_projectID c) s) paths st of
        (Some e, st') \<Rightarrow>
          (Some (Wrapped (''updating subscription '' @ quote (s_Name s) @ '' ('' @ join '','' paths @ ''): '') e []), st')
      | (None, st') \<Rightarrow> (None, st'))"

text \<open>A \<open>*PubSubClient\<close> as the interface the provisioner takes.\<close>

definition client_admin :: "('p, 'd) PubSubClient \<Rightarrow> 'p PubSubAdmin" where
  "client_admin c =
     \<lparr>GetTopic = client_GetTopic c, CreateTopic = client_CreateTopic c,
      UpdateTopic = client_UpdateTopic c, GetSubscription = client_GetSubscription c,
      CreateSubscription = client_CreateSubscription c, UpdateSubscription = client_UpdateSubscription c\<rparr>"

definition IsUnsupportedField :: "go_error \<Rightarrow> bool" where
  "IsUnsupportedField err \<longleftrightarrow>
     status_Code err = CodeInvalidArgument
     \<and> (Contains (err_Error err) ''is not a known''
        \<or> Contains (err_Error err) ''currently unsupported in the Pub/Sub Emulator'')"

section \<open>What the conversion keeps\<close>

lemma shortName_after: "CHR ''/'' \<notin> set n \<Longrightarrow> shortName (p @ CHR ''/'' # n) = n"
  by (simp add: shortName_def LastIndexByte_after)

lemma shortName_TopicPath [simp]: "CHR ''/'' \<notin> set n \<Longrightarrow> shortName (TopicPath pid n) = n"
  using shortName_after[of n "projectPath pid @ ''/topics''"] by (simp add: TopicPath_def)

lemma shortName_SubscriptionPath [simp]: "CHR ''/'' \<notin> set n \<Longrightarrow> shortName (SubscriptionPath pid n) = n"
  using shortName_after[of n "projectPath pid @ ''/subscriptions''"] by (simp add: SubscriptionPath_def)

lemma TopicPath_inject [simp]: "TopicPath pid m = TopicPath pid n \<longleftrightarrow> m = n"
  by (simp add: TopicPath_def)

lemma SubscriptionPath_inject [simp]: "SubscriptionPath pid m = SubscriptionPath pid n \<longleftrightarrow> m = n"
  by (simp add: SubscriptionPath_def)

lemma IsUnsupportedField_Wrapped: "IsUnsupportedField e \<Longrightarrow> IsUnsupportedField (Wrapped pre e post)"
  by (auto simp: IsUnsupportedField_def)

text \<open>The law of the \<open>Duration\<close> message the conversion relies on.\<close>

locale duration_message =
  fixes pb :: "'d durationpb"
  assumes AsDuration_nil: "AsDuration pb None = 0"
    and AsDuration_New: "0 < d \<Longrightarrow> d < 2 ^ 63 \<Longrightarrow> AsDuration pb (Some (New pb d)) = d"
begin

lemma AsDuration_positive: "0 \<le> d \<Longrightarrow> d < 2 ^ 63 \<Longrightarrow> AsDuration pb (positive pb d) = d"
  by (auto simp: positive_def AsDuration_nil AsDuration_New)

end

text \<open>
  What a subscription reads back as once it has been sent: the tri-state fields are concrete,
  and a wrapper other than \<open>none\<close> carries no metadata flag.
\<close>

definition echo_push :: "PushConfig \<Rightarrow> PushConfig" where
  "echo_push p = p\<lparr>p_WriteMetadata := (p_Wrapper p = WrapperNone \<and> p_WriteMetadata p)\<rparr>"

definition echo_subscription :: "Subscription \<Rightarrow> Subscription" where
  "echo_subscription s =
     s\<lparr>s_RetainAckedMessages := Some (DerefBool (s_RetainAckedMessages s)),
       s_EnableMessageOrdering := Some (DerefBool (s_EnableMessageOrdering s)),
       s_EnableExactlyOnceDelivery := Some (DerefBool (s_EnableExactlyOnceDelivery s)),
       s_ExpirationTTL := (if s_ExpirationSet s then s_ExpirationTTL s else 0),
       s_Push := map_option echo_push (s_Push s)\<rparr>"

text \<open>The durations and names of a subscription the conversion can carry.\<close>

definition duration_fits :: "duration \<Rightarrow> bool" where
  "duration_fits d \<longleftrightarrow> 0 \<le> d \<and> d < 2 ^ 63"

definition sendable :: "Subscription \<Rightarrow> bool" where
  "sendable s \<longleftrightarrow>
     CHR ''/'' \<notin> set (s_Name s) \<and> CHR ''/'' \<notin> set (s_Topic s)
     \<and> duration_fits (s_AckDeadline s) \<and> s_AckDeadline s mod Second = 0 \<and> s_AckDeadline s div Second < 2 ^ 31
     \<and> duration_fits (s_MessageRetention s) \<and> duration_fits (s_ExpirationTTL s)
     \<and> (case s_DeadLetter s of None \<Rightarrow> True | Some d \<Rightarrow> CHR ''/'' \<notin> set (d_Topic d))
     \<and> (case s_Retry s of None \<Rightarrow> True
        | Some r \<Rightarrow> duration_fits (r_MinimumBackoff r) \<and> duration_fits (r_MaximumBackoff r))"

lemma push_roundtrip: "fromProtoPushConfig (Some (toProtoPushConfig p)) = Some (echo_push p)"
  by (cases "p_Wrapper p"; cases "p_OIDCToken p")
     (simp_all add: fromProtoPushConfig_def toProtoPushConfig_def echo_push_def)

lemma ack_seconds:
  assumes "duration_fits d" "d mod Second = 0" "d div Second < 2 ^ 31"
  shows "int32 (int (f64_trunc (Duration_Seconds d))) = d div Second"
    and "int64 (d div Second * Second) = d"
proof -
  have nonneg: "0 \<le> d div Second" using assms(1) by (simp add: duration_fits_def pos_imp_zdiv_nonneg_iff)
  have "d div Second < 2 ^ 53" using assms(3) by simp
  then have "int (f64_trunc (Duration_Seconds d)) = d div Second"
    using Duration_Seconds_whole[of d] assms by (simp add: duration_fits_def)
  then show "int32 (int (f64_trunc (Duration_Seconds d))) = d div Second"
    using nonneg assms(3) by (simp add: int32_id)
  have "d div Second * Second = d" using assms(2) by (simp add: mult.commute minus_mod_eq_mult_div[symmetric])
  then show "int64 (d div Second * Second) = d" using assms(1) by (simp add: int64_id duration_fits_def)
qed

context duration_message
begin

lemma topic_roundtrip:
  assumes "CHR ''/'' \<notin> set (t_Name t)" "duration_fits (t_MessageRetention t)"
  shows "fromProtoTopic pb (toProtoTopic pb pid t) = t"
  using assms by (simp add: fromProtoTopic_def toProtoTopic_def duration_fits_def AsDuration_positive)

lemma subscription_roundtrip:
  assumes "sendable s"
  shows "fromProtoSubscription pb (toProtoSubscription pb pid s) = echo_subscription s"
proof -
  have fits: "duration_fits d \<Longrightarrow> AsDuration pb (positive pb d) = d" for d
    by (simp add: duration_fits_def AsDuration_positive)
  have ack: "int64 ((if 0 < s_AckDeadline s then int32 (int (f64_trunc (Duration_Seconds (s_AckDeadline s)))) else 0) * Second)
      = s_AckDeadline s"
    using assms ack_seconds[of "s_AckDeadline s"] by (auto simp: sendable_def duration_fits_def int64_def)
  have push: "fromProtoPushConfig (map_option toProtoPushConfig (s_Push s)) = map_option echo_push (s_Push s)"
    using push_roundtrip by (cases "s_Push s") (simp_all add: fromProtoPushConfig_def)
  show ?thesis
    using assms ack push fits
    by (cases "s_DeadLetter s"; cases "s_Retry s")
       (simp_all add: fromProtoSubscription_def toProtoSubscription_def echo_subscription_def sendable_def)
qed

end

end
