(* ===== verification/Apply_Paths.thy ===== *)
theory Apply_Paths
  imports PubSub_Client
begin

text \<open>
  \<open>internal/provisioner/update.go\<close>: an update mask is sent in one call and, if the endpoint
  refuses one of its paths, path by path. The locale \<open>mask_endpoint\<close> is the contract of an
  endpoint this relies on: a mask is applied when every path of it is supported and refused
  as a whole, with an error \<open>IsUnsupportedField\<close> recognises, when one is not.
\<close>

definition apply_one ::
    "(string list \<Rightarrow> 'w \<Rightarrow> go_error option \<times> 'w) \<Rightarrow> (string \<Rightarrow> go_error \<Rightarrow> 'w \<Rightarrow> 'w)
     \<Rightarrow> string \<Rightarrow> 'w \<Rightarrow> go_error option \<times> 'w" where
  "apply_one update onUnsupported path w =
     (case update [path] w of
        (None, w') \<Rightarrow> (None, w')
      | (Some err, w') \<Rightarrow>
          if IsUnsupportedField err then (None, onUnsupported path err w') else (Some err, w'))"

definition applyPaths ::
    "string list \<Rightarrow> (string list \<Rightarrow> 'w \<Rightarrow> go_error option \<times> 'w) \<Rightarrow> (string \<Rightarrow> go_error \<Rightarrow> 'w \<Rightarrow> 'w)
     \<Rightarrow> 'w \<Rightarrow> go_error option \<times> 'w" where
  "applyPaths paths update onUnsupported w =
     (case update paths w of
        (None, w') \<Rightarrow> (None, w')
      | (Some err, w') \<Rightarrow>
          if \<not> IsUnsupportedField err then (Some err, w')
          else if length paths = 1 then (None, onUnsupported (paths ! 0) err w')
          else for_each (apply_one update onUnsupported) paths w')"

text \<open>Whatever the update and the callback keep, \<open>applyPaths\<close> keeps.\<close>

lemma apply_one_invariant:
  assumes "apply_one update onU path w = (r, w')" "I w"
    and "\<And>msk v r v'. I v \<Longrightarrow> update msk v = (r, v') \<Longrightarrow> I v'"
    and "\<And>p e v. I v \<Longrightarrow> I (onU p e v)"
  shows "I w'"
  using assms by (auto simp: apply_one_def split: prod.splits option.splits if_splits)

lemma applyPaths_invariant:
  assumes run: "applyPaths paths update onU w = (r, w')" "I w"
    and keeps: "\<And>msk v r v'. I v \<Longrightarrow> update msk v = (r, v') \<Longrightarrow> I v'"
      "\<And>p e v. I v \<Longrightarrow> I (onU p e v)"
  shows "I w'"
proof -
  obtain r1 w1 where u: "update paths w = (r1, w1)" by (cases "update paths w")
  have w1: "I w1" using keeps(1)[OF run(2) u] .
  have "I w'" if "for_each (apply_one update onU) paths w1 = (r, w')"
    using that w1 by (rule for_each_invariant) (auto intro: apply_one_invariant keeps)
  then show ?thesis using run(1) u w1 keeps(2)
    by (auto simp: applyPaths_def split: option.splits if_splits)
qed

text \<open>A mask the endpoint supports no path of is refused, in one call or path by path.\<close>

definition hopeless :: "(string \<Rightarrow> bool) \<Rightarrow> string list \<Rightarrow> bool" where
  "hopeless can msk \<longleftrightarrow> msk \<noteq> [] \<and> list_all (\<lambda>p. \<not> can p) msk"

lemma applyPaths_hopeless:
  assumes run: "applyPaths paths update onU w = (r, w')" and "I w" and paths: "hopeless can paths"
    and refuses: "\<And>msk v r v'. I v \<Longrightarrow> hopeless can msk \<Longrightarrow> update msk v = (r, v') \<Longrightarrow>
      I v' \<and> (\<exists>e. r = Some e \<and> IsUnsupportedField e)"
    and warn: "\<And>p e v. I v \<Longrightarrow> I (onU p e v)"
  shows "r = None \<and> I w'"
proof -
  obtain r1 w1 where u: "update paths w = (r1, w1)" by (cases "update paths w")
  from refuses[OF \<open>I w\<close> paths u] obtain e where e: "r1 = Some e" "IsUnsupportedField e" and w1: "I w1" by blast
  have one: "\<exists>v'. apply_one update onU p v = (None, v') \<and> I v'" if "p \<in> set paths" "I v" for p v
  proof -
    have "hopeless can [p]" using paths that(1) by (simp add: hopeless_def list_all_iff)
    moreover obtain r2 v2 where "update [p] v = (r2, v2)" by (cases "update [p] v")
    ultimately show ?thesis using refuses[OF that(2)] warn by (fastforce simp: apply_one_def)
  qed
  have "\<exists>v. for_each (apply_one update onU) paths w1 = (None, v) \<and> I v"
    using w1 one by (rule for_each_ok)
  then show ?thesis using run u e w1 warn by (auto simp: applyPaths_def split: if_splits)
qed

locale mask_endpoint =
  fixes update :: "string list \<Rightarrow> 'w \<Rightarrow> go_error option \<times> 'w"
    and onUnsupported :: "string \<Rightarrow> go_error \<Rightarrow> 'w \<Rightarrow> 'w"
    and ready :: "'w \<Rightarrow> bool"
    and supported :: "'w \<Rightarrow> string \<Rightarrow> bool"
    and resource :: "'w \<Rightarrow> 'v"
    and put :: "string \<Rightarrow> 'v \<Rightarrow> 'v"
    and warned :: "'w \<Rightarrow> string list"
  assumes accepts: "\<lbrakk>ready w; msk \<noteq> []; list_all (supported w) msk; update msk w = (r, w')\<rbrakk> \<Longrightarrow>
      r = None \<and> resource w' = fold put msk (resource w)"
    and refuses: "\<lbrakk>ready w; \<not> list_all (supported w) msk; update msk w = (r, w')\<rbrakk> \<Longrightarrow>
      (\<exists>e. r = Some e \<and> IsUnsupportedField e) \<and> resource w' = resource w"
    and update_frame: "\<lbrakk>ready w; update msk w = (r, w')\<rbrakk> \<Longrightarrow>
      ready w' \<and> supported w' = supported w \<and> warned w' = warned w"
    and warn_frame: "ready w \<Longrightarrow> ready (onUnsupported p e w) \<and> supported (onUnsupported p e w) = supported w
      \<and> resource (onUnsupported p e w) = resource w"
    and warn_log: "ready w \<Longrightarrow> warned (onUnsupported p e w) = warned w @ [p]"
begin

lemma apply_one_effect:
  assumes "ready w" "apply_one update onUnsupported p w = (r, w')"
  shows "r = None \<and> ready w' \<and> supported w' = supported w
    \<and> resource w' = (if supported w p then put p (resource w) else resource w)
    \<and> warned w' = warned w @ (if supported w p then [] else [p])"
proof -
  obtain r1 w1 where u: "update [p] w = (r1, w1)" by (cases "update [p] w")
  note frame = update_frame[OF assms(1) u]
  show ?thesis
  proof (cases "supported w p")
    case True
    with accepts[OF assms(1) _ _ u] have "r1 = None" "resource w1 = put p (resource w)" by auto
    with True frame u assms(2) show ?thesis by (auto simp: apply_one_def)
  next
    case False
    with refuses[OF assms(1) _ u] obtain e
      where "r1 = Some e" "IsUnsupportedField e" "resource w1 = resource w" by auto
    with False frame u assms(2) warn_frame[of w1] warn_log[of w1] show ?thesis
      by (auto simp: apply_one_def)
  qed
qed

lemma split_effect:
  assumes "ready w" "for_each (apply_one update onUnsupported) paths w = (r, w')"
  shows "r = None \<and> ready w' \<and> supported w' = supported w
    \<and> resource w' = fold put (filter (supported w) paths) (resource w)
    \<and> warned w' = warned w @ filter (\<lambda>p. \<not> supported w p) paths"
  using assms
proof (induction paths arbitrary: w)
  case Nil
  then show ?case by simp
next
  case (Cons p ps)
  obtain r1 w1 where one: "apply_one update onUnsupported p w = (r1, w1)"
    by (cases "apply_one update onUnsupported p w")
  note eff = apply_one_effect[OF Cons.prems(1) one]
  with Cons.prems(2) one have "for_each (apply_one update onUnsupported) ps w1 = (r, w')" by auto
  with Cons.IH[of w1] eff show ?case by (auto split: if_splits)
qed

lemma applyPaths_supported:
  assumes "ready w" "applyPaths paths update onUnsupported w = (r, w')"
  shows "supported w' = supported w"
proof -
  have "ready w' \<and> supported w' = supported w"
    using assms(2) by (rule applyPaths_invariant) (use assms(1) update_frame warn_frame in auto)
  then show ?thesis ..
qed

lemma applyPaths_effect:
  assumes "ready w" "paths \<noteq> []" "applyPaths paths update onUnsupported w = (r, w')"
  shows "r = None \<and> ready w'
    \<and> resource w' = fold put (filter (supported w) paths) (resource w)
    \<and> warned w' = warned w @ filter (\<lambda>p. \<not> supported w p) paths"
proof -
  obtain r1 w1 where u: "update paths w = (r1, w1)" by (cases "update paths w")
  note frame = update_frame[OF assms(1) u]
  show ?thesis
  proof (cases "list_all (supported w) paths")
    case True
    with accepts[OF assms(1,2) _ u] have "r1 = None" "resource w1 = fold put paths (resource w)" by auto
    moreover have "filter (supported w) paths = paths" "filter (\<lambda>p. \<not> supported w p) paths = []"
      using True by (auto simp: list_all_iff filter_empty_conv)
    ultimately show ?thesis using frame u assms(3) by (auto simp: applyPaths_def)
  next
    case False
    with refuses[OF assms(1) _ u] obtain e
      where e: "r1 = Some e" "IsUnsupportedField e" "resource w1 = resource w" by auto
    show ?thesis
    proof (cases "length paths = 1")
      case True
      then obtain p where "paths = [p]" by (auto simp: length_Suc_conv)
      with False e frame u assms(3) warn_frame[of w1] warn_log[of w1] show ?thesis
        by (auto simp: applyPaths_def)
    next
      case ne: False
      then have "for_each (apply_one update onUnsupported) paths w1 = (r, w')"
        using e u assms(3) by (simp add: applyPaths_def)
      with split_effect[of w1 paths r w'] frame e show ?thesis by auto
    qed
  qed
qed

end

text \<open>
  An endpoint on which a diff decides the mask: \<open>differs p\<close> says that path \<open>p\<close> of a
  resource is not as wanted, and putting a path settles that path and no other.
\<close>

locale reconciled_endpoint = mask_endpoint +
  fixes differs :: "string \<Rightarrow> 'b \<Rightarrow> bool"
  assumes put_settles: "ready w \<Longrightarrow> \<not> differs p (put p v)"
    and put_keeps: "ready w \<Longrightarrow> p \<noteq> q \<Longrightarrow> differs q (put p v) = differs q v"
begin

lemma differs_fold_put: "ready w \<Longrightarrow> differs q (fold put ps v) \<longleftrightarrow> differs q v \<and> q \<notin> set ps"
proof (induction ps arbitrary: v)
  case (Cons p ps)
  then show ?case using put_settles[of w p v] put_keeps[of w p q v] by (cases "q = p") auto
qed simp

lemma reconcile_effect:
  assumes "ready w" and paths: "paths = filter (\<lambda>p. differs p (resource w)) fs" and "paths \<noteq> []"
    and run: "applyPaths paths update onUnsupported w = (r, w')"
  shows "r = None \<and> ready w'
    \<and> filter (\<lambda>p. differs p (resource w')) fs = filter (\<lambda>p. \<not> supported w p) paths
    \<and> warned w' = warned w @ filter (\<lambda>p. \<not> supported w p) paths"
proof -
  note eff = applyPaths_effect[OF assms(1,3) run]
  have "differs p (resource w') \<longleftrightarrow> differs p (resource w) \<and> \<not> supported w p" if "p \<in> set fs" for p
    using eff that by (auto simp: differs_fold_put[OF assms(1)] paths)
  then show ?thesis using eff by (auto simp: paths intro!: filter_cong)
qed

end

end
