(* ===== verification/Config_Model.thy ===== *)
theory Config_Model
  imports Go_Time
begin

text \<open>
  \<open>internal/config/config.go\<close>, first half: the configuration structs, the strategy
  resolution and the expansion of \<open>${VAR}\<close> references. A pointer field is an
  \<^typ>\<open>'a option\<close>, so an omitted key stays apart from an explicit zero value. The process
  environment is a map from names to values, as \<open>os.LookupEnv\<close> reads it.
\<close>

section \<open>The configuration structs\<close>

record Credential =
  cr_Path :: string
  cr_Strategy :: string
  cr_Account :: string
  cr_TokenURI :: string

record PushOIDCToken =
  oc_ServiceAccountEmail :: string
  oc_Audience :: string

record DeadLetter =
  dc_Topic :: string
  dc_MaxDeliveryAttempts :: int

record Retry =
  rc_MinimumBackoff :: string
  rc_MaximumBackoff :: string

record SubscriptionCfg =
  sc_Name :: string
  sc_Strategy :: string
  sc_AckDeadline :: string
  sc_MessageRetention :: string
  sc_RetainAckedMessages :: "bool option"
  sc_EnableMessageOrdering :: "bool option"
  sc_EnableExactlyOnceDelivery :: "bool option"
  sc_Filter :: string
  sc_ExpirationTTL :: string
  sc_Labels :: go_map
  sc_PushEndpoint :: string
  sc_PushAttributes :: go_map
  sc_PushOIDCToken :: "PushOIDCToken option"
  sc_PushWrapper :: string
  sc_PushWriteMetadata :: bool
  sc_DeadLetter :: "DeadLetter option"
  sc_Retry :: "Retry option"

record TopicCfg =
  tc_Name :: string
  tc_Strategy :: string
  tc_Labels :: go_map
  tc_MessageRetention :: string
  tc_Subscriptions :: "SubscriptionCfg list"

record BucketCfg =
  bc_Name :: string
  bc_Strategy :: string
  bc_Versioning :: "bool option"
  bc_Location :: string
  bc_StorageClass :: string

record PubSub =
  ps_Topics :: "TopicCfg list"

record Storage =
  st_Buckets :: "BucketCfg list"

record Config =
  cfg_Strategy :: string
  cfg_ProjectID :: string
  cfg_PubSub :: PubSub
  cfg_Storage :: Storage
  cfg_Credentials :: "Credential list"

definition PushWrapperPubSub :: string where "PushWrapperPubSub = ''pubsub''"
definition PushWrapperNone :: string where "PushWrapperNone = ''none''"
definition ExpirationNever :: string where "ExpirationNever = ''never''"

section \<open>Strategies\<close>

definition validStrategies :: "string set" where
  "validStrategies = {'''', ''create'', ''update''}"

fun EffectiveStrategy :: "string list \<Rightarrow> string" where
  "EffectiveStrategy [] = ''update''"
| "EffectiveStrategy (s # ss) = (if s \<noteq> '''' then s else EffectiveStrategy ss)"

definition EffectiveCredentialStrategy :: "string \<Rightarrow> string" where
  "EffectiveCredentialStrategy strategy = (if strategy = '''' then ''create'' else strategy)"

section \<open>Environment references\<close>

type_synonym environ = "string \<Rightarrow> string option"

text \<open>
  A match of \<open>\\$\{([^\}]+)\}\<close> at the start of the input: the variable's name and what follows
  the match. The class \<open>[^\}]\<close> takes every byte but the closing brace, so the first brace
  after the opening one ends the match.
\<close>

fun match_env_ref :: "string \<Rightarrow> (string \<times> string) option" where
  "match_env_ref (c # d # s) =
     (if c = CHR ''$'' \<and> d = CHR ''{''
      then let v = takeWhile (\<lambda>x. x \<noteq> CHR ''}'') s; r = dropWhile (\<lambda>x. x \<noteq> CHR ''}'') s
           in if v \<noteq> [] \<and> r \<noteq> [] then Some (v, tl r) else None
      else None)"
| "match_env_ref _ = None"

lemma match_env_refI:
  assumes "v \<noteq> []" "CHR ''}'' \<notin> set v"
  shows "match_env_ref (''${'' @ v @ ''}'' @ r) = Some (v, r)"
proof -
  have "takeWhile (\<lambda>x. x \<noteq> CHR ''}'') (v @ CHR ''}'' # r) = v"
    and "dropWhile (\<lambda>x. x \<noteq> CHR ''}'') (v @ CHR ''}'' # r) = CHR ''}'' # r"
    using assms(2) by (simp_all add: takeWhile_append dropWhile_append)
  then show ?thesis using assms(1) by simp
qed

lemma match_env_refD:
  assumes "match_env_ref s = Some (v, r)"
  shows "s = ''${'' @ v @ ''}'' @ r" "v \<noteq> []" "CHR ''}'' \<notin> set v"
proof -
  from assms obtain t where s: "s = CHR ''$'' # CHR ''{'' # t"
    and v: "v = takeWhile (\<lambda>x. x \<noteq> CHR ''}'') t" "v \<noteq> []"
    and r: "dropWhile (\<lambda>x. x \<noteq> CHR ''}'') t \<noteq> []" "r = tl (dropWhile (\<lambda>x. x \<noteq> CHR ''}'') t)"
    by (cases s rule: match_env_ref.cases) (auto simp: Let_def split: if_splits)
  have "hd (dropWhile (\<lambda>x. x \<noteq> CHR ''}'') t) = CHR ''}''"
    using hd_dropWhile[OF r(1)] by simp
  then have "dropWhile (\<lambda>x. x \<noteq> CHR ''}'') t = CHR ''}'' # r"
    using r by (metis list.collapse)
  then have "t = v @ CHR ''}'' # r" by (metis takeWhile_dropWhile_id v(1))
  then show "s = ''${'' @ v @ ''}'' @ r" using s by simp
  show "v \<noteq> []" by (rule v(2))
  show "CHR ''}'' \<notin> set v" using v(1) by (auto dest: set_takeWhileD)
qed

lemma match_env_ref_shorter: "match_env_ref s = Some (v, r) \<Longrightarrow> length r < length s"
  by (auto dest: match_env_refD(1))

function expandEnvVars :: "environ \<Rightarrow> string \<Rightarrow> string" where
  "expandEnvVars env [] = []"
| "expandEnvVars env (c # s) =
     (case match_env_ref (c # s) of
        Some (v, r) \<Rightarrow>
          (case env v of Some val \<Rightarrow> val | None \<Rightarrow> ''${'' @ v @ ''}'') @ expandEnvVars env r
      | None \<Rightarrow> c # expandEnvVars env s)"
  by pat_completeness auto
termination
  by (relation "measure (\<lambda>(env, s). length s)") (auto dest: match_env_ref_shorter)

definition expandMap :: "environ \<Rightarrow> go_map \<Rightarrow> go_map" where
  "expandMap env m =
     fold (\<lambda>(k, v) out. AList.update (expandEnvVars env k) (expandEnvVars env v) out) m []"

definition expandSubscription :: "environ \<Rightarrow> SubscriptionCfg \<Rightarrow> SubscriptionCfg" where
  "expandSubscription env s =
     (let ex = expandEnvVars env in
      s\<lparr>sc_Name := ex (sc_Name s),
        sc_Strategy := ex (sc_Strategy s),
        sc_AckDeadline := ex (sc_AckDeadline s),
        sc_MessageRetention := ex (sc_MessageRetention s),
        sc_Filter := ex (sc_Filter s),
        sc_ExpirationTTL := ex (sc_ExpirationTTL s),
        sc_PushEndpoint := ex (sc_PushEndpoint s),
        sc_PushWrapper := ex (sc_PushWrapper s),
        sc_Labels := expandMap env (sc_Labels s),
        sc_PushAttributes := expandMap env (sc_PushAttributes s),
        sc_PushOIDCToken := map_option
          (\<lambda>t. t\<lparr>oc_ServiceAccountEmail := ex (oc_ServiceAccountEmail t),
                oc_Audience := ex (oc_Audience t)\<rparr>) (sc_PushOIDCToken s),
        sc_DeadLetter := map_option
          (\<lambda>d. d\<lparr>dc_Topic := ex (dc_Topic d)\<rparr>) (sc_DeadLetter s),
        sc_Retry := map_option
          (\<lambda>r. r\<lparr>rc_MinimumBackoff := ex (rc_MinimumBackoff r),
                rc_MaximumBackoff := ex (rc_MaximumBackoff r)\<rparr>) (sc_Retry s)\<rparr>)"

definition expandTopic :: "environ \<Rightarrow> TopicCfg \<Rightarrow> TopicCfg" where
  "expandTopic env t =
     t\<lparr>tc_Name := expandEnvVars env (tc_Name t),
       tc_Strategy := expandEnvVars env (tc_Strategy t),
       tc_MessageRetention := expandEnvVars env (tc_MessageRetention t),
       tc_Labels := expandMap env (tc_Labels t),
       tc_Subscriptions := map (expandSubscription env) (tc_Subscriptions t)\<rparr>"

definition expandCredential :: "environ \<Rightarrow> Credential \<Rightarrow> Credential" where
  "expandCredential env c =
     c\<lparr>cr_Path := expandEnvVars env (cr_Path c),
       cr_Strategy := expandEnvVars env (cr_Strategy c),
       cr_Account := expandEnvVars env (cr_Account c),
       cr_TokenURI := expandEnvVars env (cr_TokenURI c)\<rparr>"

definition expandBucket :: "environ \<Rightarrow> BucketCfg \<Rightarrow> BucketCfg" where
  "expandBucket env b =
     b\<lparr>bc_Name := expandEnvVars env (bc_Name b),
       bc_Strategy := expandEnvVars env (bc_Strategy b),
       bc_Location := expandEnvVars env (bc_Location b),
       bc_StorageClass := expandEnvVars env (bc_StorageClass b)\<rparr>"

definition expandConfig :: "environ \<Rightarrow> Config \<Rightarrow> Config" where
  "expandConfig env cfg =
     cfg\<lparr>cfg_Strategy := expandEnvVars env (cfg_Strategy cfg),
         cfg_ProjectID := expandEnvVars env (cfg_ProjectID cfg),
         cfg_PubSub := (cfg_PubSub cfg)\<lparr>ps_Topics := map (expandTopic env) (ps_Topics (cfg_PubSub cfg))\<rparr>,
         cfg_Credentials := map (expandCredential env) (cfg_Credentials cfg),
         cfg_Storage := (cfg_Storage cfg)\<lparr>st_Buckets := map (expandBucket env) (st_Buckets (cfg_Storage cfg))\<rparr>\<rparr>"

section \<open>What the expansion does\<close>

text \<open>Every string field of every struct, in declaration order, map fields aside.\<close>

definition subscription_strings :: "SubscriptionCfg \<Rightarrow> string list" where
  "subscription_strings s =
     [sc_Name s, sc_Strategy s, sc_AckDeadline s, sc_MessageRetention s, sc_Filter s,
      sc_ExpirationTTL s, sc_PushEndpoint s]
     @ (case sc_PushOIDCToken s of None \<Rightarrow> [] | Some t \<Rightarrow> [oc_ServiceAccountEmail t, oc_Audience t])
     @ [sc_PushWrapper s]
     @ (case sc_DeadLetter s of None \<Rightarrow> [] | Some d \<Rightarrow> [dc_Topic d])
     @ (case sc_Retry s of None \<Rightarrow> [] | Some r \<Rightarrow> [rc_MinimumBackoff r, rc_MaximumBackoff r])"

definition topic_strings :: "TopicCfg \<Rightarrow> string list" where
  "topic_strings t =
     [tc_Name t, tc_Strategy t, tc_MessageRetention t]
     @ concat (map subscription_strings (tc_Subscriptions t))"

definition config_strings :: "Config \<Rightarrow> string list" where
  "config_strings c =
     [cfg_Strategy c, cfg_ProjectID c]
     @ concat (map topic_strings (ps_Topics (cfg_PubSub c)))
     @ concat (map (\<lambda>b. [bc_Name b, bc_Strategy b, bc_Location b, bc_StorageClass b])
                   (st_Buckets (cfg_Storage c)))
     @ concat (map (\<lambda>k. [cr_Path k, cr_Strategy k, cr_Account k, cr_TokenURI k]) (cfg_Credentials c))"

definition config_maps :: "Config \<Rightarrow> go_map list" where
  "config_maps c =
     concat (map (\<lambda>t. tc_Labels t # concat (map (\<lambda>s. [sc_Labels s, sc_PushAttributes s]) (tc_Subscriptions t)))
                 (ps_Topics (cfg_PubSub c)))"

lemma expandSubscription_strings:
  "subscription_strings (expandSubscription env s) = map (expandEnvVars env) (subscription_strings s)"
  by (simp add: subscription_strings_def expandSubscription_def Let_def split: option.splits)

lemma expandTopic_strings:
  "topic_strings (expandTopic env t) = map (expandEnvVars env) (topic_strings t)"
  by (simp add: topic_strings_def expandTopic_def expandSubscription_strings map_concat o_def)

lemma expandConfig_maps: "config_maps (expandConfig env c) = map (expandMap env) (config_maps c)"
  by (simp add: config_maps_def expandConfig_def expandTopic_def expandSubscription_def Let_def
      map_concat o_def)

lemma expandConfig_strings:
  "config_strings (expandConfig env c) = map (expandEnvVars env) (config_strings c)"
  by (simp add: config_strings_def expandConfig_def expandTopic_strings map_concat o_def
      expandBucket_def expandCredential_def)

lemma wf_expandMap: "wf_map (expandMap env m)"
proof -
  have "wf_map acc \<Longrightarrow> wf_map (fold (\<lambda>(k, v) out. AList.update (expandEnvVars env k) (expandEnvVars env v) out) m acc)" for acc
    by (induction m arbitrary: acc) (auto simp: wf_map_update)
  then show ?thesis by (simp add: expandMap_def)
qed

lemma map_of_expandMap:
  "map_of (expandMap env m) =
     map_of (rev (map (\<lambda>(k, v). (expandEnvVars env k, expandEnvVars env v)) m))"
proof -
  have "fold (\<lambda>(k, v) out. AList.update (expandEnvVars env k) (expandEnvVars env v) out) m acc
      = fold (\<lambda>(k, v) out. AList.update k v out)
             (map (\<lambda>(k, v). (expandEnvVars env k, expandEnvVars env v)) m) acc" for acc
    by (induction m arbitrary: acc) auto
  then show ?thesis by (simp add: expandMap_def map_of_fold_update)
qed

section \<open>What the strategies resolve to\<close>

lemma EffectiveStrategy_pair:
  "EffectiveStrategy [s, g] = (if s \<noteq> [] then s else if g \<noteq> [] then g else ''update'')"
  by simp

lemma EffectiveStrategy_valid:
  "\<forall>s \<in> set ss. s \<in> validStrategies \<Longrightarrow> EffectiveStrategy ss \<in> {''create'', ''update''}"
  by (induction ss) (auto simp: validStrategies_def)

declare EffectiveStrategy.simps [simp del]

end
