(* ===== verification/Config_Validate.thy ===== *)
theory Config_Validate
  imports Config_Model
begin

text \<open>
  \<open>internal/config/config.go\<close>, second half: durations and validation. Each validator
  returns the first problem in the order the code checks for it, as a \<open>cfg_error\<close> that
  carries the path of the offending key, or \<^const>\<open>None\<close>. \<open>net/url.Parse\<close> enters as
  the parameter \<open>url_parse\<close> of type \<open>url_parser\<close>: \<^const>\<open>None\<close> for an error, otherwise the scheme and host
  the program looks at.
\<close>

section \<open>Durations\<close>

definition ParseDuration :: "string \<Rightarrow> duration option" where
  "ParseDuration s =
     (if s = [] then Some 0
      else case (if HasSuffix s ''d'' then Atoi (TrimSuffix s ''d'') else None) of
             Some days \<Rightarrow> Some (int64 (int64 (days * 24) * Hour))
           | None \<Rightarrow> time_ParseDuration s)"

definition minAckDeadline :: duration where "minAckDeadline = 10 * Second"
definition maxAckDeadline :: duration where "maxAckDeadline = 600 * Second"
definition minMessageRetention :: duration where "minMessageRetention = 10 * Minute"
definition maxMessageRetention :: duration where "maxMessageRetention = 31 * 24 * Hour"
definition maxRetryBackoff :: duration where "maxRetryBackoff = 600 * Second"
definition minExpirationTTL :: duration where "minExpirationTTL = 24 * Hour"
definition maxExpirationTTL :: duration where "maxExpirationTTL = 365 * 24 * Hour"

lemmas limit_defs =
  minAckDeadline_def maxAckDeadline_def minMessageRetention_def maxMessageRetention_def
  maxRetryBackoff_def minExpirationTTL_def maxExpirationTTL_def

section \<open>Errors and patterns\<close>

datatype cfg_error =
    InvalidStrategy string string
  | InvalidProjectID string
  | Required string
  | NullByte string
  | LabelNullByte string string
  | InvalidName string string
  | GoogPrefix string string
  | DuplicateName string string
  | InvalidDuration string string
  | NegativeDuration string string
  | OutOfRange string string string
  | NotWholeSeconds string string
  | RequiresPushEndpoint string
  | InvalidPushWrapper string string
  | RequiresPushWrapperNone string
  | AttemptsOutOfRange string int
  | BackoffOrder string string string
  | UndeclaredDeadLetter string string
  | InvalidStorageClass string string
  | InvalidAccount string string
  | InvalidURL string string
  | NotAbsoluteURL string string

definition containsNullByte :: "string \<Rightarrow> bool" where
  "containsNullByte s \<longleftrightarrow> CHR 0x00 \<in> set s"

definition between :: "char \<Rightarrow> char \<Rightarrow> char \<Rightarrow> bool" where
  "between lo hi c \<longleftrightarrow> (of_char lo :: nat) \<le> of_char c \<and> (of_char c :: nat) \<le> of_char hi"

definition lower_alpha :: "char \<Rightarrow> bool" where
  "lower_alpha c \<longleftrightarrow> between (CHR ''a'') (CHR ''z'') c"

definition alpha :: "char \<Rightarrow> bool" where
  "alpha c \<longleftrightarrow> between (CHR ''A'') (CHR ''Z'') c \<or> lower_alpha c"

definition lower_alnum :: "char \<Rightarrow> bool" where
  "lower_alnum c \<longleftrightarrow> lower_alpha c \<or> is_digit c"

definition lower_alnum_hyphen :: "char \<Rightarrow> bool" where
  "lower_alnum_hyphen c \<longleftrightarrow> lower_alnum c \<or> c = CHR ''-''"

definition resource_char :: "char \<Rightarrow> bool" where
  "resource_char c \<longleftrightarrow> alpha c \<or> is_digit c \<or> c \<in> set ''-_.~+%''"

text \<open>\<open>^[A-Za-z][A-Za-z0-9\-_.~+%]{2,254}$\<close>\<close>

fun resourceNamePattern :: "string \<Rightarrow> bool" where
  "resourceNamePattern [] = False"
| "resourceNamePattern (c # s) \<longleftrightarrow>
     alpha c \<and> list_all resource_char s \<and> 2 \<le> length s \<and> length s \<le> 254"

text \<open>\<open>^[a-z0-9][a-z0-9-]{1,61}[a-z0-9]$\<close>\<close>

fun bucketNamePattern :: "string \<Rightarrow> bool" where
  "bucketNamePattern [] = False"
| "bucketNamePattern (c # s) \<longleftrightarrow>
     lower_alnum c \<and> s \<noteq> [] \<and> lower_alnum (last s) \<and> list_all lower_alnum_hyphen (butlast s)
     \<and> 1 \<le> length (butlast s) \<and> length (butlast s) \<le> 61"

text \<open>\<open>^[a-z][a-z0-9-]{4,28}[a-z0-9]$\<close>\<close>

fun projectIDPattern :: "string \<Rightarrow> bool" where
  "projectIDPattern [] = False"
| "projectIDPattern (c # s) \<longleftrightarrow>
     lower_alpha c \<and> s \<noteq> [] \<and> lower_alnum (last s) \<and> list_all lower_alnum_hyphen (butlast s)
     \<and> 4 \<le> length (butlast s) \<and> length (butlast s) \<le> 28"

fun accountPattern :: "string \<Rightarrow> bool" where
  "accountPattern [] = False"
| "accountPattern (c # s) \<longleftrightarrow>
     lower_alpha c \<and> s \<noteq> [] \<and> lower_alnum (last s) \<and> list_all lower_alnum_hyphen (butlast s)
     \<and> 4 \<le> length (butlast s) \<and> length (butlast s) \<le> 28"

definition validPushWrappers :: "string set" where
  "validPushWrappers = {[], PushWrapperPubSub, PushWrapperNone}"

definition validStorageClasses :: "string set" where
  "validStorageClasses =
     {[], ''STANDARD'', ''NEARLINE'', ''COLDLINE'', ''ARCHIVE'', ''MULTI_REGIONAL'',
      ''REGIONAL'', ''DURABLE_REDUCED_AVAILABILITY''}"

section \<open>Field validators\<close>

definition validateStrategy :: "string \<Rightarrow> string \<Rightarrow> cfg_error option" where
  "validateStrategy path value = fail_if (value \<notin> validStrategies) (InvalidStrategy path value)"

definition validateDuration :: "string \<Rightarrow> string \<Rightarrow> cfg_error option" where
  "validateDuration path value =
     (if value = [] then None
      else if containsNullByte value then Some (NullByte path)
      else case ParseDuration value of
             None \<Rightarrow> Some (InvalidDuration path value)
           | Some d \<Rightarrow> fail_if (d < 0) (NegativeDuration path value))"

definition validateDurationRange ::
    "string \<Rightarrow> string \<Rightarrow> duration \<Rightarrow> duration \<Rightarrow> string \<Rightarrow> cfg_error option" where
  "validateDurationRange path value lo hi bounds =
     first_error
       [validateDuration path value,
        (if value = [] then None
         else case ParseDuration value of
                None \<Rightarrow> Some (InvalidDuration path value)
              | Some d \<Rightarrow> fail_if (d < lo \<or> d > hi) (OutOfRange path value bounds))]"

definition validateLabels :: "string \<Rightarrow> go_map \<Rightarrow> cfg_error option" where
  "validateLabels path labels =
     first_error (map (\<lambda>(k, v). fail_if (containsNullByte k \<or> containsNullByte v) (LabelNullByte path k)) labels)"

definition validateAckDeadline :: "string \<Rightarrow> string \<Rightarrow> cfg_error option" where
  "validateAckDeadline subPrefix value =
     (let path = subPrefix @ ''.ack_deadline'' in
      first_error
        [validateDurationRange path value minAckDeadline maxAckDeadline ''10s-600s'',
         (if value = [] then None
          else case ParseDuration value of
                 None \<Rightarrow> Some (InvalidDuration path value)
               | Some d \<Rightarrow> fail_if (d mod Second \<noteq> 0) (NotWholeSeconds path value))])"

definition validatePush :: "string \<Rightarrow> SubscriptionCfg \<Rightarrow> cfg_error option" where
  "validatePush subPrefix s =
     first_error
       [fail_if (containsNullByte (sc_PushWrapper s)) (NullByte (subPrefix @ ''.push_wrapper'')),
        fail_if (sc_PushWrapper s \<notin> validPushWrappers)
          (InvalidPushWrapper (subPrefix @ ''.push_wrapper'') (sc_PushWrapper s)),
        fail_if (sc_PushEndpoint s = [] \<and> sc_PushWrapper s \<noteq> [])
          (RequiresPushEndpoint (subPrefix @ ''.push_wrapper'')),
        fail_if (sc_PushWriteMetadata s \<and> sc_PushWrapper s \<noteq> PushWrapperNone)
          (RequiresPushWrapperNone (subPrefix @ ''.push_write_metadata'')),
        (case sc_PushOIDCToken s of
           None \<Rightarrow> None
         | Some tok \<Rightarrow>
             let prefix = subPrefix @ ''.push_oidc_token'' in
             first_error
               [fail_if (sc_PushEndpoint s = []) (RequiresPushEndpoint prefix),
                fail_if (oc_ServiceAccountEmail tok = []) (Required (prefix @ ''.service_account_email'')),
                fail_if (containsNullByte (oc_ServiceAccountEmail tok))
                  (NullByte (prefix @ ''.service_account_email'')),
                fail_if (containsNullByte (oc_Audience tok)) (NullByte (prefix @ ''.audience''))])]"

definition validateDeadLetter :: "string \<Rightarrow> DeadLetter option \<Rightarrow> cfg_error option" where
  "validateDeadLetter subPrefix dl =
     (case dl of
        None \<Rightarrow> None
      | Some d \<Rightarrow>
          let prefix = subPrefix @ ''.dead_letter''; n = dc_MaxDeliveryAttempts d in
          first_error
            [fail_if (dc_Topic d = []) (Required (prefix @ ''.topic'')),
             fail_if (containsNullByte (dc_Topic d)) (NullByte (prefix @ ''.topic'')),
             fail_if (n \<noteq> 0 \<and> (n < 5 \<or> n > 100))
               (AttemptsOutOfRange (prefix @ ''.max_delivery_attempts'') n)])"

definition validateRetry :: "string \<Rightarrow> Retry option \<Rightarrow> cfg_error option" where
  "validateRetry subPrefix rt =
     (case rt of
        None \<Rightarrow> None
      | Some r \<Rightarrow>
          let prefix = subPrefix @ ''.retry'';
              lo = rc_MinimumBackoff r; hi = rc_MaximumBackoff r in
          first_error
            [validateDurationRange (prefix @ ''.minimum_backoff'') lo 0 maxRetryBackoff ''0s-600s'',
             validateDurationRange (prefix @ ''.maximum_backoff'') hi 0 maxRetryBackoff ''0s-600s'',
             (case ParseDuration lo of
                None \<Rightarrow> Some (InvalidDuration (prefix @ ''.minimum_backoff'') lo)
              | Some minBackoff \<Rightarrow>
                  (case ParseDuration hi of
                     None \<Rightarrow> Some (InvalidDuration (prefix @ ''.maximum_backoff'') hi)
                   | Some maxBackoff \<Rightarrow>
                       fail_if (0 < minBackoff \<and> 0 < maxBackoff \<and> minBackoff > maxBackoff)
                         (BackoffOrder prefix lo hi)))])"

section \<open>Resource validators\<close>

definition indexed :: "string \<Rightarrow> nat \<Rightarrow> string" where
  "indexed p i = p @ ''['' @ Itoa i @ '']''"

definition validateSubscription :: "string \<Rightarrow> SubscriptionCfg \<Rightarrow> string set \<Rightarrow> cfg_error option" where
  "validateSubscription prefix s seen =
     first_error
       [validateStrategy (prefix @ ''.strategy'') (sc_Strategy s),
        fail_if (sc_Name s = []) (Required (prefix @ ''.name'')),
        fail_if (containsNullByte (sc_Name s)) (NullByte (prefix @ ''.name'')),
        fail_if (\<not> resourceNamePattern (sc_Name s)) (InvalidName (prefix @ ''.name'') (sc_Name s)),
        fail_if (HasPrefix (sc_Name s) ''goog'') (GoogPrefix (prefix @ ''.name'') (sc_Name s)),
        fail_if (sc_Name s \<in> seen) (DuplicateName (prefix @ ''.name'') (sc_Name s)),
        validateLabels (prefix @ ''.labels'') (sc_Labels s),
        validateLabels (prefix @ ''.push_attributes'') (sc_PushAttributes s),
        validateAckDeadline prefix (sc_AckDeadline s),
        validateDurationRange (prefix @ ''.message_retention'') (sc_MessageRetention s)
          minMessageRetention maxMessageRetention ''10m-31d'',
        (if sc_ExpirationTTL s \<noteq> [] \<and> sc_ExpirationTTL s \<noteq> ExpirationNever
         then validateDurationRange (prefix @ ''.expiration_ttl'') (sc_ExpirationTTL s)
                minExpirationTTL maxExpirationTTL ''1d-365d, or \"never\"''
         else None),
        fail_if (containsNullByte (sc_Filter s)) (NullByte (prefix @ ''.filter'')),
        fail_if (containsNullByte (sc_PushEndpoint s)) (NullByte (prefix @ ''.push_endpoint'')),
        fail_if (sc_PushEndpoint s = [] \<and> sc_PushAttributes s \<noteq> [])
          (RequiresPushEndpoint (prefix @ ''.push_attributes'')),
        validatePush prefix s,
        validateDeadLetter prefix (sc_DeadLetter s),
        validateRetry prefix (sc_Retry s)]"

text \<open>The loop over a topic's subscriptions; the set of names seen so far is the shared map.\<close>

fun validateSubscriptions ::
    "string \<Rightarrow> nat \<Rightarrow> SubscriptionCfg list \<Rightarrow> string set \<Rightarrow> cfg_error + string set" where
  "validateSubscriptions topicPrefix i [] seen = Inr seen"
| "validateSubscriptions topicPrefix i (s # ss) seen =
     (case validateSubscription (indexed (topicPrefix @ ''.subscriptions'') i) s seen of
        Some e \<Rightarrow> Inl e
      | None \<Rightarrow> validateSubscriptions topicPrefix (Suc i) ss (insert (sc_Name s) seen))"

definition validateTopic :: "string \<Rightarrow> TopicCfg \<Rightarrow> string set \<Rightarrow> cfg_error option" where
  "validateTopic prefix t names =
     first_error
       [validateStrategy (prefix @ ''.strategy'') (tc_Strategy t),
        fail_if (tc_Name t = []) (Required (prefix @ ''.name'')),
        fail_if (containsNullByte (tc_Name t)) (NullByte (prefix @ ''.name'')),
        fail_if (\<not> resourceNamePattern (tc_Name t)) (InvalidName (prefix @ ''.name'') (tc_Name t)),
        fail_if (HasPrefix (tc_Name t) ''goog'') (GoogPrefix (prefix @ ''.name'') (tc_Name t)),
        fail_if (tc_Name t \<in> names) (DuplicateName (prefix @ ''.name'') (tc_Name t)),
        validateLabels (prefix @ ''.labels'') (tc_Labels t),
        validateDurationRange (prefix @ ''.message_retention'') (tc_MessageRetention t)
          minMessageRetention maxMessageRetention ''10m-31d'']"

fun validateTopics_loop ::
    "nat \<Rightarrow> TopicCfg list \<Rightarrow> string set \<Rightarrow> string set \<Rightarrow> cfg_error + string set" where
  "validateTopics_loop i [] names subNames = Inr names"
| "validateTopics_loop i (t # ts) names subNames =
     (let prefix = indexed ''pubsub.topics'' i in
      case validateTopic prefix t names of
        Some e \<Rightarrow> Inl e
      | None \<Rightarrow>
          (case validateSubscriptions prefix 0 (tc_Subscriptions t) subNames of
             Inl e \<Rightarrow> Inl e
           | Inr subNames' \<Rightarrow> validateTopics_loop (Suc i) ts (insert (tc_Name t) names) subNames'))"

definition validateDeadLetterTargets :: "TopicCfg list \<Rightarrow> string set \<Rightarrow> cfg_error option" where
  "validateDeadLetterTargets topics declared =
     first_error
       (concat (map (\<lambda>(i, t).
          map (\<lambda>(j, s).
            (case sc_DeadLetter s of
               None \<Rightarrow> None
             | Some d \<Rightarrow>
                 if dc_Topic d \<in> declared then None
                 else Some (UndeclaredDeadLetter
                   (indexed (indexed ''pubsub.topics'' i @ ''.subscriptions'') j @ ''.dead_letter.topic'')
                   (dc_Topic d))))
            (enumerate 0 (tc_Subscriptions t)))
          (enumerate 0 topics)))"

definition validateTopics :: "TopicCfg list \<Rightarrow> cfg_error option" where
  "validateTopics topics =
     (case validateTopics_loop 0 topics {} {} of
        Inl e \<Rightarrow> Some e
      | Inr names \<Rightarrow> validateDeadLetterTargets topics names)"

definition validateBucket :: "string \<Rightarrow> BucketCfg \<Rightarrow> string set \<Rightarrow> cfg_error option" where
  "validateBucket prefix b names =
     first_error
       [validateStrategy (prefix @ ''.strategy'') (bc_Strategy b),
        fail_if (bc_Name b = []) (Required (prefix @ ''.name'')),
        fail_if (containsNullByte (bc_Name b)) (NullByte (prefix @ ''.name'')),
        fail_if (\<not> bucketNamePattern (bc_Name b)) (InvalidName (prefix @ ''.name'') (bc_Name b)),
        fail_if (bc_Name b \<in> names) (DuplicateName (prefix @ ''.name'') (bc_Name b)),
        fail_if (containsNullByte (bc_Location b)) (NullByte (prefix @ ''.location'')),
        fail_if (ToUpper (bc_StorageClass b) \<notin> validStorageClasses)
          (InvalidStorageClass (prefix @ ''.storage_class'') (bc_StorageClass b))]"

fun validateBuckets_loop :: "nat \<Rightarrow> BucketCfg list \<Rightarrow> string set \<Rightarrow> cfg_error option" where
  "validateBuckets_loop i [] names = None"
| "validateBuckets_loop i (b # bs) names =
     (case validateBucket (indexed ''storage.buckets'' i) b names of
        Some e \<Rightarrow> Some e
      | None \<Rightarrow> validateBuckets_loop (Suc i) bs (insert (bc_Name b) names))"

definition validateBuckets :: "BucketCfg list \<Rightarrow> cfg_error option" where
  "validateBuckets buckets = validateBuckets_loop 0 buckets {}"

type_synonym url_parser = "string \<Rightarrow> (string \<times> string) option"

definition validateCredential ::
    "url_parser \<Rightarrow> string \<Rightarrow> Credential \<Rightarrow> string set \<Rightarrow> cfg_error option" where
  "validateCredential url_parse prefix c paths =
     first_error
       [validateStrategy (prefix @ ''.strategy'') (cr_Strategy c),
        fail_if (cr_Path c = []) (Required (prefix @ ''.path'')),
        fail_if (containsNullByte (cr_Path c)) (NullByte (prefix @ ''.path'')),
        fail_if (cr_Path c \<in> paths) (DuplicateName (prefix @ ''.path'') (cr_Path c)),
        fail_if (cr_Account c \<noteq> [] \<and> \<not> accountPattern (cr_Account c))
          (InvalidAccount (prefix @ ''.account'') (cr_Account c)),
        (if cr_TokenURI c = [] then None
         else if containsNullByte (cr_TokenURI c) then Some (NullByte (prefix @ ''.token_uri''))
         else case url_parse (cr_TokenURI c) of
                None \<Rightarrow> Some (InvalidURL (prefix @ ''.token_uri'') (cr_TokenURI c))
              | Some (scheme, host) \<Rightarrow>
                  fail_if (scheme = [] \<or> host = []) (NotAbsoluteURL (prefix @ ''.token_uri'') (cr_TokenURI c)))]"

fun validateCredentials_loop ::
    "url_parser \<Rightarrow> nat \<Rightarrow> Credential list \<Rightarrow> string set \<Rightarrow> cfg_error option" where
  "validateCredentials_loop url_parse i [] paths = None"
| "validateCredentials_loop url_parse i (c # cs) paths =
     (case validateCredential url_parse (indexed ''credentials'' i) c paths of
        Some e \<Rightarrow> Some e
      | None \<Rightarrow> validateCredentials_loop url_parse (Suc i) cs (insert (cr_Path c) paths))"

definition validateCredentials :: "url_parser \<Rightarrow> Credential list \<Rightarrow> cfg_error option" where
  "validateCredentials url_parse creds = validateCredentials_loop url_parse 0 creds {}"

definition validate :: "url_parser \<Rightarrow> Config \<Rightarrow> cfg_error option" where
  "validate url_parse cfg =
     first_error
       [validateStrategy ''strategy'' (cfg_Strategy cfg),
        fail_if (cfg_ProjectID cfg \<noteq> [] \<and> \<not> projectIDPattern (cfg_ProjectID cfg))
          (InvalidProjectID (cfg_ProjectID cfg)),
        validateTopics (ps_Topics (cfg_PubSub cfg)),
        validateBuckets (st_Buckets (cfg_Storage cfg)),
        validateCredentials url_parse (cfg_Credentials cfg)]"

section \<open>Loading\<close>

text \<open>
  \<open>os.ReadFile\<close> and \<open>yaml.Unmarshal\<close> are parameters: what the file holds, and what the YAML
  library makes of it.
\<close>

datatype load_error = ReadError string | ParseError string | ValidateError cfg_error

definition Load ::
    "(string \<Rightarrow> string + string) \<Rightarrow> (string \<Rightarrow> string + Config) \<Rightarrow> environ \<Rightarrow> url_parser
     \<Rightarrow> string \<Rightarrow> load_error + Config" where
  "Load read_file unmarshal env url_parse path =
     (case read_file path of
        Inl e \<Rightarrow> Inl (ReadError e)
      | Inr data \<Rightarrow>
          (case unmarshal data of
             Inl e \<Rightarrow> Inl (ParseError e)
           | Inr raw \<Rightarrow>
               let cfg = expandConfig env raw in
               (case validate url_parse cfg of
                  Some e \<Rightarrow> Inl (ValidateError e)
                | None \<Rightarrow> Inr cfg)))"

end
