(* ===== verification/Config_Spec.thy ===== *)
theory Config_Spec
  imports Config_Validate
begin

text \<open>
  What a valid configuration is, stated without loops, seen-sets or error paths, and the
  facts that \<open>validate\<close> accepts exactly these. Names are well-formed and unique (topics
  among topics, subscriptions across the whole project, buckets, key-file paths), every
  duration parses into the range Google Cloud accepts, push settings come with an endpoint,
  and every dead letter target is declared.
\<close>

section \<open>The specification\<close>

definition strategy_ok :: "string \<Rightarrow> bool" where
  "strategy_ok s \<longleftrightarrow> s = [] \<or> s = ''create'' \<or> s = ''update''"

definition resource_name_ok :: "string \<Rightarrow> bool" where
  "resource_name_ok n \<longleftrightarrow> resourceNamePattern n \<and> \<not> HasPrefix n ''goog''"

definition duration_ok :: "duration \<Rightarrow> duration \<Rightarrow> string \<Rightarrow> bool" where
  "duration_ok lo hi s \<longleftrightarrow>
     s = [] \<or> \<not> containsNullByte s
              \<and> (case ParseDuration s of None \<Rightarrow> False | Some d \<Rightarrow> 0 \<le> d \<and> lo \<le> d \<and> d \<le> hi)"

definition labels_ok :: "go_map \<Rightarrow> bool" where
  "labels_ok m \<longleftrightarrow> list_all (\<lambda>(k, v). \<not> containsNullByte k \<and> \<not> containsNullByte v) m"

definition whole_seconds :: "string \<Rightarrow> bool" where
  "whole_seconds s \<longleftrightarrow> (case ParseDuration s of None \<Rightarrow> False | Some d \<Rightarrow> d mod Second = 0)"

definition push_ok :: "SubscriptionCfg \<Rightarrow> bool" where
  "push_ok s \<longleftrightarrow>
     \<not> containsNullByte (sc_PushEndpoint s)
     \<and> sc_PushWrapper s \<in> {[], PushWrapperPubSub, PushWrapperNone}
     \<and> (sc_PushWriteMetadata s \<longrightarrow> sc_PushWrapper s = PushWrapperNone)
     \<and> (sc_PushEndpoint s = [] \<longrightarrow>
          sc_PushAttributes s = [] \<and> sc_PushWrapper s = [] \<and> sc_PushOIDCToken s = None)
     \<and> (case sc_PushOIDCToken s of
          None \<Rightarrow> True
        | Some t \<Rightarrow> oc_ServiceAccountEmail t \<noteq> [] \<and> \<not> containsNullByte (oc_ServiceAccountEmail t)
                    \<and> \<not> containsNullByte (oc_Audience t))"

definition dead_letter_ok :: "DeadLetter option \<Rightarrow> bool" where
  "dead_letter_ok dl \<longleftrightarrow>
     (case dl of
        None \<Rightarrow> True
      | Some d \<Rightarrow> dc_Topic d \<noteq> [] \<and> \<not> containsNullByte (dc_Topic d)
          \<and> (dc_MaxDeliveryAttempts d = 0 \<or> 5 \<le> dc_MaxDeliveryAttempts d \<and> dc_MaxDeliveryAttempts d \<le> 100))"

definition backoff_value :: "string \<Rightarrow> duration" where
  "backoff_value s = (case ParseDuration s of None \<Rightarrow> 0 | Some d \<Rightarrow> d)"

definition retry_ok :: "Retry option \<Rightarrow> bool" where
  "retry_ok rt \<longleftrightarrow>
     (case rt of
        None \<Rightarrow> True
      | Some r \<Rightarrow>
          duration_ok 0 maxRetryBackoff (rc_MinimumBackoff r)
          \<and> duration_ok 0 maxRetryBackoff (rc_MaximumBackoff r)
          \<and> (0 < backoff_value (rc_MaximumBackoff r) \<longrightarrow>
               backoff_value (rc_MinimumBackoff r) \<le> backoff_value (rc_MaximumBackoff r)))"

definition subscription_ok :: "SubscriptionCfg \<Rightarrow> bool" where
  "subscription_ok s \<longleftrightarrow>
     strategy_ok (sc_Strategy s) \<and> resource_name_ok (sc_Name s)
     \<and> labels_ok (sc_Labels s) \<and> labels_ok (sc_PushAttributes s)
     \<and> duration_ok minAckDeadline maxAckDeadline (sc_AckDeadline s) \<and> whole_seconds (sc_AckDeadline s)
     \<and> duration_ok minMessageRetention maxMessageRetention (sc_MessageRetention s)
     \<and> (sc_ExpirationTTL s = ExpirationNever
        \<or> duration_ok minExpirationTTL maxExpirationTTL (sc_ExpirationTTL s))
     \<and> \<not> containsNullByte (sc_Filter s)
     \<and> push_ok s \<and> dead_letter_ok (sc_DeadLetter s) \<and> retry_ok (sc_Retry s)"

definition topic_ok :: "TopicCfg \<Rightarrow> bool" where
  "topic_ok t \<longleftrightarrow>
     strategy_ok (tc_Strategy t) \<and> resource_name_ok (tc_Name t) \<and> labels_ok (tc_Labels t)
     \<and> duration_ok minMessageRetention maxMessageRetention (tc_MessageRetention t)"

definition bucket_ok :: "BucketCfg \<Rightarrow> bool" where
  "bucket_ok b \<longleftrightarrow>
     strategy_ok (bc_Strategy b) \<and> bucketNamePattern (bc_Name b) \<and> \<not> containsNullByte (bc_Location b)
     \<and> ToUpper (bc_StorageClass b) \<in> validStorageClasses"

definition credential_ok :: "url_parser \<Rightarrow> Credential \<Rightarrow> bool" where
  "credential_ok url_parse c \<longleftrightarrow>
     strategy_ok (cr_Strategy c) \<and> cr_Path c \<noteq> [] \<and> \<not> containsNullByte (cr_Path c)
     \<and> (cr_Account c = [] \<or> accountPattern (cr_Account c))
     \<and> (cr_TokenURI c = []
        \<or> \<not> containsNullByte (cr_TokenURI c)
          \<and> (case url_parse (cr_TokenURI c) of
               None \<Rightarrow> False | Some (scheme, host) \<Rightarrow> scheme \<noteq> [] \<and> host \<noteq> []))"

definition all_subscriptions :: "TopicCfg list \<Rightarrow> SubscriptionCfg list" where
  "all_subscriptions topics = concat (map tc_Subscriptions topics)"

definition dead_letters_declared :: "TopicCfg list \<Rightarrow> bool" where
  "dead_letters_declared topics \<longleftrightarrow>
     list_all (\<lambda>s. case sc_DeadLetter s of
                     None \<Rightarrow> True
                   | Some d \<Rightarrow> dc_Topic d \<in> set (map tc_Name topics)) (all_subscriptions topics)"

definition topics_ok :: "TopicCfg list \<Rightarrow> bool" where
  "topics_ok topics \<longleftrightarrow>
     list_all topic_ok topics \<and> distinct (map tc_Name topics)
     \<and> list_all subscription_ok (all_subscriptions topics)
     \<and> distinct (map sc_Name (all_subscriptions topics))
     \<and> dead_letters_declared topics"

definition valid_config :: "url_parser \<Rightarrow> Config \<Rightarrow> bool" where
  "valid_config url_parse cfg \<longleftrightarrow>
     strategy_ok (cfg_Strategy cfg)
     \<and> (cfg_ProjectID cfg = [] \<or> projectIDPattern (cfg_ProjectID cfg))
     \<and> topics_ok (ps_Topics (cfg_PubSub cfg))
     \<and> list_all bucket_ok (st_Buckets (cfg_Storage cfg))
     \<and> distinct (map bc_Name (st_Buckets (cfg_Storage cfg)))
     \<and> list_all (credential_ok url_parse) (cfg_Credentials cfg)
     \<and> distinct (map cr_Path (cfg_Credentials cfg))"

section \<open>The field validators meet it\<close>

lemma validateStrategy_ok [simp]: "validateStrategy p s = None \<longleftrightarrow> strategy_ok s"
  by (auto simp: validateStrategy_def strategy_ok_def validStrategies_def)

lemma validateDurationRange_ok [simp]:
  "validateDurationRange p s lo hi b = None \<longleftrightarrow> duration_ok lo hi s"
  by (auto simp: validateDurationRange_def validateDuration_def duration_ok_def split: option.splits)

lemma validateLabels_ok [simp]: "validateLabels p m = None \<longleftrightarrow> labels_ok m"
  by (auto simp: validateLabels_def labels_ok_def first_error_ok_iff list_all_iff split: prod.splits)

lemma ParseDuration_empty [simp]: "ParseDuration [] = Some 0"
  by (simp add: ParseDuration_def)

lemma validateAckDeadline_ok [simp]:
  "validateAckDeadline p s = None \<longleftrightarrow> duration_ok minAckDeadline maxAckDeadline s \<and> whole_seconds s"
  by (auto simp: validateAckDeadline_def Let_def whole_seconds_def split: option.splits)

lemma validateDeadLetter_ok [simp]: "validateDeadLetter p d = None \<longleftrightarrow> dead_letter_ok d"
  by (auto simp: validateDeadLetter_def dead_letter_ok_def Let_def split: option.splits)

lemma duration_ok_parses: "duration_ok lo hi s \<Longrightarrow> \<exists>d. ParseDuration s = Some d \<and> 0 \<le> d"
  by (auto simp: duration_ok_def split: option.splits)

lemma validateRetry_ok [simp]: "validateRetry p rt = None \<longleftrightarrow> retry_ok rt"
proof (cases rt)
  case None
  then show ?thesis by (simp add: validateRetry_def retry_ok_def)
next
  case (Some r)
  show ?thesis
  proof (cases "duration_ok 0 maxRetryBackoff (rc_MinimumBackoff r) \<and> duration_ok 0 maxRetryBackoff (rc_MaximumBackoff r)")
    case True
    then obtain a b where "ParseDuration (rc_MinimumBackoff r) = Some a" "0 \<le> a"
      "ParseDuration (rc_MaximumBackoff r) = Some b" "0 \<le> b"
      using duration_ok_parses by blast
    with True Some show ?thesis
      by (auto simp: validateRetry_def retry_ok_def Let_def backoff_value_def)
  next
    case False
    with Some show ?thesis by (auto simp: validateRetry_def retry_ok_def Let_def)
  qed
qed

lemma containsNullByte_Nil [simp]: "\<not> containsNullByte []"
  by (simp add: containsNullByte_def)

lemma push_wrapper_no_null: "w \<in> {[], PushWrapperPubSub, PushWrapperNone} \<Longrightarrow> \<not> containsNullByte w"
  by (auto simp: containsNullByte_def PushWrapperPubSub_def PushWrapperNone_def)

lemma push_checks_ok:
  "(\<not> containsNullByte (sc_PushEndpoint s) \<and> \<not> (sc_PushEndpoint s = [] \<and> sc_PushAttributes s \<noteq> [])
    \<and> validatePush p s = None) \<longleftrightarrow> push_ok s"
  using push_wrapper_no_null[of "sc_PushWrapper s"]
  by (cases "sc_PushOIDCToken s")
     (auto simp: validatePush_def push_ok_def Let_def validPushWrappers_def)

section \<open>The name patterns\<close>

lemma alpha_not_null: "alpha c \<Longrightarrow> c \<noteq> CHR 0x00"
  by (auto simp: alpha_def lower_alpha_def between_def)

lemma resource_char_not_null: "resource_char c \<Longrightarrow> c \<noteq> CHR 0x00"
  by (auto simp: resource_char_def alpha_def lower_alpha_def between_def is_digit_def)

lemma resourceNamePattern_plain:
  "resourceNamePattern n \<Longrightarrow> n \<noteq> [] \<and> \<not> containsNullByte n"
  by (cases n) (auto simp: containsNullByte_def list_all_iff dest: alpha_not_null resource_char_not_null)

lemma lower_alnum_not_null: "lower_alnum_hyphen c \<Longrightarrow> c \<noteq> CHR 0x00"
  by (auto simp: lower_alnum_hyphen_def lower_alnum_def lower_alpha_def between_def is_digit_def)

lemma bucketNamePattern_plain: "bucketNamePattern n \<Longrightarrow> n \<noteq> [] \<and> \<not> containsNullByte n"
proof (cases n)
  case (Cons c s)
  assume b: "bucketNamePattern n"
  have "lower_alnum_hyphen x" if "x \<in> set n" for x
  proof -
    have "x = c \<or> x = last s \<or> x \<in> set (butlast s)"
      using that Cons b set_last_butlast[of s] by auto
    then show ?thesis using b Cons by (auto simp: lower_alnum_hyphen_def list_all_iff)
  qed
  then show ?thesis using Cons by (force simp: containsNullByte_def dest: lower_alnum_not_null)
qed simp

section \<open>The resource validators meet it\<close>

lemma validateSubscription_ok:
  "validateSubscription p s seen = None \<longleftrightarrow> subscription_ok s \<and> sc_Name s \<notin> seen"
proof -
  have name: "(sc_Name s \<noteq> [] \<and> \<not> containsNullByte (sc_Name s) \<and> resourceNamePattern (sc_Name s))
      \<longleftrightarrow> resourceNamePattern (sc_Name s)"
    using resourceNamePattern_plain by blast
  have expiry: "((if sc_ExpirationTTL s \<noteq> [] \<and> sc_ExpirationTTL s \<noteq> ExpirationNever
         then validateDurationRange q (sc_ExpirationTTL s) minExpirationTTL maxExpirationTTL b
         else None) = None) \<longleftrightarrow>
     (sc_ExpirationTTL s = ExpirationNever
        \<or> duration_ok minExpirationTTL maxExpirationTTL (sc_ExpirationTTL s))" for q b
    by (simp add: duration_ok_def)
  show ?thesis
    unfolding validateSubscription_def subscription_ok_def resource_name_ok_def
      push_checks_ok[symmetric, of s p]
    using name expiry by auto
qed

lemma validateTopic_ok:
  "validateTopic p t names = None \<longleftrightarrow> topic_ok t \<and> tc_Name t \<notin> names"
  using resourceNamePattern_plain[of "tc_Name t"]
  by (auto simp: validateTopic_def topic_ok_def resource_name_ok_def)

lemma validateBucket_ok:
  "validateBucket p b names = None \<longleftrightarrow> bucket_ok b \<and> bc_Name b \<notin> names"
  using bucketNamePattern_plain[of "bc_Name b"]
  by (auto simp: validateBucket_def bucket_ok_def)

lemma validateCredential_ok:
  "validateCredential u p c paths = None \<longleftrightarrow> credential_ok u c \<and> cr_Path c \<notin> paths"
  by (auto simp: validateCredential_def credential_ok_def split: option.splits)

lemmas resource_rejected =
  validateSubscription_ok [THEN Not_eq_iff [THEN iffD2], THEN iffD1, OF option.discI]
  validateBucket_ok [THEN Not_eq_iff [THEN iffD2], THEN iffD1, OF option.discI]
  validateCredential_ok [THEN Not_eq_iff [THEN iffD2], THEN iffD1, OF option.discI]

text \<open>A loop that grows a set of names accepts exactly the lists of distinct, unseen names.\<close>

lemma validateSubscriptions_ok:
  "validateSubscriptions p i ss seen = Inr seen' \<longleftrightarrow>
     list_all subscription_ok ss \<and> distinct (map sc_Name ss) \<and> set (map sc_Name ss) \<inter> seen = {}
     \<and> seen' = seen \<union> set (map sc_Name ss)"
  by (induction ss arbitrary: i seen) (auto simp: validateSubscription_ok dest!: resource_rejected split: option.splits)

lemma all_subscriptions_simps [simp]:
  "all_subscriptions [] = []"
  "all_subscriptions (t # ts) = tc_Subscriptions t @ all_subscriptions ts"
  by (simp_all add: all_subscriptions_def)

lemma validateTopics_loop_ok:
  "validateTopics_loop i ts names subs = Inr names' \<longleftrightarrow>
     list_all topic_ok ts \<and> distinct (map tc_Name ts) \<and> set (map tc_Name ts) \<inter> names = {}
     \<and> list_all subscription_ok (all_subscriptions ts)
     \<and> distinct (map sc_Name (all_subscriptions ts))
     \<and> set (map sc_Name (all_subscriptions ts)) \<inter> subs = {}
     \<and> names' = names \<union> set (map tc_Name ts)"
proof (induction ts arbitrary: i names subs)
  case Nil
  then show ?case by auto
next
  case (Cons t ts)
  show ?case
  proof (cases "validateTopic (indexed ''pubsub.topics'' i) t names = None
      \<and> (\<exists>s'. validateSubscriptions (indexed ''pubsub.topics'' i) 0 (tc_Subscriptions t) subs = Inr s')")
    case True
    then obtain s' where v: "validateTopic (indexed ''pubsub.topics'' i) t names = None"
      and s: "validateSubscriptions (indexed ''pubsub.topics'' i) 0 (tc_Subscriptions t) subs = Inr s'"
      by blast
    have step: "validateTopics_loop i (t # ts) names subs = validateTopics_loop (Suc i) ts (insert (tc_Name t) names) s'"
      using v s by (simp add: Let_def)
    show ?thesis
      unfolding step Cons.IH
      using v[unfolded validateTopic_ok] s[unfolded validateSubscriptions_ok] by auto
  next
    case False
    then have "\<not> (topic_ok t \<and> tc_Name t \<notin> names)
        \<or> \<not> (list_all subscription_ok (tc_Subscriptions t) \<and> distinct (map sc_Name (tc_Subscriptions t))
             \<and> set (map sc_Name (tc_Subscriptions t)) \<inter> subs = {})"
      using validateTopic_ok[of "indexed ''pubsub.topics'' i" t names]
        validateSubscriptions_ok[of "indexed ''pubsub.topics'' i" 0 "tc_Subscriptions t" subs
          "subs \<union> set (map sc_Name (tc_Subscriptions t))"]
      by blast
    moreover have "validateTopics_loop i (t # ts) names subs \<noteq> Inr names'"
      using False by (auto simp: Let_def split: option.splits sum.splits)
    ultimately show ?thesis by auto
  qed
qed

lemma validateDeadLetterTargets_ok:
  "validateDeadLetterTargets ts names = None \<longleftrightarrow>
     (\<forall>t \<in> set ts. \<forall>s \<in> set (tc_Subscriptions t). \<forall>d. sc_DeadLetter s = Some d \<longrightarrow> dc_Topic d \<in> names)"
  unfolding validateDeadLetterTargets_def
proof (rule first_error_enumerate_nested, unfold prod.case, rule first_error_enumerate)
qed (auto split: option.splits)

lemma validateTopics_ok: "validateTopics ts = None \<longleftrightarrow> topics_ok ts"
proof (cases "validateTopics_loop 0 ts {} {}")
  case (Inl e)
  then have "\<not> (list_all topic_ok ts \<and> distinct (map tc_Name ts) \<and> list_all subscription_ok (all_subscriptions ts)
      \<and> distinct (map sc_Name (all_subscriptions ts)))"
    using validateTopics_loop_ok[of 0 ts "{}" "{}" "set (map tc_Name ts)"] by auto
  with Inl show ?thesis by (auto simp: validateTopics_def topics_ok_def)
next
  case (Inr names)
  then show ?thesis
    using validateTopics_loop_ok[of 0 ts "{}" "{}" names]
    by (auto simp: validateTopics_def topics_ok_def validateDeadLetterTargets_ok dead_letters_declared_def
        all_subscriptions_def list_all_iff split: option.splits)
qed

lemma validateBuckets_ok:
  "validateBuckets bs = None \<longleftrightarrow> list_all bucket_ok bs \<and> distinct (map bc_Name bs)"
proof -
  have "validateBuckets_loop i bs names = None \<longleftrightarrow>
      list_all bucket_ok bs \<and> distinct (map bc_Name bs) \<and> set (map bc_Name bs) \<inter> names = {}" for i names
    by (induction bs arbitrary: i names) (auto simp: validateBucket_ok dest!: resource_rejected split: option.splits)
  then show ?thesis by (simp add: validateBuckets_def)
qed

lemma validateCredentials_ok:
  "validateCredentials u cs = None \<longleftrightarrow> list_all (credential_ok u) cs \<and> distinct (map cr_Path cs)"
proof -
  have "validateCredentials_loop u i cs paths = None \<longleftrightarrow>
      list_all (credential_ok u) cs \<and> distinct (map cr_Path cs) \<and> set (map cr_Path cs) \<inter> paths = {}" for i paths
    by (induction cs arbitrary: i paths) (auto simp: validateCredential_ok dest!: resource_rejected split: option.splits)
  then show ?thesis by (simp add: validateCredentials_def)
qed

lemma validate_ok: "validate u cfg = None \<longleftrightarrow> valid_config u cfg"
  by (simp add: validate_def valid_config_def validateTopics_ok validateBuckets_ok validateCredentials_ok
      disj_not1 conj_assoc)

section \<open>Parsed durations\<close>

lemma ParseDuration_range: "ParseDuration s = Some d \<Longrightarrow> - (2 ^ 63) \<le> d \<and> d < 2 ^ 63"
  by (auto simp: ParseDuration_def split: if_splits option.splits dest: time_ParseDuration_range)

lemma Itoa_append_nonempty [simp]: "Itoa n @ u \<noteq> []"
  by simp

lemma ParseDuration_day_count:
  assumes "int n < 2 ^ 63"
  shows "ParseDuration (Itoa n @ ''d'') = Some (int64 (int64 (int n * 24) * Hour))"
proof -
  have "HasSuffix (Itoa n @ ''d'') ''d''" "TrimSuffix (Itoa n @ ''d'') ''d'' = Itoa n"
    by (rule HasSuffix_append, rule TrimSuffix_append)
  then show ?thesis using Atoi_Itoa[OF assms] by (simp add: ParseDuration_def)
qed

lemma ParseDuration_days:
  assumes "n \<le> 106751"
  shows "ParseDuration (Itoa n @ ''d'') = Some (int n * 24 * Hour)"
proof -
  have n: "int n \<le> 106751" using assms by simp
  then have "int64 (int n * 24) = int n * 24" by (intro int64_id) simp_all
  moreover have "int64 (int n * 24 * Hour) = int n * 24 * Hour" using n by (intro int64_id) simp_all
  ultimately show ?thesis using ParseDuration_day_count[of n] n by simp
qed

lemma int64_mult: "int64 (int64 x * y) = int64 (x * y)"
  by (simp add: int64_def signed_take_bit_mult[symmetric, of 63 x y] signed_take_bit_mult[symmetric, of 63 "signed_take_bit 63 x" y])

lemma ParseDuration_unit:
  assumes "unitMap u = Some k" "u \<noteq> []" "list_all (\<lambda>c. \<not> num_char c) u" "last u \<noteq> CHR ''d''" "0 < k"
  shows "ParseDuration (Itoa n @ u) = (if n * k < 2 ^ 63 then Some (int (n * k)) else None)"
proof -
  have "\<not> HasSuffix (Itoa n @ u) ''d''"
    using assms(2,4) by (metis HasSuffix_iff last_appendR last_snoc)
  then have "ParseDuration (Itoa n @ u) = time_ParseDuration (Itoa n @ u)" by (simp add: ParseDuration_def)
  then show ?thesis
    using time_ParseDuration_Itoa[OF assms(1-3) _ assms(5), of n] time_ParseDuration_overflow[OF assms(1-3) _ assms(5), of n]
    by auto
qed

section \<open>Environment references\<close>

text \<open>
  What expansion makes of a text, without a matcher: a reference is a non-empty name without
  closing brace between \<open>${\<close> and \<open>}\<close>; where one begins, its value (its own text when the
  variable is unset) is put out and the scan goes on after it; where none does, the byte is copied.
\<close>

inductive env_expansion :: "environ \<Rightarrow> string \<Rightarrow> string \<Rightarrow> bool" for env where
  nothing: "env_expansion env [] []"
| reference: "\<lbrakk>v \<noteq> []; CHR ''}'' \<notin> set v; env_expansion env s t\<rbrakk> \<Longrightarrow>
    env_expansion env (''${'' @ v @ ''}'' @ s) ((case env v of Some val \<Rightarrow> val | None \<Rightarrow> ''${'' @ v @ ''}'') @ t)"
| plain: "\<lbrakk>\<nexists>v r. v \<noteq> [] \<and> CHR ''}'' \<notin> set v \<and> c # s = ''${'' @ v @ ''}'' @ r; env_expansion env s t\<rbrakk> \<Longrightarrow>
    env_expansion env (c # s) (c # t)"

lemma expandEnvVars_expansion: "env_expansion env s (expandEnvVars env s)"
proof (induction env s rule: expandEnvVars.induct)
  case (1 env)
  then show ?case by (simp add: env_expansion.nothing)
next
  case (2 env c s)
  show ?case
  proof (cases "match_env_ref (c # s)")
    case None
    have "\<nexists>v r. v \<noteq> [] \<and> CHR ''}'' \<notin> set v \<and> c # s = ''${'' @ v @ ''}'' @ r"
      using None match_env_refI by (metis option.distinct(1))
    then show ?thesis using 2 None by (simp add: env_expansion.plain)
  next
    case (Some p)
    obtain v r where p: "p = (v, r)" by (cases p)
    note m = match_env_refD[OF Some[unfolded p]]
    show ?thesis
      using env_expansion.reference[OF m(2,3) 2(2)[OF Some p[symmetric]]] m(1) Some p by simp
  qed
qed

lemma env_expansion_expandEnvVars: "env_expansion env s t \<Longrightarrow> t = expandEnvVars env s"
proof (induction rule: env_expansion.induct)
  case nothing
  then show ?case by simp
next
  case (reference v s t)
  then show ?case using match_env_refI[OF reference(1,2), of s] by simp
next
  case (plain c s t)
  then have "match_env_ref (c # s) = None"
    using match_env_refD by (metis option.exhaust prod.exhaust)
  then show ?case using plain by simp
qed

end
