(* ===== verification/Topics.thy ===== *)
theory Topics
  imports Apply_Paths Config_Spec
begin

text \<open>
  \<open>internal/provisioner/topics.go\<close>: reconciling one topic. \<open>ensureTopic\<close> reads the live
  topic, creates a missing one, and otherwise sends the paths on which the live topic differs
  from what the configuration sets.
\<close>

section \<open>Labels\<close>

definition labelsSubset :: "go_map \<Rightarrow> go_map \<Rightarrow> bool" where
  "labelsSubset want got \<longleftrightarrow> list_all (\<lambda>(k, v). map_get got k = v) want"

definition mergeLabels :: "go_map \<Rightarrow> go_map \<Rightarrow> go_map" where
  "mergeLabels current configured =
     (if configured = [] then current else maps_Copy (maps_Copy [] current) configured)"

section \<open>Reconciling a topic\<close>

definition pathTopicLabels :: string where "pathTopicLabels = ''labels''"
definition pathTopicMessageRetention :: string where
  "pathTopicMessageRetention = ''message_retention_duration''"

text \<open>The error of \<open>time.ParseDuration\<close>; only its presence matters to the program.\<close>

definition duration_error :: "string \<Rightarrow> go_error" where
  "duration_error s = ErrorText (''time: invalid duration '' @ quote s)"

definition parse_or_wrap :: "string \<Rightarrow> string \<Rightarrow> go_error + duration" where
  "parse_or_wrap what s =
     (case ParseDuration s of
        None \<Rightarrow> Inl (Wrapped (''parsing '' @ what @ '': '') (duration_error s) [])
      | Some d \<Rightarrow> Inr d)"

definition buildTopic :: "TopicCfg \<Rightarrow> go_error + Topic" where
  "buildTopic t =
     (case parse_or_wrap ''message_retention'' (tc_MessageRetention t) of
        Inl e \<Rightarrow> Inl e
      | Inr retention \<Rightarrow>
          Inr \<lparr>t_Name = tc_Name t, t_Labels = tc_Labels t, t_MessageRetention = retention\<rparr>)"

definition diffTopic :: "Topic \<Rightarrow> Topic \<Rightarrow> string list" where
  "diffTopic current desired =
     (if 0 < t_MessageRetention desired \<and> t_MessageRetention current \<noteq> t_MessageRetention desired
      then [pathTopicMessageRetention] else [])
   @ (if t_Labels desired \<noteq> [] \<and> \<not> labelsSubset (t_Labels desired) (t_Labels current)
      then [pathTopicLabels] else [])"

definition updateTopic_mask ::
    "'p PubSubAdmin \<Rightarrow> Topic \<Rightarrow> string list \<Rightarrow> ('p, 'q, 'f) world \<Rightarrow> go_error option \<times> ('p, 'q, 'f) world" where
  "updateTopic_mask ps desired paths =
     on_pubsub (CallUpdateTopic desired paths) (UpdateTopic ps desired paths)"

definition warnTopic_unsupported ::
    "string \<Rightarrow> string \<Rightarrow> go_error \<Rightarrow> ('p, 'q, 'f) world \<Rightarrow> ('p, 'q, 'f) world" where
  "warnTopic_unsupported name path err =
     slog Warn ''Topic field not supported by this Pub/Sub endpoint, leaving it unchanged''
       [(''topic'', AStr name), (''field'', AStr path), (''error'', AErr err)]"

definition ensureTopic ::
    "'p PubSubAdmin \<Rightarrow> Options \<Rightarrow> TopicCfg \<Rightarrow> string \<Rightarrow> ('p, 'q, 'f) world
     \<Rightarrow> go_error option \<times> ('p, 'q, 'f) world" where
  "ensureTopic ps opts topic strategy w =
     (let name = tc_Name topic in
      case buildTopic topic of
        Inl err \<Rightarrow> (Some err, w)
      | Inr desired \<Rightarrow>
          (case on_pubsub (CallGetTopic name) (GetTopic ps name) w of
             (Inl err, w1) \<Rightarrow>
               if \<not> is_ErrNotFound err then (Some (Wrapped ''checking topic: '' err []), w1)
               else if DryRun opts then
                 (None, slog Info ''Would create topic''
                    [(''topic'', AStr name), (''labels'', AInt (int (length (t_Labels desired)))),
                     (''message_retention'', ADur (t_MessageRetention desired))] w1)
               else
                 on_pubsub (CallCreateTopic desired) (CreateTopic ps desired)
                   (slog Info ''Creating topic'' [(''topic'', AStr name)] w1)
           | (Inr current, w1) \<Rightarrow>
               if strategy = ''create'' then
                 (None, slog Info ''Skipping existing topic (strategy=create)'' [(''topic'', AStr name)] w1)
               else
                 let paths = diffTopic current desired in
                 if paths = [] then (None, slog Debug ''Topic up to date'' [(''topic'', AStr name)] w1)
                 else if DryRun opts then
                   (None, slog Info ''Would update topic'' [(''topic'', AStr name), (''fields'', AStrs paths)] w1)
                 else
                   let desired' = desired\<lparr>t_Labels := mergeLabels (t_Labels current) (t_Labels desired)\<rparr> in
                   applyPaths paths (updateTopic_mask ps desired') (warnTopic_unsupported name)
                     (slog Info ''Updating topic'' [(''topic'', AStr name), (''fields'', AStrs paths)] w1)))"

section \<open>Facts on labels\<close>

lemma map_get_map_of: "map_of m k = map_of m' k \<Longrightarrow> map_get m k = map_get m' k"
  by (simp add: map_get_def)

lemma map_of_mergeLabels:
  "wf_map current \<Longrightarrow> wf_map configured \<Longrightarrow>
   map_of (mergeLabels current configured) = map_of current ++ map_of configured"
  by (auto simp: mergeLabels_def map_of_maps_Copy wf_map_Copy)

lemma wf_mergeLabels: "wf_map current \<Longrightarrow> wf_map (mergeLabels current configured)"
  by (simp add: mergeLabels_def wf_map_Copy)

lemma mergeLabels_configured:
  "wf_map current \<Longrightarrow> wf_map configured \<Longrightarrow> map_of configured k = Some v \<Longrightarrow>
   map_of (mergeLabels current configured) k = Some v"
  by (simp add: map_of_mergeLabels)

lemma mergeLabels_unmanaged:
  "wf_map current \<Longrightarrow> wf_map configured \<Longrightarrow> k \<notin> fst ` set configured \<Longrightarrow>
   map_of (mergeLabels current configured) k = map_of current k"
  by (simp add: map_of_mergeLabels map_add_dom_app_simps dom_map_of_conv_image_fst map_add_def
      map_of_eq_None_iff[THEN iffD2])

lemma labelsSubset_iff:
  "wf_map want \<Longrightarrow> labelsSubset want got \<longleftrightarrow> (\<forall>k v. map_of want k = Some v \<longrightarrow> map_get got k = v)"
  by (auto simp: labelsSubset_def list_all_iff wf_map_def)

lemma labelsSubset_merge:
  "wf_map current \<Longrightarrow> wf_map configured \<Longrightarrow> labelsSubset configured (mergeLabels current configured)"
  by (simp add: labelsSubset_iff map_get_def mergeLabels_configured)

lemma labelsSubset_Nil [simp]: "labelsSubset [] got"
  by (simp add: labelsSubset_def)

section \<open>Facts on the diff\<close>

text \<open>The same diff as a filter: the fields a topic update can name, and when one differs.\<close>

definition topic_fields :: "string list" where
  "topic_fields = [pathTopicMessageRetention, pathTopicLabels]"

definition topic_differs :: "Topic \<Rightarrow> string \<Rightarrow> Topic \<Rightarrow> bool" where
  "topic_differs desired p current \<longleftrightarrow>
     (if p = pathTopicMessageRetention
      then 0 < t_MessageRetention desired \<and> t_MessageRetention current \<noteq> t_MessageRetention desired
      else p = pathTopicLabels \<and> \<not> labelsSubset (t_Labels desired) (t_Labels current))"

lemma diffTopic_filter: "diffTopic current desired = filter (\<lambda>p. topic_differs desired p current) topic_fields"
  by (auto simp: diffTopic_def topic_fields_def topic_differs_def pathTopicLabels_def
      pathTopicMessageRetention_def)

lemma diffTopic_empty_iff:
  "diffTopic current desired = [] \<longleftrightarrow>
     (0 < t_MessageRetention desired \<longrightarrow> t_MessageRetention current = t_MessageRetention desired)
     \<and> labelsSubset (t_Labels desired) (t_Labels current)"
  by (auto simp: diffTopic_def)

section \<open>What \<open>ensureTopic\<close> emits and touches\<close>

lemma applyPaths_emits:
  assumes "applyPaths paths update onU w = (r, w')"
    and "\<And>msk v r v'. update msk v = (r, v') \<Longrightarrow> emits P v v'"
    and "\<And>p e v. emits P v (onU p e v)"
  shows "emits P w w'"
  using assms(1) by (rule applyPaths_invariant[where I = "emits P w"]) (auto intro: emits_trans assms(2,3))

lemma applyPaths_only_pubsub:
  assumes "applyPaths paths update onU w = (r, w')"
    and "\<And>msk v r v'. update msk v = (r, v') \<Longrightarrow> only_pubsub v v'"
    and "\<And>p e v. only_pubsub v (onU p e v)"
  shows "only_pubsub w w'"
  using assms(1)
  by (rule applyPaths_invariant[where I = "only_pubsub w"]) (auto intro: only_pubsub_trans assms(2,3))

text \<open>The events of a topic pass.\<close>

fun topic_event :: "event \<Rightarrow> bool" where
  "topic_event (Log l m a) = True"
| "topic_event (CallGetTopic n) = True"
| "topic_event (CallCreateTopic t) = True"
| "topic_event (CallUpdateTopic t ps) = True"
| "topic_event _ = False"

lemma ensureTopic_emits:
  assumes "ensureTopic ps opts topic strategy w = (r, w')"
    and "\<And>l m a. P (Log l m a)" "\<And>n. P (CallGetTopic n)"
    and "\<not> DryRun opts \<Longrightarrow> (\<And>t. P (CallCreateTopic t))"
    and "\<not> DryRun opts \<Longrightarrow> strategy \<noteq> ''create'' \<Longrightarrow> (\<And>t msk. P (CallUpdateTopic t msk))"
  shows "emits P w w'"
proof -
  have get: "on_pubsub (CallGetTopic n) f v = (x, v') \<Longrightarrow> emits P v v'" for n f v x v'
    by (rule emits_on_pubsub) (simp_all add: assms)
  have create: "\<not> DryRun opts \<Longrightarrow> on_pubsub (CallCreateTopic t) f v = (x, v') \<Longrightarrow> emits P v v'" for t f v x v'
    by (rule emits_on_pubsub) (simp_all add: assms)
  have update: "\<not> DryRun opts \<Longrightarrow> strategy \<noteq> ''create'' \<Longrightarrow>
      applyPaths paths (updateTopic_mask ps d) (warnTopic_unsupported n) v = (x, v') \<Longrightarrow> emits P v v'"
    for paths d n v x v'
    by (erule applyPaths_emits)
       (auto simp: updateTopic_mask_def warnTopic_unsupported_def assms elim: emits_on_pubsub[rotated])
  have log: "emits P u (slog l m a v)" if "emits P u v" for u l m a v
    using that assms(2) by (rule emits_slog_after)
  show ?thesis
    using assms(1)
    by (auto simp: ensureTopic_def Let_def split: sum.splits prod.splits if_splits
        intro: get log emits_trans[rotated, OF create] emits_trans[rotated, OF update])
qed

lemma ensureTopic_only_pubsub:
  assumes "ensureTopic ps opts topic strategy w = (r, w')"
  shows "only_pubsub w w'"
proof -
  have update: "applyPaths paths (updateTopic_mask ps d) (warnTopic_unsupported n) v = (x, v') \<Longrightarrow> only_pubsub v v'"
    for paths d n v x v'
    by (erule applyPaths_only_pubsub)
       (auto simp: updateTopic_mask_def warnTopic_unsupported_def intro: only_pubsub_on_pubsub)
  show ?thesis
    using assms
    by (auto simp: ensureTopic_def Let_def split: sum.splits prod.splits if_splits
        dest!: only_pubsub_on_pubsub update intro: only_pubsub_trans)
qed

text \<open>Strategy \<open>create\<close> sends no update.\<close>

fun updates :: "event \<Rightarrow> bool" where
  "updates (CallUpdateTopic t ps) = True"
| "updates (CallUpdateSubscription s ps) = True"
| "updates (CallSetVersioning n v) = True"
| "updates _ = False"

section \<open>Building a topic from a valid configuration\<close>

lemma parse_or_wrap_ok: "duration_ok lo hi s \<Longrightarrow> \<exists>d. parse_or_wrap what s = Inr d \<and> ParseDuration s = Some d \<and> 0 \<le> d"
  by (auto simp: parse_or_wrap_def dest: duration_ok_parses)

lemma resource_char_not_slash: "\<not> resource_char (CHR ''/'')"
  by code_simp

lemma resource_name_no_slash: "resource_name_ok n \<Longrightarrow> CHR ''/'' \<notin> set n"
  using resource_char_not_slash
  by (cases n) (auto simp: resource_name_ok_def resource_char_def list_all_iff)

lemma duration_ok_fits: "duration_ok lo hi s \<Longrightarrow> ParseDuration s = Some d \<Longrightarrow> duration_fits d"
  using ParseDuration_range[of s d] by (auto simp: duration_ok_def duration_fits_def)

lemma buildTopic_ok:
  assumes "topic_ok t"
  shows "\<exists>d. buildTopic t = Inr d \<and> t_Name d = tc_Name t \<and> t_Labels d = tc_Labels t
      \<and> duration_fits (t_MessageRetention d) \<and> CHR ''/'' \<notin> set (t_Name d)"
proof -
  have dur: "duration_ok minMessageRetention maxMessageRetention (tc_MessageRetention t)"
    using assms by (simp add: topic_ok_def)
  then obtain r where r: "parse_or_wrap ''message_retention'' (tc_MessageRetention t) = Inr r"
    "ParseDuration (tc_MessageRetention t) = Some r"
    using parse_or_wrap_ok by blast
  then show ?thesis
    using duration_ok_fits[OF dur] resource_name_no_slash assms
    by (simp add: buildTopic_def topic_ok_def)
qed

end
