(* ===== verification/Subscriptions.thy ===== *)
theory Subscriptions
  imports Topics
begin

text \<open>
  \<open>internal/provisioner/subscriptions.go\<close>: reconciling one subscription. Beside the mutable
  fields, which go through an update mask, a subscription has fields fixed at creation; a
  difference there is logged and never sent.
\<close>

section \<open>Field paths\<close>

definition pathSubAckDeadline :: string where "pathSubAckDeadline = ''ack_deadline_seconds''"
definition pathSubMessageRetention :: string where
  "pathSubMessageRetention = ''message_retention_duration''"
definition pathSubRetainAcked :: string where "pathSubRetainAcked = ''retain_acked_messages''"
definition pathSubExactlyOnce :: string where "pathSubExactlyOnce = ''enable_exactly_once_delivery''"
definition pathSubExpiration :: string where "pathSubExpiration = ''expiration_policy''"
definition pathSubLabels :: string where "pathSubLabels = ''labels''"
definition pathSubPushConfig :: string where "pathSubPushConfig = ''push_config''"
definition pathSubDeadLetter :: string where "pathSubDeadLetter = ''dead_letter_policy''"
definition pathSubRetry :: string where "pathSubRetry = ''retry_policy''"

lemmas sub_path_defs =
  pathSubAckDeadline_def pathSubMessageRetention_def pathSubRetainAcked_def pathSubExactlyOnce_def
  pathSubExpiration_def pathSubLabels_def pathSubPushConfig_def pathSubDeadLetter_def pathSubRetry_def

section \<open>Building the desired subscription\<close>

definition buildPushConfig :: "SubscriptionCfg \<Rightarrow> PushConfig option" where
  "buildPushConfig s =
     (if sc_PushEndpoint s = [] then None
      else Some
        \<lparr>p_Endpoint = sc_PushEndpoint s, p_Attributes = sc_PushAttributes s,
         p_OIDCToken = (case sc_PushOIDCToken s of
             None \<Rightarrow> None
           | Some t \<Rightarrow> Some \<lparr>o_ServiceAccountEmail = oc_ServiceAccountEmail t, o_Audience = oc_Audience t\<rparr>),
         p_Wrapper =
           (if sc_PushWrapper s = PushWrapperPubSub then WrapperPubSub
            else if sc_PushWrapper s = PushWrapperNone then WrapperNone
            else WrapperUnset),
         p_WriteMetadata = sc_PushWriteMetadata s\<rparr>)"

definition buildExpiration :: "string \<Rightarrow> go_error + bool \<times> duration" where
  "buildExpiration ttl =
     (if ttl = [] then Inr (False, 0)
      else if ttl = ExpirationNever then Inr (True, 0)
      else case parse_or_wrap ''expiration_ttl'' ttl of
          Inl e \<Rightarrow> Inl e
        | Inr d \<Rightarrow> Inr (True, d))"

definition buildRetry :: "Retry option \<Rightarrow> go_error + RetryPolicy option" where
  "buildRetry r =
     (case r of
        None \<Rightarrow> Inr None
      | Some c \<Rightarrow>
          (case parse_or_wrap ''retry.minimum_backoff'' (rc_MinimumBackoff c) of
             Inl e \<Rightarrow> Inl e
           | Inr minBackoff \<Rightarrow>
               (case parse_or_wrap ''retry.maximum_backoff'' (rc_MaximumBackoff c) of
                  Inl e \<Rightarrow> Inl e
                | Inr maxBackoff \<Rightarrow>
                    Inr (Some \<lparr>r_MinimumBackoff = minBackoff, r_MaximumBackoff = maxBackoff\<rparr>))))"

definition buildSubscription :: "string \<Rightarrow> SubscriptionCfg \<Rightarrow> go_error + Subscription" where
  "buildSubscription topicName s =
     (case parse_or_wrap ''ack_deadline'' (sc_AckDeadline s) of
        Inl e \<Rightarrow> Inl e
      | Inr ackDeadline \<Rightarrow>
     (case parse_or_wrap ''message_retention'' (sc_MessageRetention s) of
        Inl e \<Rightarrow> Inl e
      | Inr retention \<Rightarrow>
     (case buildExpiration (sc_ExpirationTTL s) of
        Inl e \<Rightarrow> Inl e
      | Inr (expirationSet, ttl) \<Rightarrow>
     (case buildRetry (sc_Retry s) of
        Inl e \<Rightarrow> Inl e
      | Inr retry \<Rightarrow> Inr
          \<lparr>s_Name = sc_Name s, s_Topic = topicName, s_AckDeadline = ackDeadline,
           s_MessageRetention = retention, s_RetainAckedMessages = sc_RetainAckedMessages s,
           s_EnableMessageOrdering = sc_EnableMessageOrdering s,
           s_EnableExactlyOnceDelivery = sc_EnableExactlyOnceDelivery s,
           s_Filter = sc_Filter s, s_ExpirationSet = expirationSet, s_ExpirationTTL = ttl,
           s_Labels = sc_Labels s, s_Push = buildPushConfig s,
           s_DeadLetter = map_option
             (\<lambda>d. \<lparr>d_Topic = dc_Topic d, d_MaxDeliveryAttempts = int32 (dc_MaxDeliveryAttempts d)\<rparr>)
             (sc_DeadLetter s),
           s_Retry = retry\<rparr>))))"

section \<open>Comparing with the live subscription\<close>

definition boolDrift :: "bool option \<Rightarrow> bool option \<Rightarrow> bool" where
  "boolDrift current desired \<longleftrightarrow> desired \<noteq> None \<and> DerefBool current \<noteq> the desired"

definition immutableDrift :: "Subscription \<Rightarrow> Subscription \<Rightarrow> drift list" where
  "immutableDrift current desired =
     (if s_Filter desired \<noteq> [] \<and> s_Filter desired \<noteq> s_Filter current
      then [\<lparr>dr_field = ''filter'', dr_current = AStr (s_Filter current), dr_desired = AStr (s_Filter desired)\<rparr>]
      else [])
   @ (if boolDrift (s_EnableMessageOrdering current) (s_EnableMessageOrdering desired)
      then [\<lparr>dr_field = ''enable_message_ordering'',
             dr_current = ABool (DerefBool (s_EnableMessageOrdering current)),
             dr_desired = ABool (DerefBool (s_EnableMessageOrdering desired))\<rparr>]
      else [])
   @ (if s_Topic desired \<noteq> s_Topic current
      then [\<lparr>dr_field = ''topic'', dr_current = AStr (s_Topic current), dr_desired = AStr (s_Topic desired)\<rparr>]
      else [])"

definition effectiveWrapper :: "Wrapper \<Rightarrow> Wrapper" where
  "effectiveWrapper w = (if w = WrapperUnset then WrapperPubSub else w)"

definition oidcEqual :: "OIDCToken option \<Rightarrow> OIDCToken option \<Rightarrow> bool" where
  "oidcEqual current desired \<longleftrightarrow> desired = None \<or> (current \<noteq> None \<and> the current = the desired)"

definition pushConfigEqual :: "PushConfig option \<Rightarrow> PushConfig \<Rightarrow> bool" where
  "pushConfigEqual current desired =
     (case current of
        None \<Rightarrow> False
      | Some cur \<Rightarrow>
          if p_Endpoint desired \<noteq> [] \<and> p_Endpoint cur \<noteq> p_Endpoint desired then False
          else if \<not> labelsSubset (p_Attributes desired) (p_Attributes cur) then False
          else if \<not> oidcEqual (p_OIDCToken cur) (p_OIDCToken desired) then False
          else if p_Wrapper desired \<noteq> WrapperUnset then
            if effectiveWrapper (p_Wrapper cur) \<noteq> p_Wrapper desired then False
            else if p_Wrapper desired = WrapperNone \<and> p_WriteMetadata cur \<noteq> p_WriteMetadata desired then False
            else True
          else True)"

definition deadLetterEqual :: "DeadLetterPolicy option \<Rightarrow> DeadLetterPolicy option \<Rightarrow> bool" where
  "deadLetterEqual a b = (if a = None \<or> b = None then a = None \<and> b = None else the a = the b)"

definition retryEqual :: "RetryPolicy option \<Rightarrow> RetryPolicy option \<Rightarrow> bool" where
  "retryEqual a b = (if a = None \<or> b = None then a = None \<and> b = None else the a = the b)"

definition diffSubscription :: "Subscription \<Rightarrow> Subscription \<Rightarrow> string list" where
  "diffSubscription current desired =
     (if 0 < s_AckDeadline desired \<and> s_AckDeadline current \<noteq> s_AckDeadline desired
      then [pathSubAckDeadline] else [])
   @ (if 0 < s_MessageRetention desired \<and> s_MessageRetention current \<noteq> s_MessageRetention desired
      then [pathSubMessageRetention] else [])
   @ (if boolDrift (s_RetainAckedMessages current) (s_RetainAckedMessages desired)
      then [pathSubRetainAcked] else [])
   @ (if boolDrift (s_EnableExactlyOnceDelivery current) (s_EnableExactlyOnceDelivery desired)
      then [pathSubExactlyOnce] else [])
   @ (if s_ExpirationSet desired
         \<and> (\<not> s_ExpirationSet current \<or> s_ExpirationTTL current \<noteq> s_ExpirationTTL desired)
      then [pathSubExpiration] else [])
   @ (if s_Labels desired \<noteq> [] \<and> \<not> labelsSubset (s_Labels desired) (s_Labels current)
      then [pathSubLabels] else [])
   @ (if s_Push desired \<noteq> None \<and> \<not> pushConfigEqual (s_Push current) (the (s_Push desired))
      then [pathSubPushConfig] else [])
   @ (if s_DeadLetter desired \<noteq> None \<and> \<not> deadLetterEqual (s_DeadLetter current) (s_DeadLetter desired)
      then [pathSubDeadLetter] else [])
   @ (if s_Retry desired \<noteq> None \<and> \<not> retryEqual (s_Retry current) (s_Retry desired)
      then [pathSubRetry] else [])"

section \<open>Reconciling a subscription\<close>

definition warnImmutable :: "string \<Rightarrow> drift \<Rightarrow> ('p, 'q, 'f) world \<Rightarrow> ('p, 'q, 'f) world" where
  "warnImmutable name d =
     slog Warn ''Subscription field cannot be changed after creation, leaving it as is''
       [(''subscription'', AStr name), (''field'', AStr (dr_field d)), (''current'', dr_current d),
        (''configured'', dr_desired d),
        (''remedy'', AStr ''delete the subscription by hand if the new value is required'')]"

definition updateSubscription_mask ::
    "'p PubSubAdmin \<Rightarrow> Subscription \<Rightarrow> string list \<Rightarrow> ('p, 'q, 'f) world \<Rightarrow> go_error option \<times> ('p, 'q, 'f) world" where
  "updateSubscription_mask ps desired paths =
     on_pubsub (CallUpdateSubscription desired paths) (UpdateSubscription ps desired paths)"

definition warnSubscription_unsupported ::
    "string \<Rightarrow> string \<Rightarrow> go_error \<Rightarrow> ('p, 'q, 'f) world \<Rightarrow> ('p, 'q, 'f) world" where
  "warnSubscription_unsupported name path err =
     slog Warn ''Subscription field not supported by this Pub/Sub endpoint, leaving it unchanged''
       [(''subscription'', AStr name), (''field'', AStr path), (''error'', AErr err)]"

text \<open>What is kept of the live subscription in the message an update sends.\<close>

definition mergeSubscription :: "Subscription \<Rightarrow> Subscription \<Rightarrow> Subscription" where
  "mergeSubscription current desired =
     desired
       \<lparr>s_Labels := mergeLabels (s_Labels current) (s_Labels desired),
        s_Push := (case (s_Push desired, s_Push current) of
            (Some dp, Some cp) \<Rightarrow> Some (dp\<lparr>p_Attributes := mergeLabels (p_Attributes cp) (p_Attributes dp)\<rparr>)
          | _ \<Rightarrow> s_Push desired)\<rparr>"

definition ensureSubscription ::
    "'p PubSubAdmin \<Rightarrow> Options \<Rightarrow> string \<Rightarrow> SubscriptionCfg \<Rightarrow> string \<Rightarrow> ('p, 'q, 'f) world
     \<Rightarrow> go_error option \<times> ('p, 'q, 'f) world" where
  "ensureSubscription ps opts topicName sub strategy w =
     (let name = sc_Name sub in
      case buildSubscription topicName sub of
        Inl err \<Rightarrow> (Some err, w)
      | Inr desired \<Rightarrow>
          (case on_pubsub (CallGetSubscription name) (GetSubscription ps name) w of
             (Inl err, w1) \<Rightarrow>
               if \<not> is_ErrNotFound err then (Some (Wrapped ''checking subscription: '' err []), w1)
               else if DryRun opts then
                 (None, slog Info ''Would create subscription''
                    [(''subscription'', AStr name), (''topic'', AStr topicName),
                     (''ack_deadline'', ADur (s_AckDeadline desired)),
                     (''push'', ABool (s_Push desired \<noteq> None))] w1)
               else
                 on_pubsub (CallCreateSubscription desired) (CreateSubscription ps desired)
                   (slog Info ''Creating subscription''
                      [(''subscription'', AStr name), (''topic'', AStr topicName)] w1)
           | (Inr current, w1) \<Rightarrow>
               if strategy = ''create'' then
                 (None, slog Info ''Skipping existing subscription (strategy=create)''
                    [(''subscription'', AStr name)] w1)
               else
                 let w2 = fold (warnImmutable name) (immutableDrift current desired) w1;
                     paths = diffSubscription current desired in
                 if paths = [] then
                   (None, slog Debug ''Subscription up to date'' [(''subscription'', AStr name)] w2)
                 else if DryRun opts then
                   (None, slog Info ''Would update subscription''
                      [(''subscription'', AStr name), (''fields'', AStrs paths)] w2)
                 else
                   applyPaths paths (updateSubscription_mask ps (mergeSubscription current desired))
                     (warnSubscription_unsupported name)
                     (slog Info ''Updating subscription''
                        [(''subscription'', AStr name), (''fields'', AStrs paths)] w2)))"

section \<open>Facts on the diff\<close>

lemma boolDrift_simps [simp]:
  "\<not> boolDrift current None" "boolDrift current (Some b) \<longleftrightarrow> DerefBool current \<noteq> b"
  by (simp_all add: boolDrift_def)

lemma deadLetterEqual_iff [simp]: "deadLetterEqual a b \<longleftrightarrow> a = b"
  by (cases a; cases b) (auto simp: deadLetterEqual_def)

lemma retryEqual_iff [simp]: "retryEqual a b \<longleftrightarrow> a = b"
  by (cases a; cases b) (auto simp: retryEqual_def)

text \<open>The same diff as a filter: the mutable fields in mask order, and when one differs.\<close>

definition subscription_fields :: "string list" where
  "subscription_fields = [pathSubAckDeadline, pathSubMessageRetention, pathSubRetainAcked, pathSubExactlyOnce,
     pathSubExpiration, pathSubLabels, pathSubPushConfig, pathSubDeadLetter, pathSubRetry]"

definition subscription_differs :: "Subscription \<Rightarrow> string \<Rightarrow> Subscription \<Rightarrow> bool" where
  "subscription_differs desired p current \<longleftrightarrow>
     (if p = pathSubAckDeadline
      then 0 < s_AckDeadline desired \<and> s_AckDeadline current \<noteq> s_AckDeadline desired
      else if p = pathSubMessageRetention
      then 0 < s_MessageRetention desired \<and> s_MessageRetention current \<noteq> s_MessageRetention desired
      else if p = pathSubRetainAcked
      then boolDrift (s_RetainAckedMessages current) (s_RetainAckedMessages desired)
      else if p = pathSubExactlyOnce
      then boolDrift (s_EnableExactlyOnceDelivery current) (s_EnableExactlyOnceDelivery desired)
      else if p = pathSubExpiration
      then s_ExpirationSet desired
        \<and> (\<not> s_ExpirationSet current \<or> s_ExpirationTTL current \<noteq> s_ExpirationTTL desired)
      else if p = pathSubLabels then \<not> labelsSubset (s_Labels desired) (s_Labels current)
      else if p = pathSubPushConfig
      then (case s_Push desired of None \<Rightarrow> False | Some d \<Rightarrow> \<not> pushConfigEqual (s_Push current) d)
      else if p = pathSubDeadLetter
      then s_DeadLetter desired \<noteq> None \<and> s_DeadLetter current \<noteq> s_DeadLetter desired
      else p = pathSubRetry \<and> s_Retry desired \<noteq> None \<and> s_Retry current \<noteq> s_Retry desired)"

lemma sub_path_neq [simp]:
  "pathSubAckDeadline \<noteq> pathSubMessageRetention" "pathSubAckDeadline \<noteq> pathSubRetainAcked"
  "pathSubAckDeadline \<noteq> pathSubExactlyOnce" "pathSubAckDeadline \<noteq> pathSubExpiration"
  "pathSubAckDeadline \<noteq> pathSubLabels" "pathSubAckDeadline \<noteq> pathSubPushConfig"
  "pathSubAckDeadline \<noteq> pathSubDeadLetter" "pathSubAckDeadline \<noteq> pathSubRetry"
  "pathSubMessageRetention \<noteq> pathSubAckDeadline" "pathSubMessageRetention \<noteq> pathSubRetainAcked"
  "pathSubMessageRetention \<noteq> pathSubExactlyOnce" "pathSubMessageRetention \<noteq> pathSubExpiration"
  "pathSubMessageRetention \<noteq> pathSubLabels" "pathSubMessageRetention \<noteq> pathSubPushConfig"
  "pathSubMessageRetention \<noteq> pathSubDeadLetter" "pathSubMessageRetention \<noteq> pathSubRetry"
  "pathSubRetainAcked \<noteq> pathSubAckDeadline" "pathSubRetainAcked \<noteq> pathSubMessageRetention"
  "pathSubRetainAcked \<noteq> pathSubExactlyOnce" "pathSubRetainAcked \<noteq> pathSubExpiration"
  "pathSubRetainAcked \<noteq> pathSubLabels" "pathSubRetainAcked \<noteq> pathSubPushConfig"
  "pathSubRetainAcked \<noteq> pathSubDeadLetter" "pathSubRetainAcked \<noteq> pathSubRetry"
  "pathSubExactlyOnce \<noteq> pathSubAckDeadline" "pathSubExactlyOnce \<noteq> pathSubMessageRetention"
  "pathSubExactlyOnce \<noteq> pathSubRetainAcked" "pathSubExactlyOnce \<noteq> pathSubExpiration"
  "pathSubExactlyOnce \<noteq> pathSubLabels" "pathSubExactlyOnce \<noteq> pathSubPushConfig"
  "pathSubExactlyOnce \<noteq> pathSubDeadLetter" "pathSubExactlyOnce \<noteq> pathSubRetry"
  "pathSubExpiration \<noteq> pathSubAckDeadline" "pathSubExpiration \<noteq> pathSubMessageRetention"
  "pathSubExpiration \<noteq> pathSubRetainAcked" "pathSubExpiration \<noteq> pathSubExactlyOnce"
  "pathSubExpiration \<noteq> pathSubLabels" "pathSubExpiration \<noteq> pathSubPushConfig"
  "pathSubExpiration \<noteq> pathSubDeadLetter" "pathSubExpiration \<noteq> pathSubRetry"
  "pathSubLabels \<noteq> pathSubAckDeadline" "pathSubLabels \<noteq> pathSubMessageRetention"
  "pathSubLabels \<noteq> pathSubRetainAcked" "pathSubLabels \<noteq> pathSubExactlyOnce"
  "pathSubLabels \<noteq> pathSubExpiration" "pathSubLabels \<noteq> pathSubPushConfig"
  "pathSubLabels \<noteq> pathSubDeadLetter" "pathSubLabels \<noteq> pathSubRetry"
  "pathSubPushConfig \<noteq> pathSubAckDeadline" "pathSubPushConfig \<noteq> pathSubMessageRetention"
  "pathSubPushConfig \<noteq> pathSubRetainAcked" "pathSubPushConfig \<noteq> pathSubExactlyOnce"
  "pathSubPushConfig \<noteq> pathSubExpiration" "pathSubPushConfig \<noteq> pathSubLabels"
  "pathSubPushConfig \<noteq> pathSubDeadLetter" "pathSubPushConfig \<noteq> pathSubRetry"
  "pathSubDeadLetter \<noteq> pathSubAckDeadline" "pathSubDeadLetter \<noteq> pathSubMessageRetention"
  "pathSubDeadLetter \<noteq> pathSubRetainAcked" "pathSubDeadLetter \<noteq> pathSubExactlyOnce"
  "pathSubDeadLetter \<noteq> pathSubExpiration" "pathSubDeadLetter \<noteq> pathSubLabels"
  "pathSubDeadLetter \<noteq> pathSubPushConfig" "pathSubDeadLetter \<noteq> pathSubRetry"
  "pathSubRetry \<noteq> pathSubAckDeadline" "pathSubRetry \<noteq> pathSubMessageRetention"
  "pathSubRetry \<noteq> pathSubRetainAcked" "pathSubRetry \<noteq> pathSubExactlyOnce"
  "pathSubRetry \<noteq> pathSubExpiration" "pathSubRetry \<noteq> pathSubLabels"
  "pathSubRetry \<noteq> pathSubPushConfig" "pathSubRetry \<noteq> pathSubDeadLetter"
  by (simp_all add: sub_path_defs)

lemma filter_Cons_append: "filter P (x # xs) = (if P x then [x] else []) @ filter P xs"
  by simp

lemma sub_paths_distinct: "distinct subscription_fields"
  by (simp add: subscription_fields_def sub_path_defs)

lemma diffSubscription_filter:
  "diffSubscription current desired = filter (\<lambda>p. subscription_differs desired p current) subscription_fields"
proof -
  have differs:
    "subscription_differs desired pathSubAckDeadline current
       \<longleftrightarrow> 0 < s_AckDeadline desired \<and> s_AckDeadline current \<noteq> s_AckDeadline desired"
    "subscription_differs desired pathSubMessageRetention current
       \<longleftrightarrow> 0 < s_MessageRetention desired \<and> s_MessageRetention current \<noteq> s_MessageRetention desired"
    "subscription_differs desired pathSubRetainAcked current
       \<longleftrightarrow> boolDrift (s_RetainAckedMessages current) (s_RetainAckedMessages desired)"
    "subscription_differs desired pathSubExactlyOnce current
       \<longleftrightarrow> boolDrift (s_EnableExactlyOnceDelivery current) (s_EnableExactlyOnceDelivery desired)"
    "subscription_differs desired pathSubExpiration current
       \<longleftrightarrow> s_ExpirationSet desired
         \<and> (\<not> s_ExpirationSet current \<or> s_ExpirationTTL current \<noteq> s_ExpirationTTL desired)"
    "subscription_differs desired pathSubLabels current
       \<longleftrightarrow> s_Labels desired \<noteq> [] \<and> \<not> labelsSubset (s_Labels desired) (s_Labels current)"
    "subscription_differs desired pathSubPushConfig current
       \<longleftrightarrow> s_Push desired \<noteq> None \<and> \<not> pushConfigEqual (s_Push current) (the (s_Push desired))"
    "subscription_differs desired pathSubDeadLetter current
       \<longleftrightarrow> s_DeadLetter desired \<noteq> None \<and> \<not> deadLetterEqual (s_DeadLetter current) (s_DeadLetter desired)"
    "subscription_differs desired pathSubRetry current
       \<longleftrightarrow> s_Retry desired \<noteq> None \<and> \<not> retryEqual (s_Retry current) (s_Retry desired)"
    by (auto simp: subscription_differs_def split: option.split)
  show ?thesis
    unfolding diffSubscription_def subscription_fields_def filter_Cons_append differs
    by (simp only: filter.simps append_Nil2)
qed

section \<open>Putting a field\<close>

text \<open>
  What naming a path in a mask does to a live resource, as the update documentation of Pub/Sub
  has it: the named field takes the value of the message that was sent, as it reads back.
\<close>

definition put_topic :: "Topic \<Rightarrow> string \<Rightarrow> Topic \<Rightarrow> Topic" where
  "put_topic m p current =
     (if p = pathTopicLabels then current\<lparr>t_Labels := t_Labels m\<rparr>
      else if p = pathTopicMessageRetention then current\<lparr>t_MessageRetention := t_MessageRetention m\<rparr>
      else current)"

definition put_subscription :: "Subscription \<Rightarrow> string \<Rightarrow> Subscription \<Rightarrow> Subscription" where
  "put_subscription m p current =
     (if p = pathSubAckDeadline then current\<lparr>s_AckDeadline := s_AckDeadline m\<rparr>
      else if p = pathSubMessageRetention then current\<lparr>s_MessageRetention := s_MessageRetention m\<rparr>
      else if p = pathSubRetainAcked then current\<lparr>s_RetainAckedMessages := s_RetainAckedMessages m\<rparr>
      else if p = pathSubExactlyOnce
      then current\<lparr>s_EnableExactlyOnceDelivery := s_EnableExactlyOnceDelivery m\<rparr>
      else if p = pathSubExpiration
      then current\<lparr>s_ExpirationSet := s_ExpirationSet m, s_ExpirationTTL := s_ExpirationTTL m\<rparr>
      else if p = pathSubLabels then current\<lparr>s_Labels := s_Labels m\<rparr>
      else if p = pathSubPushConfig then current\<lparr>s_Push := s_Push m\<rparr>
      else if p = pathSubDeadLetter then current\<lparr>s_DeadLetter := s_DeadLetter m\<rparr>
      else if p = pathSubRetry then current\<lparr>s_Retry := s_Retry m\<rparr>
      else current)"

lemma topic_path_neq [simp]:
  "pathTopicLabels \<noteq> pathTopicMessageRetention" "pathTopicMessageRetention \<noteq> pathTopicLabels"
  by (simp_all add: pathTopicLabels_def pathTopicMessageRetention_def)

text \<open>The message of an update agrees with what is wanted, and its labels cover the wanted ones.\<close>

definition topic_message :: "Topic \<Rightarrow> Topic \<Rightarrow> bool" where
  "topic_message desired m \<longleftrightarrow>
     t_MessageRetention m = t_MessageRetention desired \<and> labelsSubset (t_Labels desired) (t_Labels m)"

definition subscription_message :: "Subscription \<Rightarrow> Subscription \<Rightarrow> bool" where
  "subscription_message desired m \<longleftrightarrow> (\<forall>p \<in> set subscription_fields. \<not> subscription_differs desired p m)"

lemma put_topic_settles: "topic_message desired m \<Longrightarrow> \<not> topic_differs desired p (put_topic m p v)"
  by (simp add: topic_message_def topic_differs_def put_topic_def)

lemma put_topic_keeps: "p \<noteq> q \<Longrightarrow> topic_differs desired q (put_topic m p v) = topic_differs desired q v"
  by (auto simp: topic_differs_def put_topic_def)

lemma put_subscription_settles:
  assumes "subscription_message desired m"
  shows "\<not> subscription_differs desired p (put_subscription m p v)"
proof (cases "p \<in> set subscription_fields")
  case True
  then have "subscription_differs desired p (put_subscription m p v) = subscription_differs desired p m"
    by (auto simp: subscription_fields_def put_subscription_def subscription_differs_def split: option.splits)
  then show ?thesis using assms True by (simp add: subscription_message_def)
next
  case False
  then show ?thesis by (simp add: subscription_fields_def subscription_differs_def)
qed

lemma put_subscription_keeps:
  "p \<noteq> q \<Longrightarrow> subscription_differs desired q (put_subscription m p v) = subscription_differs desired q v"
  by (cases "p \<in> set subscription_fields")
     (auto simp: subscription_fields_def subscription_differs_def put_subscription_def split: option.splits)

text \<open>Go maps have one value per key.\<close>

definition wf_subscription :: "Subscription \<Rightarrow> bool" where
  "wf_subscription s \<longleftrightarrow>
     wf_map (s_Labels s) \<and> (case s_Push s of None \<Rightarrow> True | Some p \<Rightarrow> wf_map (p_Attributes p))"

lemma labelsSubset_refl: "wf_map m \<Longrightarrow> labelsSubset m m"
  by (simp add: labelsSubset_iff map_get_def)

lemma topic_message_self: "wf_map (t_Labels desired) \<Longrightarrow> topic_message desired desired"
  by (simp add: topic_message_def labelsSubset_refl)

lemma topic_message_merge:
  "wf_map (t_Labels current) \<Longrightarrow> wf_map (t_Labels desired) \<Longrightarrow>
   topic_message desired (desired\<lparr>t_Labels := mergeLabels (t_Labels current) (t_Labels desired)\<rparr>)"
  by (simp add: topic_message_def labelsSubset_merge)

lemma pushConfigEqual_echo:
  "labelsSubset (p_Attributes d) attrs \<Longrightarrow> pushConfigEqual (Some (echo_push (d\<lparr>p_Attributes := attrs\<rparr>))) d"
  by (cases "p_OIDCToken d") (auto simp: pushConfigEqual_def echo_push_def oidcEqual_def effectiveWrapper_def)

lemma subscription_message_echo:
  assumes "labelsSubset (s_Labels desired) labels"
    and "\<And>d. s_Push desired = Some d \<Longrightarrow> \<exists>attrs. push = Some (d\<lparr>p_Attributes := attrs\<rparr>) \<and> labelsSubset (p_Attributes d) attrs"
  shows "subscription_message desired (echo_subscription (desired\<lparr>s_Labels := labels, s_Push := push\<rparr>))"
proof -
  have drift: "\<not> boolDrift (Some (DerefBool b)) b" for b by (cases b) simp_all
  have "pushConfigEqual (map_option echo_push push) d" if "s_Push desired = Some d" for d
    using assms(2)[OF that] pushConfigEqual_echo by auto
  with drift assms(1) show ?thesis
    by (auto simp: subscription_message_def subscription_fields_def subscription_differs_def
        echo_subscription_def split: option.splits)
qed

lemma subscription_message_self:
  assumes "wf_subscription desired"
  shows "subscription_message desired (echo_subscription desired)"
proof -
  have "subscription_message desired
     (echo_subscription (desired\<lparr>s_Labels := s_Labels desired, s_Push := s_Push desired\<rparr>))"
    by (rule subscription_message_echo)
       (use assms in \<open>auto simp: wf_subscription_def intro!: labelsSubset_refl exI[where x = "p_Attributes _"]\<close>)
  then show ?thesis by simp
qed

lemma subscription_message_merge:
  assumes "wf_subscription current" "wf_subscription desired"
  shows "subscription_message desired (echo_subscription (mergeSubscription current desired))"
  unfolding mergeSubscription_def
proof (rule subscription_message_echo)
  show "labelsSubset (s_Labels desired) (mergeLabels (s_Labels current) (s_Labels desired))"
    using assms by (simp add: wf_subscription_def labelsSubset_merge)
next
  fix d assume d: "s_Push desired = Some d"
  then have wf: "wf_map (p_Attributes d)" using assms(2) by (simp add: wf_subscription_def)
  show "\<exists>attrs. (case (s_Push desired, s_Push current) of
        (Some dp, Some cp) \<Rightarrow> Some (dp\<lparr>p_Attributes := mergeLabels (p_Attributes cp) (p_Attributes dp)\<rparr>)
      | _ \<Rightarrow> s_Push desired) = Some (d\<lparr>p_Attributes := attrs\<rparr>) \<and> labelsSubset (p_Attributes d) attrs"
  proof (cases "s_Push current")
    case None
    then show ?thesis using d wf labelsSubset_refl by (auto intro!: exI[where x = "p_Attributes d"])
  next
    case (Some cp)
    then have "wf_map (p_Attributes cp)" using assms(1) by (simp add: wf_subscription_def)
    then show ?thesis using d wf Some labelsSubset_merge by auto
  qed
qed

section \<open>What \<open>ensureSubscription\<close> emits and touches\<close>

fun subscription_event :: "event \<Rightarrow> bool" where
  "subscription_event (Log l m a) = True"
| "subscription_event (CallGetSubscription n) = True"
| "subscription_event (CallCreateSubscription s) = True"
| "subscription_event (CallUpdateSubscription s ps) = True"
| "subscription_event _ = False"

lemma emits_warnImmutable:
  assumes "\<And>l m a. P (Log l m a)" "emits P w v"
  shows "emits P w (fold (warnImmutable n) ds v)"
  using assms(2)
proof (induction ds arbitrary: v)
  case (Cons d ds)
  then show ?case by (simp add: warnImmutable_def emits_slog_after assms(1))
qed simp

lemma warnImmutable_fold_simps [simp]:
  "pubsub_state (fold (warnImmutable n) ds w) = pubsub_state w"
  "storage_state (fold (warnImmutable n) ds w) = storage_state w"
  "files (fold (warnImmutable n) ds w) = files w"
  by (induction ds arbitrary: w) (auto simp: warnImmutable_def)

lemma only_pubsub_warnImmutable [simp]:
  "only_pubsub w (fold (warnImmutable n) ds v) \<longleftrightarrow> only_pubsub w v"
  "only_pubsub (fold (warnImmutable n) ds v) w \<longleftrightarrow> only_pubsub v w"
  by (simp_all add: only_pubsub_def)

lemma ensureSubscription_emits:
  assumes "ensureSubscription ps opts topicName sub strategy w = (r, w')"
    and "\<And>l m a. P (Log l m a)" "\<And>n. P (CallGetSubscription n)"
    and "\<not> DryRun opts \<Longrightarrow> (\<And>s. P (CallCreateSubscription s))"
    and "\<not> DryRun opts \<Longrightarrow> strategy \<noteq> ''create'' \<Longrightarrow> (\<And>s msk. P (CallUpdateSubscription s msk))"
  shows "emits P w w'"
proof -
  have get: "on_pubsub (CallGetSubscription n) f v = (x, v') \<Longrightarrow> emits P v v'" for n f v x v'
    by (rule emits_on_pubsub) (simp_all add: assms)
  have create: "\<not> DryRun opts \<Longrightarrow> on_pubsub (CallCreateSubscription s) f v = (x, v') \<Longrightarrow> emits P v v'" for s f v x v'
    by (rule emits_on_pubsub) (simp_all add: assms)
  have update: "\<not> DryRun opts \<Longrightarrow> strategy \<noteq> ''create'' \<Longrightarrow>
      applyPaths paths (updateSubscription_mask ps d) (warnSubscription_unsupported n) v = (x, v') \<Longrightarrow> emits P v v'"
    for paths d n v x v'
    by (erule applyPaths_emits)
       (auto simp: updateSubscription_mask_def warnSubscription_unsupported_def assms elim: emits_on_pubsub[rotated])
  have log: "emits P u (slog l m a v)" if "emits P u v" for u l m a v
    using that assms(2) by (rule emits_slog_after)
  have imm: "emits P u (fold (warnImmutable n) ds v)" if "emits P u v" for u n ds v
    using assms(2) that by (rule emits_warnImmutable)
  obtain x w1 where g: "on_pubsub (CallGetSubscription (sc_Name sub)) (GetSubscription ps (sc_Name sub)) w = (x, w1)"
    by (cases "on_pubsub (CallGetSubscription (sc_Name sub)) (GetSubscription ps (sc_Name sub)) w")
  note w1 = get[OF g]
  show ?thesis
    using assms(1) g
    by (auto simp: ensureSubscription_def Let_def split: sum.splits if_splits
        intro!: w1 log imm intro: get emits_trans[rotated, OF create] emits_trans[rotated, OF update])
qed

lemma ensureSubscription_only_pubsub:
  assumes "ensureSubscription ps opts topicName sub strategy w = (r, w')"
  shows "only_pubsub w w'"
proof -
  have update: "applyPaths paths (updateSubscription_mask ps d) (warnSubscription_unsupported n) v = (x, v') \<Longrightarrow> only_pubsub v v'"
    for paths d n v x v'
    by (erule applyPaths_only_pubsub)
       (auto simp: updateSubscription_mask_def warnSubscription_unsupported_def intro: only_pubsub_on_pubsub)
  show ?thesis
    using assms
    by (auto simp: ensureSubscription_def Let_def split: sum.splits prod.splits if_splits
        dest!: only_pubsub_on_pubsub update intro: only_pubsub_trans)
qed

section \<open>Building a subscription from a valid configuration\<close>

lemma duration_ok_built:
  assumes "duration_ok lo hi s"
  obtains d where "parse_or_wrap what s = Inr d" "ParseDuration s = Some d" "duration_fits d" "d \<le> max 0 hi"
proof -
  from assms obtain d where "ParseDuration s = Some d" using duration_ok_parses by blast
  moreover have "d \<le> max 0 hi" using assms calculation by (auto simp: duration_ok_def)
  ultimately show ?thesis
    using that duration_ok_fits[OF assms] by (simp add: parse_or_wrap_def)
qed

lemma buildExpiration_ok:
  assumes "t = ExpirationNever \<or> duration_ok lo hi t"
  obtains set ttl where "buildExpiration t = Inr (set, ttl)" "duration_fits ttl"
proof (cases "t = [] \<or> t = ExpirationNever")
  case True
  then show ?thesis using that[of "t \<noteq> []" 0] by (auto simp: buildExpiration_def ExpirationNever_def duration_fits_def)
next
  case False
  then obtain d where "parse_or_wrap ''expiration_ttl'' t = Inr d" "duration_fits d"
    using assms duration_ok_built by blast
  then show ?thesis using that[of True d] False by (simp add: buildExpiration_def)
qed

lemma buildRetry_ok:
  assumes "retry_ok rt"
  obtains r where "buildRetry rt = Inr r"
    "case r of None \<Rightarrow> True | Some r \<Rightarrow> duration_fits (r_MinimumBackoff r) \<and> duration_fits (r_MaximumBackoff r)"
proof (cases rt)
  case None
  then show ?thesis using that[of None] by (simp add: buildRetry_def)
next
  case (Some c)
  then have ok: "duration_ok 0 maxRetryBackoff (rc_MinimumBackoff c)" "duration_ok 0 maxRetryBackoff (rc_MaximumBackoff c)"
    using assms by (simp_all add: retry_ok_def)
  obtain a where a: "parse_or_wrap ''retry.minimum_backoff'' (rc_MinimumBackoff c) = Inr a" "duration_fits a"
    using duration_ok_built[OF ok(1)] by metis
  obtain b where b: "parse_or_wrap ''retry.maximum_backoff'' (rc_MaximumBackoff c) = Inr b" "duration_fits b"
    using duration_ok_built[OF ok(2)] by metis
  show ?thesis
    using that[of "Some \<lparr>r_MinimumBackoff = a, r_MaximumBackoff = b\<rparr>"] a b Some by (simp add: buildRetry_def)
qed

lemma buildSubscription_ok:
  assumes ok: "subscription_ok sub" and topic: "CHR ''/'' \<notin> set topicName"
    and dl: "\<And>d. sc_DeadLetter sub = Some d \<Longrightarrow> CHR ''/'' \<notin> set (dc_Topic d)"
  obtains d where "buildSubscription topicName sub = Inr d" "sendable d"
    "s_Name d = sc_Name sub" "s_Topic d = topicName" "s_Labels d = sc_Labels sub"
    "s_Push d = buildPushConfig sub"
    "map_option d_Topic (s_DeadLetter d) = map_option dc_Topic (sc_DeadLetter sub)"
proof -
  have ack: "duration_ok minAckDeadline maxAckDeadline (sc_AckDeadline sub)" "whole_seconds (sc_AckDeadline sub)"
    and ret: "duration_ok minMessageRetention maxMessageRetention (sc_MessageRetention sub)"
    and ex: "sc_ExpirationTTL sub = ExpirationNever \<or> duration_ok minExpirationTTL maxExpirationTTL (sc_ExpirationTTL sub)"
    and rt: "retry_ok (sc_Retry sub)" and name: "CHR ''/'' \<notin> set (sc_Name sub)"
    using ok resource_name_no_slash by (simp_all add: subscription_ok_def)
  obtain a where a: "parse_or_wrap ''ack_deadline'' (sc_AckDeadline sub) = Inr a"
    "ParseDuration (sc_AckDeadline sub) = Some a" "duration_fits a" "a \<le> max 0 maxAckDeadline"
    using duration_ok_built[OF ack(1)] by metis
  obtain m where m: "parse_or_wrap ''message_retention'' (sc_MessageRetention sub) = Inr m" "duration_fits m"
    using duration_ok_built[OF ret] by metis
  obtain set ttl where e: "buildExpiration (sc_ExpirationTTL sub) = Inr (set, ttl)" "duration_fits ttl"
    using buildExpiration_ok[OF ex] by metis
  obtain r where r: "buildRetry (sc_Retry sub) = Inr r"
    "case r of None \<Rightarrow> True | Some r \<Rightarrow> duration_fits (r_MinimumBackoff r) \<and> duration_fits (r_MaximumBackoff r)"
    using buildRetry_ok[OF rt] by metis
  have secs: "a mod Second = 0" "a div Second < 2 ^ 31"
    using a ack(2) by (auto simp: whole_seconds_def limit_defs)
  show ?thesis
    using that a(1,3) m e r secs name topic dl
    by (cases "sc_DeadLetter sub") (simp_all add: buildSubscription_def sendable_def)
qed

end
