(* ===== verification/PubSub_Section.thy ===== *)
theory PubSub_Section
  imports Subscriptions
begin

text \<open>
  The Pub/Sub section of \<open>internal/provisioner/provisioner.go\<close>: every topic, then every
  subscription. The locale \<open>pubsub_endpoint\<close> is the contract of a \<open>PubSubAdmin\<close> the
  section relies on, on the view of an endpoint as two tables, topics and subscriptions by
  short name; what one pass leaves behind, and that a second pass at most asks again for
  fields the endpoint does not support, is proved once inside it.
\<close>

definition countSubscriptions :: "TopicCfg list \<Rightarrow> nat" where
  "countSubscriptions topics = fold (\<lambda>t n. n + length (tc_Subscriptions t)) topics 0"

definition provisionTopic ::
    "'p PubSubAdmin \<Rightarrow> Options \<Rightarrow> string \<Rightarrow> TopicCfg \<Rightarrow> ('p, 'q, 'f) world
     \<Rightarrow> go_error option \<times> ('p, 'q, 'f) world" where
  "provisionTopic ps opts strategy0 topic w =
     wrap_result (''provisioning topic '' @ quote (tc_Name topic) @ '': '')
       (ensureTopic ps opts topic (EffectiveStrategy [tc_Strategy topic, strategy0]) w)"

definition provisionSubscription ::
    "'p PubSubAdmin \<Rightarrow> Options \<Rightarrow> string \<Rightarrow> TopicCfg \<Rightarrow> SubscriptionCfg \<Rightarrow> ('p, 'q, 'f) world
     \<Rightarrow> go_error option \<times> ('p, 'q, 'f) world" where
  "provisionSubscription ps opts strategy0 topic sub w =
     wrap_result (''provisioning subscription '' @ quote (sc_Name sub) @ '' on topic '' @ quote (tc_Name topic) @ '': '')
       (ensureSubscription ps opts (tc_Name topic) sub (EffectiveStrategy [sc_Strategy sub, strategy0]) w)"

definition ProvisionPubSub ::
    "'p PubSubAdmin \<Rightarrow> Options \<Rightarrow> Config \<Rightarrow> ('p, 'q, 'f) world \<Rightarrow> go_error option \<times> ('p, 'q, 'f) world" where
  "ProvisionPubSub ps opts cfg w =
     (let topics = ps_Topics (cfg_PubSub cfg) in
      if topics = [] then (None, slog Debug ''No topics configured, skipping Pub/Sub section'' [] w)
      else
        let w1 = slog Info ''Provisioning Pub/Sub''
              [(''topics'', AInt (int (length topics))),
               (''subscriptions'', AInt (int (countSubscriptions topics)))] w in
        case for_each (provisionTopic ps opts (cfg_Strategy cfg)) topics w1 of
          (Some err, w2) \<Rightarrow> (Some err, w2)
        | (None, w2) \<Rightarrow>
            for_each (\<lambda>topic. for_each (provisionSubscription ps opts (cfg_Strategy cfg) topic) (tc_Subscriptions topic))
              topics w2)"

section \<open>The contract of an endpoint\<close>

definition sendable_topic :: "Topic \<Rightarrow> bool" where
  "sendable_topic t \<longleftrightarrow>
     CHR ''/'' \<notin> set (t_Name t) \<and> duration_fits (t_MessageRetention t) \<and> wf_map (t_Labels t)"

definition creatable :: "(string \<Rightarrow> Topic option) \<Rightarrow> Subscription \<Rightarrow> bool" where
  "creatable topics s \<longleftrightarrow>
     topics (s_Topic s) \<noteq> None
     \<and> (case s_DeadLetter s of None \<Rightarrow> True | Some d \<Rightarrow> topics (d_Topic d) \<noteq> None)"

text \<open>
  What a server stores of a subscription it creates: every field the request sets, as the
  conversion sends it; fields the request leaves unset are the server's to fill in (the
  default acknowledgement deadline, retention, expiration, labels and push attributes of its own).
\<close>

definition filled_in :: "Subscription \<Rightarrow> Subscription \<Rightarrow> bool" where
  "filled_in s live \<longleftrightarrow>
     s_Name live = s_Name s \<and> s_Topic live = s_Topic s \<and> s_Filter live = s_Filter s
     \<and> (0 < s_AckDeadline s \<longrightarrow> s_AckDeadline live = s_AckDeadline s)
     \<and> (0 < s_MessageRetention s \<longrightarrow> s_MessageRetention live = s_MessageRetention s)
     \<and> DerefBool (s_RetainAckedMessages live) = DerefBool (s_RetainAckedMessages s)
     \<and> DerefBool (s_EnableMessageOrdering live) = DerefBool (s_EnableMessageOrdering s)
     \<and> DerefBool (s_EnableExactlyOnceDelivery live) = DerefBool (s_EnableExactlyOnceDelivery s)
     \<and> (s_ExpirationSet s \<longrightarrow> s_ExpirationSet live \<and> s_ExpirationTTL live = s_ExpirationTTL s)
     \<and> map_of (s_Labels s) \<subseteq>\<^sub>m map_of (s_Labels live)
     \<and> (case s_Push s of None \<Rightarrow> True
        | Some p \<Rightarrow> \<exists>attrs. s_Push live = Some (echo_push (p\<lparr>p_Attributes := attrs\<rparr>))
            \<and> map_of (p_Attributes p) \<subseteq>\<^sub>m map_of attrs)
     \<and> (s_DeadLetter s \<noteq> None \<longrightarrow> s_DeadLetter live = s_DeadLetter s)
     \<and> (s_Retry s \<noteq> None \<longrightarrow> s_Retry live = s_Retry s)"

lemma labelsSubset_map_le: "wf_map want \<Longrightarrow> map_of want \<subseteq>\<^sub>m map_of got \<Longrightarrow> labelsSubset want got"
  by (auto simp: labelsSubset_iff map_le_def map_get_def dom_def)

lemma filled_in_echo: "filled_in s (echo_subscription s)"
proof -
  have "\<exists>attrs. echo_push p = echo_push (p\<lparr>p_Attributes := attrs\<rparr>) \<and> map_of (p_Attributes p) \<subseteq>\<^sub>m map_of attrs" for p
    by (rule exI[of _ "p_Attributes p"]) simp
  then show ?thesis by (simp add: filled_in_def echo_subscription_def DerefBool_def split: option.split)
qed

lemma filled_in_settled:
  assumes "filled_in d live" "wf_subscription d"
  shows "diffSubscription live d = []"
proof -
  have drift: "\<not> boolDrift a b" if "DerefBool a = DerefBool b" for a b
    using that by (auto simp: boolDrift_def DerefBool_def)
  have labels: "labelsSubset (s_Labels d) (s_Labels live)"
    using assms labelsSubset_map_le by (simp add: filled_in_def wf_subscription_def)
  have push: "pushConfigEqual (s_Push live) p" if p: "s_Push d = Some p" for p
  proof -
    from assms(1) p obtain attrs where "s_Push live = Some (echo_push (p\<lparr>p_Attributes := attrs\<rparr>))"
      and "map_of (p_Attributes p) \<subseteq>\<^sub>m map_of attrs" by (auto simp: filled_in_def)
    then show ?thesis using pushConfigEqual_echo labelsSubset_map_le assms(2) p by (simp add: wf_subscription_def)
  qed
  have policies: "s_DeadLetter d = None \<or> s_DeadLetter live = s_DeadLetter d" "s_Retry d = None \<or> s_Retry live = s_Retry d"
    using assms(1) unfolding filled_in_def by blast+
  have differs: "\<not> subscription_differs d p live" if "p \<in> set subscription_fields" for p
    using that assms(1) drift labels push policies unfolding subscription_fields_def
    by (simp only: list.set insert_iff empty_iff, elim disjE FalseE) (simp_all add: filled_in_def subscription_differs_def split: option.split)
  then show ?thesis by (simp add: diffSubscription_filter filter_empty_conv)
qed

lemma diffSubscription_echo: "wf_subscription d \<Longrightarrow> diffSubscription (echo_subscription d) d = []"
  using filled_in_echo by (rule filled_in_settled)

locale pubsub_endpoint =
  fixes ps :: "'p PubSubAdmin"
    and ok :: "'p \<Rightarrow> bool"
    and supported :: "'p \<Rightarrow> string \<Rightarrow> bool"
    and topics :: "'p \<Rightarrow> string \<Rightarrow> Topic option"
    and subs :: "'p \<Rightarrow> string \<Rightarrow> Subscription option"
  assumes get_topic: "ok st \<Longrightarrow>
      GetTopic ps n st = (case topics st n of None \<Rightarrow> Inl ErrNotFound | Some t \<Rightarrow> Inr t, st)"
    and get_subscription: "ok st \<Longrightarrow>
      GetSubscription ps n st = (case subs st n of None \<Rightarrow> Inl ErrNotFound | Some s \<Rightarrow> Inr s, st)"
    and topic_labels: "ok st \<Longrightarrow> topics st n = Some t \<Longrightarrow> wf_map (t_Labels t)"
    and subscription_maps: "ok st \<Longrightarrow> subs st n = Some s \<Longrightarrow> wf_subscription s"
    and create_topic: "\<lbrakk>ok st; sendable_topic t; topics st (t_Name t) = None; CreateTopic ps t st = (r, st')\<rbrakk> \<Longrightarrow>
      r = None \<and> ok st' \<and> supported st' = supported st
      \<and> topics st' = (topics st)(t_Name t \<mapsto> t) \<and> subs st' = subs st"
    and update_topic: "\<lbrakk>ok st; sendable_topic t; topics st (t_Name t) = Some cur; list_all (supported st) msk;
        UpdateTopic ps t msk st = (r, st')\<rbrakk> \<Longrightarrow>
      r = None \<and> ok st' \<and> supported st' = supported st
      \<and> topics st' = (topics st)(t_Name t \<mapsto> fold (put_topic t) msk cur) \<and> subs st' = subs st"
    and refuse_topic: "\<lbrakk>ok st; \<not> list_all (supported st) msk; UpdateTopic ps t msk st = (r, st')\<rbrakk> \<Longrightarrow>
      (\<exists>e. r = Some e \<and> IsUnsupportedField e) \<and> ok st' \<and> supported st' = supported st
      \<and> topics st' = topics st \<and> subs st' = subs st"
    and create_subscription: "\<lbrakk>ok st; sendable s; wf_subscription s; subs st (s_Name s) = None;
        creatable (topics st) s; CreateSubscription ps s st = (r, st')\<rbrakk> \<Longrightarrow>
      r = None \<and> ok st' \<and> supported st' = supported st
      \<and> topics st' = topics st
      \<and> (\<forall>n. n \<noteq> s_Name s \<longrightarrow> subs st' n = subs st n)
      \<and> (\<exists>live. subs st' (s_Name s) = Some live \<and> filled_in s live)"
    and update_subscription: "\<lbrakk>ok st; sendable s; wf_subscription s; subs st (s_Name s) = Some live;
        list_all (supported st) msk; UpdateSubscription ps s msk st = (r, st')\<rbrakk> \<Longrightarrow>
      r = None \<and> ok st' \<and> supported st' = supported st \<and> topics st' = topics st
      \<and> subs st' = (subs st)(s_Name s \<mapsto> fold (put_subscription (echo_subscription s)) msk live)"
    and refuse_subscription: "\<lbrakk>ok st; \<not> list_all (supported st) msk; UpdateSubscription ps s msk st = (r, st')\<rbrakk> \<Longrightarrow>
      (\<exists>e. r = Some e \<and> IsUnsupportedField e) \<and> ok st' \<and> supported st' = supported st
      \<and> topics st' = topics st \<and> subs st' = subs st"
begin

text \<open>
  The states of one update of topic \<open>m\<close>: everything but that topic is as in the tables
  \<open>T\<close> and \<open>S\<close> the update started from.
\<close>

definition topic_ready ::
    "Topic \<Rightarrow> Topic \<Rightarrow> (string \<Rightarrow> Topic option) \<Rightarrow> (string \<Rightarrow> Subscription option) \<Rightarrow> ('p, 'q, 'f) world \<Rightarrow> bool" where
  "topic_ready desired m T S w \<longleftrightarrow>
     ok (pubsub_state w) \<and> sendable_topic m \<and> topic_message desired m
     \<and> topics (pubsub_state w) (t_Name m) \<noteq> None
     \<and> (\<forall>n. n \<noteq> t_Name m \<longrightarrow> topics (pubsub_state w) n = T n) \<and> subs (pubsub_state w) = S"

definition subscription_ready ::
    "Subscription \<Rightarrow> Subscription \<Rightarrow> (string \<Rightarrow> Topic option) \<Rightarrow> (string \<Rightarrow> Subscription option) \<Rightarrow> ('p, 'q, 'f) world \<Rightarrow> bool" where
  "subscription_ready desired m T S w \<longleftrightarrow>
     ok (pubsub_state w) \<and> sendable m \<and> wf_subscription m \<and> subscription_message desired (echo_subscription m)
     \<and> subs (pubsub_state w) (s_Name m) \<noteq> None
     \<and> (\<forall>n. n \<noteq> s_Name m \<longrightarrow> subs (pubsub_state w) n = S n) \<and> topics (pubsub_state w) = T"

end

text \<open>The paths warned about with a given message.\<close>

fun warning_field :: "string \<Rightarrow> event \<Rightarrow> string list" where
  "warning_field msg (Log Warn m [a, (f, AStr p), e]) = (if m = msg then [p] else [])"
| "warning_field msg _ = []"

definition warned_fields :: "string \<Rightarrow> ('p, 'q, 'f) world \<Rightarrow> string list" where
  "warned_fields msg w = concat (map (warning_field msg) (trace w))"

definition topic_warning :: string where
  "topic_warning = ''Topic field not supported by this Pub/Sub endpoint, leaving it unchanged''"

definition subscription_warning :: string where
  "subscription_warning = ''Subscription field not supported by this Pub/Sub endpoint, leaving it unchanged''"

lemma warned_fields_simps [simp]:
  "warned_fields msg (slog l m a w) = warned_fields msg w @ warning_field msg (Log l m a)"
  "warned_fields msg (emit e w) = warned_fields msg w @ warning_field msg e"
  "warned_fields msg (w\<lparr>pubsub_state := s\<rparr>) = warned_fields msg w"
  by (simp_all add: warned_fields_def)

lemma warnTopic_unsupported_simps [simp]:
  "pubsub_state (warnTopic_unsupported n p e w) = pubsub_state w"
  "warned_fields topic_warning (warnTopic_unsupported n p e w) = warned_fields topic_warning w @ [p]"
  by (simp_all add: warnTopic_unsupported_def topic_warning_def)

lemma warnSubscription_unsupported_simps [simp]:
  "pubsub_state (warnSubscription_unsupported n p e w) = pubsub_state w"
  "warned_fields subscription_warning (warnSubscription_unsupported n p e w)
     = warned_fields subscription_warning w @ [p]"
  by (simp_all add: warnSubscription_unsupported_def subscription_warning_def)

context pubsub_endpoint
begin

lemma topic_ready_update:
  assumes rdy: "topic_ready desired m T S w" and run: "updateTopic_mask ps m msk w = (r, w')"
  shows "topic_ready desired m T S w' \<and> supported (pubsub_state w') = supported (pubsub_state w)
    \<and> warned_fields topic_warning w' = warned_fields topic_warning w
    \<and> (if list_all (supported (pubsub_state w)) msk
       then r = None \<and> the (topics (pubsub_state w') (t_Name m))
              = fold (put_topic m) msk (the (topics (pubsub_state w) (t_Name m)))
       else (\<exists>e. r = Some e \<and> IsUnsupportedField e) \<and> topics (pubsub_state w') = topics (pubsub_state w))"
proof -
  obtain st' where call: "UpdateTopic ps m msk (pubsub_state w) = (r, st')"
    and w': "w' = (emit (CallUpdateTopic m msk) w)\<lparr>pubsub_state := st'\<rparr>"
    using run by (auto simp: updateTopic_mask_def on_pubsub_eq prod_eq_iff)
  have pre: "ok (pubsub_state w)" "sendable_topic m" using rdy by (simp_all add: topic_ready_def)
  obtain cur where cur: "topics (pubsub_state w) (t_Name m) = Some cur" using rdy by (auto simp: topic_ready_def)
  show ?thesis
  proof (cases "list_all (supported (pubsub_state w)) msk")
    case True
    then show ?thesis
      using update_topic[OF pre cur True call] rdy w' cur by (simp add: topic_ready_def)
  next
    case False
    then show ?thesis
      using refuse_topic[OF pre(1) False call] rdy w' by (simp add: topic_ready_def)
  qed
qed

lemma subscription_ready_update:
  assumes rdy: "subscription_ready desired m T S w" and run: "updateSubscription_mask ps m msk w = (r, w')"
  shows "subscription_ready desired m T S w' \<and> supported (pubsub_state w') = supported (pubsub_state w)
    \<and> warned_fields subscription_warning w' = warned_fields subscription_warning w
    \<and> (if list_all (supported (pubsub_state w)) msk
       then r = None \<and> the (subs (pubsub_state w') (s_Name m))
              = fold (put_subscription (echo_subscription m)) msk (the (subs (pubsub_state w) (s_Name m)))
       else (\<exists>e. r = Some e \<and> IsUnsupportedField e) \<and> subs (pubsub_state w') = subs (pubsub_state w))"
proof -
  obtain st' where call: "UpdateSubscription ps m msk (pubsub_state w) = (r, st')"
    and w': "w' = (emit (CallUpdateSubscription m msk) w)\<lparr>pubsub_state := st'\<rparr>"
    using run by (auto simp: updateSubscription_mask_def on_pubsub_eq prod_eq_iff)
  have pre: "ok (pubsub_state w)" "sendable m" "wf_subscription m"
    using rdy by (simp_all add: subscription_ready_def)
  obtain cur where cur: "subs (pubsub_state w) (s_Name m) = Some cur"
    using rdy by (auto simp: subscription_ready_def)
  show ?thesis
  proof (cases "list_all (supported (pubsub_state w)) msk")
    case True
    then show ?thesis
      using update_subscription[OF pre cur True call] rdy w' cur by (simp add: subscription_ready_def)
  next
    case False
    then show ?thesis
      using refuse_subscription[OF pre(1) False call] rdy w' by (simp add: subscription_ready_def)
  qed
qed

end

sublocale pubsub_endpoint \<subseteq> topic_mask: reconciled_endpoint
  "updateTopic_mask ps m" "warnTopic_unsupported (t_Name m)" "topic_ready desired m T S"
  "\<lambda>w. supported (pubsub_state w)" "\<lambda>w. the (topics (pubsub_state w) (t_Name m))" "put_topic m"
  "warned_fields topic_warning" "topic_differs desired"
  for m desired T S
proof (unfold_locales, goal_cases)
  case (1 w msk r w')
  then show ?case using topic_ready_update[OF 1(1) 1(4)] by simp
next
  case (2 w msk r w')
  then show ?case using topic_ready_update[OF 2(1) 2(3)] by simp
next
  case (3 w msk r w')
  then show ?case using topic_ready_update[OF 3] by simp
next
  case (6 w p v)
  then show ?case by (simp add: topic_ready_def put_topic_settles)
qed (simp_all add: topic_ready_def put_topic_keeps)

sublocale pubsub_endpoint \<subseteq> subscription_mask: reconciled_endpoint
  "updateSubscription_mask ps m" "warnSubscription_unsupported (s_Name m)" "subscription_ready desired m T S"
  "\<lambda>w. supported (pubsub_state w)" "\<lambda>w. the (subs (pubsub_state w) (s_Name m))"
  "put_subscription (echo_subscription m)"
  "warned_fields subscription_warning" "subscription_differs desired"
  for m desired T S
proof (unfold_locales, goal_cases)
  case (1 w msk r w')
  then show ?case using subscription_ready_update[OF 1(1) 1(4)] by simp
next
  case (2 w msk r w')
  then show ?case using subscription_ready_update[OF 2(1) 2(3)] by simp
next
  case (3 w msk r w')
  then show ?case using subscription_ready_update[OF 3] by simp
next
  case (6 w p v)
  then show ?case by (simp add: subscription_ready_def put_subscription_settles)
qed (simp_all add: subscription_ready_def put_subscription_keeps)

section \<open>One resource\<close>

text \<open>What reconciling leaves of a resource: a live one under \<open>create\<close> is kept, under
  \<open>update\<close> only what the endpoint does not support still differs.\<close>

definition topic_kept :: "Topic \<Rightarrow> Topic \<Rightarrow> Topic \<Rightarrow> bool" where
  "topic_kept desired cur cur' \<longleftrightarrow>
     t_Name cur' = t_Name cur
     \<and> (\<forall>k. k \<notin> fst ` set (t_Labels desired) \<longrightarrow> map_of (t_Labels cur') k = map_of (t_Labels cur) k)"

definition subscription_kept :: "Subscription \<Rightarrow> Subscription \<Rightarrow> Subscription \<Rightarrow> bool" where
  "subscription_kept desired cur cur' \<longleftrightarrow>
     s_Name cur' = s_Name cur \<and> s_Topic cur' = s_Topic cur \<and> s_Filter cur' = s_Filter cur
     \<and> s_EnableMessageOrdering cur' = s_EnableMessageOrdering cur
     \<and> (\<forall>k. k \<notin> fst ` set (s_Labels desired) \<longrightarrow> map_of (s_Labels cur') k = map_of (s_Labels cur) k)"

lemma topic_kept_refl [simp]: "topic_kept d c c"
  by (simp add: topic_kept_def)

lemma subscription_kept_refl [simp]: "subscription_kept d c c"
  by (simp add: subscription_kept_def)

lemma topic_kept_fold:
  assumes "wf_map (t_Labels cur)" "wf_map (t_Labels desired)"
  shows "topic_kept desired cur
    (fold (put_topic (desired\<lparr>t_Labels := mergeLabels (t_Labels cur) (t_Labels desired)\<rparr>)) ps cur)"
proof -
  have "topic_kept desired cur (fold (put_topic (desired\<lparr>t_Labels := mergeLabels (t_Labels cur) (t_Labels desired)\<rparr>)) ps c)"
    if "topic_kept desired cur c" for c
    using that mergeLabels_unmanaged[OF assms]
    by (induction ps arbitrary: c) (auto simp: topic_kept_def put_topic_def)
  then show ?thesis by simp
qed

lemma subscription_kept_fold:
  assumes "wf_subscription cur" "wf_subscription desired"
  shows "subscription_kept desired cur
    (fold (put_subscription (echo_subscription (mergeSubscription cur desired))) ps cur)"
proof -
  have m: "s_Labels (echo_subscription (mergeSubscription cur desired)) = mergeLabels (s_Labels cur) (s_Labels desired)"
    by (simp add: echo_subscription_def mergeSubscription_def)
  have wf: "wf_map (s_Labels cur)" "wf_map (s_Labels desired)" using assms by (simp_all add: wf_subscription_def)
  have step: "subscription_kept desired cur (put_subscription (echo_subscription (mergeSubscription cur desired)) p c)"
    if "subscription_kept desired cur c" for p c
    using that mergeLabels_unmanaged[OF wf] m by (simp add: subscription_kept_def put_subscription_def)
  have "subscription_kept desired cur (fold (put_subscription (echo_subscription (mergeSubscription cur desired))) ps c)"
    if "subscription_kept desired cur c" for c
    using that by (induction ps arbitrary: c) (simp_all add: step)
  then show ?thesis by simp
qed

definition topic_outcome ::
    "(string \<Rightarrow> bool) \<Rightarrow> string \<Rightarrow> Topic \<Rightarrow> Topic option \<Rightarrow> Topic option \<Rightarrow> bool" where
  "topic_outcome can strategy desired before after \<longleftrightarrow>
     (case before of
        None \<Rightarrow> after = Some desired
      | Some cur \<Rightarrow>
          if strategy = ''create'' then after = Some cur
          else \<exists>cur'. after = Some cur' \<and> topic_kept desired cur cur'
                 \<and> diffTopic cur' desired = filter (\<lambda>p. \<not> can p) (diffTopic cur desired))"

definition subscription_outcome ::
    "(string \<Rightarrow> bool) \<Rightarrow> string \<Rightarrow> Subscription \<Rightarrow> Subscription option \<Rightarrow> Subscription option \<Rightarrow> bool" where
  "subscription_outcome can strategy desired before after \<longleftrightarrow>
     (case before of
        None \<Rightarrow> (\<exists>live. after = Some live \<and> filled_in desired live)
      | Some cur \<Rightarrow>
          if strategy = ''create'' then after = Some cur
          else \<exists>cur'. after = Some cur' \<and> subscription_kept desired cur cur'
                 \<and> diffSubscription cur' desired = filter (\<lambda>p. \<not> can p) (diffSubscription cur desired))"

lemma buildTopic_Name: "buildTopic t = Inr d \<Longrightarrow> t_Name d = tc_Name t \<and> t_Labels d = tc_Labels t"
  by (auto simp: buildTopic_def split: sum.splits)

lemma buildSubscription_Name:
  "buildSubscription tn s = Inr d \<Longrightarrow> s_Name d = sc_Name s \<and> s_Topic d = tn"
  by (auto simp: buildSubscription_def split: sum.splits)

lemma sendable_topic_merge:
  "sendable_topic d \<Longrightarrow> wf_map current \<Longrightarrow> sendable_topic (d\<lparr>t_Labels := mergeLabels current (t_Labels d)\<rparr>)"
  by (simp add: sendable_topic_def wf_mergeLabels)

lemma sendable_merge: "sendable d \<Longrightarrow> sendable (mergeSubscription cur d)"
  by (simp add: sendable_def mergeSubscription_def)

lemma wf_subscription_merge:
  "wf_subscription cur \<Longrightarrow> wf_subscription d \<Longrightarrow> wf_subscription (mergeSubscription cur d)"
  by (auto simp: wf_subscription_def mergeSubscription_def wf_mergeLabels split: option.splits)

context pubsub_endpoint
begin

lemma ensureTopic_effect:
  assumes ok: "ok (pubsub_state w)" and mode: "\<not> DryRun opts"
    and build: "buildTopic topic = Inr desired" "sendable_topic desired"
    and run: "ensureTopic ps opts topic strategy w = (r, w')"
  shows "r = None \<and> ok (pubsub_state w') \<and> supported (pubsub_state w') = supported (pubsub_state w)
    \<and> subs (pubsub_state w') = subs (pubsub_state w)
    \<and> (\<forall>n. n \<noteq> tc_Name topic \<longrightarrow> topics (pubsub_state w') n = topics (pubsub_state w) n)
    \<and> topic_outcome (supported (pubsub_state w)) strategy desired
        (topics (pubsub_state w) (tc_Name topic)) (topics (pubsub_state w') (tc_Name topic))"
proof -
  note name = buildTopic_Name[OF build(1)]
  let ?get = "CallGetTopic (tc_Name topic)"
  show ?thesis
  proof (cases "topics (pubsub_state w) (tc_Name topic)")
    case None
    then have g: "on_pubsub ?get (GetTopic ps (tc_Name topic)) w = (Inl ErrNotFound, (emit ?get w)\<lparr>pubsub_state := pubsub_state w\<rparr>)"
      using get_topic[OF ok] by (simp add: on_pubsub_eq)
    have "on_pubsub (CallCreateTopic desired) (CreateTopic ps desired)
        (slog Info ''Creating topic'' [(''topic'', AStr (tc_Name topic))]
          ((emit ?get w)\<lparr>pubsub_state := pubsub_state w\<rparr>)) = (r, w')"
      using run by (simp add: ensureTopic_def Let_def build g mode)
    then obtain st' where c: "CreateTopic ps desired (pubsub_state w) = (r, st')" "pubsub_state w' = st'"
      by (auto simp: on_pubsub_eq prod_eq_iff)
    show ?thesis using create_topic[OF ok build(2) _ c(1)] None c(2) name by (simp add: topic_outcome_def)
  next
    case (Some cur)
    then have g: "on_pubsub ?get (GetTopic ps (tc_Name topic)) w = (Inr cur, (emit ?get w)\<lparr>pubsub_state := pubsub_state w\<rparr>)"
      using get_topic[OF ok] by (simp add: on_pubsub_eq)
    show ?thesis
    proof (cases "strategy = ''create'' \<or> diffTopic cur desired = []")
      case True
      then show ?thesis
        using run Some ok by (auto simp: ensureTopic_def Let_def build g topic_outcome_def split: if_splits)
    next
      case False
      let ?m = "desired\<lparr>t_Labels := mergeLabels (t_Labels cur) (t_Labels desired)\<rparr>"
      define v where "v = slog Info ''Updating topic'' [(''topic'', AStr (tc_Name topic)), (''fields'', AStrs (diffTopic cur desired))]
        ((emit ?get w)\<lparr>pubsub_state := pubsub_state w\<rparr>)"
      have wf: "wf_map (t_Labels cur)" using topic_labels[OF ok Some] .
      have v: "pubsub_state v = pubsub_state w" by (simp add: v_def)
      have rdy: "topic_ready desired ?m (topics (pubsub_state w)) (subs (pubsub_state w)) v"
        using ok build(2) name Some wf v topic_message_merge[OF wf, of desired] wf_mergeLabels[OF wf]
        by (simp add: topic_ready_def sendable_topic_def)
      have sent: "applyPaths (diffTopic cur desired) (updateTopic_mask ps ?m) (warnTopic_unsupported (t_Name ?m)) v = (r, w')"
        using run False by (simp add: ensureTopic_def Let_def build g mode v_def name)
      have eff: "r = None \<and> topic_ready desired ?m (topics (pubsub_state w)) (subs (pubsub_state w)) w'"
        "diffTopic (the (topics (pubsub_state w') (tc_Name topic))) desired
           = filter (\<lambda>p. \<not> supported (pubsub_state w) p) (diffTopic cur desired)"
        using topic_mask.reconcile_effect[OF rdy _ _ sent, of topic_fields] False v Some
        by (simp_all add: diffTopic_filter name)
      have kept: "topic_kept desired cur (the (topics (pubsub_state w') (tc_Name topic)))"
        using topic_mask.applyPaths_effect[OF rdy _ sent] False v Some build(2) topic_kept_fold[OF wf, of desired]
        by (simp add: name sendable_topic_def)
      have sup: "supported (pubsub_state w') = supported (pubsub_state w)"
        using topic_mask.applyPaths_supported[OF rdy sent] v by simp
      show ?thesis
        using eff sup Some False name kept by (auto simp: topic_ready_def topic_outcome_def)
    qed
  qed
qed

lemma ensureSubscription_effect:
  assumes ok: "ok (pubsub_state w)" and mode: "\<not> DryRun opts"
    and build: "buildSubscription tn sub = Inr desired" "sendable desired" "wf_subscription desired"
    and pre: "subs (pubsub_state w) (sc_Name sub) = None \<Longrightarrow> creatable (topics (pubsub_state w)) desired"
    and run: "ensureSubscription ps opts tn sub strategy w = (r, w')"
  shows "r = None \<and> ok (pubsub_state w') \<and> supported (pubsub_state w') = supported (pubsub_state w)
    \<and> topics (pubsub_state w') = topics (pubsub_state w)
    \<and> (\<forall>n. n \<noteq> sc_Name sub \<longrightarrow> subs (pubsub_state w') n = subs (pubsub_state w) n)
    \<and> subscription_outcome (supported (pubsub_state w)) strategy desired
        (subs (pubsub_state w) (sc_Name sub)) (subs (pubsub_state w') (sc_Name sub))"
proof -
  note name = buildSubscription_Name[OF build(1)]
  let ?get = "CallGetSubscription (sc_Name sub)"
  let ?w1 = "(emit ?get w)\<lparr>pubsub_state := pubsub_state w\<rparr>"
  show ?thesis
  proof (cases "subs (pubsub_state w) (sc_Name sub)")
    case None
    then have g: "on_pubsub ?get (GetSubscription ps (sc_Name sub)) w = (Inl ErrNotFound, ?w1)"
      using get_subscription[OF ok] by (simp add: on_pubsub_eq)
    have "on_pubsub (CallCreateSubscription desired) (CreateSubscription ps desired)
        (slog Info ''Creating subscription'' [(''subscription'', AStr (sc_Name sub)), (''topic'', AStr tn)] ?w1) = (r, w')"
      using run by (simp add: ensureSubscription_def Let_def build g mode)
    then obtain st' where c: "CreateSubscription ps desired (pubsub_state w) = (r, st')" "pubsub_state w' = st'"
      by (auto simp: on_pubsub_eq prod_eq_iff)
    show ?thesis
      using create_subscription[OF ok build(2,3) _ pre[OF None] c(1)] None c(2) name
      by (simp add: subscription_outcome_def)
  next
    case (Some cur)
    then have g: "on_pubsub ?get (GetSubscription ps (sc_Name sub)) w = (Inr cur, ?w1)"
      using get_subscription[OF ok] by (simp add: on_pubsub_eq)
    show ?thesis
    proof (cases "strategy = ''create'' \<or> diffSubscription cur desired = []")
      case True
      then show ?thesis
        using run Some ok by (auto simp: ensureSubscription_def Let_def build g subscription_outcome_def split: if_splits)
    next
      case False
      let ?m = "mergeSubscription cur desired"
      define v where "v = slog Info ''Updating subscription''
        [(''subscription'', AStr (sc_Name sub)), (''fields'', AStrs (diffSubscription cur desired))]
        (fold (warnImmutable (sc_Name sub)) (immutableDrift cur desired) ?w1)"
      have wf: "wf_subscription cur" using subscription_maps[OF ok Some] .
      have v: "pubsub_state v = pubsub_state w" and n: "s_Name ?m = sc_Name sub"
        using name by (simp_all add: v_def mergeSubscription_def)
      have rdy: "subscription_ready desired ?m (topics (pubsub_state w)) (subs (pubsub_state w)) v"
        using ok build(2,3) n Some wf v subscription_message_merge[OF wf build(3)]
        by (simp add: subscription_ready_def sendable_merge wf_subscription_merge)
      have sent: "applyPaths (diffSubscription cur desired) (updateSubscription_mask ps ?m)
          (warnSubscription_unsupported (s_Name ?m)) v = (r, w')"
        using run False by (simp add: ensureSubscription_def Let_def build g mode v_def n)
      have eff: "r = None \<and> subscription_ready desired ?m (topics (pubsub_state w)) (subs (pubsub_state w)) w'"
        "diffSubscription (the (subs (pubsub_state w') (sc_Name sub))) desired
           = filter (\<lambda>p. \<not> supported (pubsub_state w) p) (diffSubscription cur desired)"
        using subscription_mask.reconcile_effect[OF rdy _ _ sent, of subscription_fields] False v Some
        by (simp_all add: diffSubscription_filter n)
      have kept: "subscription_kept desired cur (the (subs (pubsub_state w') (sc_Name sub)))"
        using subscription_mask.applyPaths_effect[OF rdy _ sent] False v Some subscription_kept_fold[OF wf build(3)]
        by (simp add: n)
      have can: "supported (pubsub_state w') = supported (pubsub_state w)"
        using subscription_mask.applyPaths_supported[OF rdy sent] v by simp
      show ?thesis
        using eff can Some False n kept by (auto simp: subscription_ready_def subscription_outcome_def)
    qed
  qed
qed

end

section \<open>A whole pass\<close>

text \<open>A resource of the configuration is settled: it exists and, unless its strategy is
  \<open>create\<close>, differs at most where the endpoint takes no update.\<close>

definition topic_settled :: "(string \<Rightarrow> bool) \<Rightarrow> string \<Rightarrow> TopicCfg \<Rightarrow> Topic option \<Rightarrow> bool" where
  "topic_settled can strategy0 t live \<longleftrightarrow>
     (case (live, buildTopic t) of
        (Some cur, Inr desired) \<Rightarrow>
          EffectiveStrategy [tc_Strategy t, strategy0] = ''create''
          \<or> list_all (\<lambda>p. \<not> can p) (diffTopic cur desired)
      | _ \<Rightarrow> False)"

definition subscription_settled ::
    "(string \<Rightarrow> bool) \<Rightarrow> string \<Rightarrow> string \<Rightarrow> SubscriptionCfg \<Rightarrow> Subscription option \<Rightarrow> bool" where
  "subscription_settled can strategy0 tn s live \<longleftrightarrow>
     (case (live, buildSubscription tn s) of
        (Some cur, Inr desired) \<Rightarrow>
          EffectiveStrategy [sc_Strategy s, strategy0] = ''create''
          \<or> list_all (\<lambda>p. \<not> can p) (diffSubscription cur desired)
      | _ \<Rightarrow> False)"

definition subscription_pairs :: "TopicCfg list \<Rightarrow> (TopicCfg \<times> SubscriptionCfg) list" where
  "subscription_pairs topics = concat (map (\<lambda>t. map (Pair t) (tc_Subscriptions t)) topics)"

definition pubsub_settled ::
    "(string \<Rightarrow> bool) \<Rightarrow> Config \<Rightarrow> (string \<Rightarrow> Topic option) \<Rightarrow> (string \<Rightarrow> Subscription option) \<Rightarrow> bool" where
  "pubsub_settled can cfg topics subs \<longleftrightarrow>
     list_all (\<lambda>t. topic_settled can (cfg_Strategy cfg) t (topics (tc_Name t))) (ps_Topics (cfg_PubSub cfg))
     \<and> list_all (\<lambda>(t, s). subscription_settled can (cfg_Strategy cfg) (tc_Name t) s (subs (sc_Name s)))
         (subscription_pairs (ps_Topics (cfg_PubSub cfg)))"

lemma subscription_pairs_snd: "map (\<lambda>(t, s). sc_Name s) (subscription_pairs ts) = map sc_Name (all_subscriptions ts)"
  by (induction ts) (auto simp: subscription_pairs_def all_subscriptions_def)

lemma subscription_pairs_mem:
  "(t, s) \<in> set (subscription_pairs ts) \<Longrightarrow> t \<in> set ts \<and> s \<in> set (tc_Subscriptions t) \<and> s \<in> set (all_subscriptions ts)"
  by (auto simp: subscription_pairs_def all_subscriptions_def)

lemma diffTopic_self: "wf_map (t_Labels d) \<Longrightarrow> diffTopic d d = []"
  by (simp add: diffTopic_def labelsSubset_refl)

lemma topic_outcome_settled:
  "topic_outcome can (EffectiveStrategy [tc_Strategy t, g]) d before after \<Longrightarrow> buildTopic t = Inr d \<Longrightarrow> wf_map (t_Labels d)
   \<Longrightarrow> topic_settled can g t after"
  by (auto simp: topic_outcome_def topic_settled_def diffTopic_self list_all_iff
      split: option.splits if_splits)

lemma subscription_outcome_settled:
  "subscription_outcome can (EffectiveStrategy [sc_Strategy s, g]) d before after \<Longrightarrow> buildSubscription tn s = Inr d \<Longrightarrow>
   wf_subscription d \<Longrightarrow> subscription_settled can g tn s after"
  by (auto simp: subscription_outcome_def subscription_settled_def filled_in_settled list_all_iff
      split: option.splits if_splits)

lemma topic_config_sendable:
  assumes "topic_ok t" "wf_map (tc_Labels t)"
  obtains d where "buildTopic t = Inr d" "sendable_topic d"
  using buildTopic_ok[OF assms(1)] assms(2) by (auto simp: sendable_topic_def)

lemma wf_buildSubscription:
  "wf_map (sc_Labels s) \<Longrightarrow> wf_map (sc_PushAttributes s) \<Longrightarrow> buildSubscription tn s = Inr d \<Longrightarrow> wf_subscription d"
  by (auto simp: wf_subscription_def buildSubscription_def buildPushConfig_def split: sum.splits if_splits)

text \<open>The names and maps of a valid configuration, as the passes need them.\<close>

definition pubsub_config_ok :: "Config \<Rightarrow> bool" where
  "pubsub_config_ok cfg \<longleftrightarrow> topics_ok (ps_Topics (cfg_PubSub cfg)) \<and> list_all wf_map (config_maps cfg)"

lemma pubsub_config_topic:
  "pubsub_config_ok cfg \<Longrightarrow> t \<in> set (ps_Topics (cfg_PubSub cfg)) \<Longrightarrow> topic_ok t \<and> wf_map (tc_Labels t)"
  by (auto simp: pubsub_config_ok_def topics_ok_def list_all_iff config_maps_def)

lemma topic_ok_no_slash: "topic_ok t \<Longrightarrow> CHR ''/'' \<notin> set (tc_Name t)"
  by (simp add: topic_ok_def resource_name_no_slash)

lemma pubsub_config_subscription:
  assumes ok: "pubsub_config_ok cfg" and ts: "(t, s) \<in> set (subscription_pairs (ps_Topics (cfg_PubSub cfg)))"
  obtains d where "buildSubscription (tc_Name t) s = Inr d" "sendable d" "wf_subscription d"
    "\<And>T. \<forall>u \<in> set (ps_Topics (cfg_PubSub cfg)). T (tc_Name u) \<noteq> None \<Longrightarrow> creatable T d"
proof -
  let ?ts = "ps_Topics (cfg_PubSub cfg)"
  note mem = subscription_pairs_mem[OF ts]
  have declared: "\<exists>u \<in> set ?ts. tc_Name u = dc_Topic dl" if "sc_DeadLetter s = Some dl" for dl
    using ok mem that
    by (fastforce simp: pubsub_config_ok_def topics_ok_def dead_letters_declared_def list_all_iff)
  have sub: "subscription_ok s" and maps: "wf_map (sc_Labels s)" "wf_map (sc_PushAttributes s)"
    using ok mem by (auto simp: pubsub_config_ok_def topics_ok_def list_all_iff config_maps_def)
  have slash: "CHR ''/'' \<notin> set (tc_Name u)" if "u \<in> set ?ts" for u
    using pubsub_config_topic[OF ok that] topic_ok_no_slash by blast
  obtain d where d: "buildSubscription (tc_Name t) s = Inr d" "sendable d" "s_Topic d = tc_Name t"
    "map_option d_Topic (s_DeadLetter d) = map_option dc_Topic (sc_DeadLetter s)"
    using buildSubscription_ok[OF sub] slash mem declared by metis
  have "creatable T d" if T: "\<forall>u \<in> set ?ts. T (tc_Name u) \<noteq> None" for T
  proof (cases "sc_DeadLetter s")
    case None
    then show ?thesis using d mem T by (simp add: creatable_def)
  next
    case (Some dl)
    then show ?thesis using d mem T declared[OF Some] by (auto simp: creatable_def)
  qed
  then show ?thesis using that d wf_buildSubscription[OF maps d(1)] by blast
qed

context pubsub_endpoint
begin

lemma topics_pass:
  assumes "ok (pubsub_state w)" "\<not> DryRun opts" and cfg: "pubsub_config_ok cfg"
    and run: "for_each (provisionTopic ps opts g) (ps_Topics (cfg_PubSub cfg)) w = (r, w')"
  defines "ts \<equiv> ps_Topics (cfg_PubSub cfg)" and "st \<equiv> pubsub_state w" and "st' \<equiv> pubsub_state w'"
  shows "r = None \<and> (ok st' \<and> supported st' = supported st \<and> subs st' = subs st)
    \<and> (\<forall>t \<in> set ts. topic_settled (supported st) g t (topics st' (tc_Name t)))
    \<and> (\<forall>n. n \<notin> set (map tc_Name ts) \<longrightarrow> topics st' n = topics st n)"
  unfolding ts_def st_def st'_def
proof (rule for_each_settles[OF run,
    where I = "\<lambda>v. ok (pubsub_state v) \<and> supported (pubsub_state v) = supported (pubsub_state w)
      \<and> subs (pubsub_state v) = subs (pubsub_state w)"
    and table = "\<lambda>v. topics (pubsub_state v)"])
  show "distinct (map tc_Name (ps_Topics (cfg_PubSub cfg)))"
    using cfg by (simp add: pubsub_config_ok_def topics_ok_def)
next
  fix t v r1 v'
  assume t: "t \<in> set (ps_Topics (cfg_PubSub cfg))" and I: "ok (pubsub_state v) \<and>
    supported (pubsub_state v) = supported (pubsub_state w) \<and> subs (pubsub_state v) = subs (pubsub_state w)"
    and step: "provisionTopic ps opts g t v = (r1, v')"
  obtain d where d: "buildTopic t = Inr d" "sendable_topic d"
    using pubsub_config_topic[OF cfg t] topic_config_sendable by blast
  obtain r0 where e: "ensureTopic ps opts t (EffectiveStrategy [tc_Strategy t, g]) v = (r0, v')"
    and r0: "r1 = map_option (\<lambda>e. Wrapped (''provisioning topic '' @ quote (tc_Name t) @ '': '') e []) r0"
    using step unfolding provisionTopic_def by (rule wrap_result_elim)
  show "r1 = None \<and> (ok (pubsub_state v') \<and> supported (pubsub_state v') = supported (pubsub_state w)
      \<and> subs (pubsub_state v') = subs (pubsub_state w))
    \<and> topic_settled (supported (pubsub_state w)) g t (topics (pubsub_state v') (tc_Name t))
    \<and> (\<forall>k. k \<noteq> tc_Name t \<longrightarrow> topics (pubsub_state v') k = topics (pubsub_state v) k)"
    using ensureTopic_effect[OF _ assms(2) d e] I r0 d topic_outcome_settled[OF _ d(1)]
    by (auto simp: sendable_topic_def)
qed (simp add: assms(1))

lemma subscriptions_pass:
  assumes "ok (pubsub_state w)" "\<not> DryRun opts" and cfg: "pubsub_config_ok cfg"
    and declared: "\<forall>u \<in> set (ps_Topics (cfg_PubSub cfg)). topics (pubsub_state w) (tc_Name u) \<noteq> None"
    and run: "for_each (\<lambda>(t, s). provisionSubscription ps opts g t s)
        (subscription_pairs (ps_Topics (cfg_PubSub cfg))) w = (r, w')"
  defines "prs \<equiv> subscription_pairs (ps_Topics (cfg_PubSub cfg))"
    and "st \<equiv> pubsub_state w" and "st' \<equiv> pubsub_state w'"
  shows "r = None \<and> (ok st' \<and> supported st' = supported st \<and> topics st' = topics st)
    \<and> (\<forall>x \<in> set prs. (\<lambda>(t, s). subscription_settled (supported st) g (tc_Name t) s) x (subs st' ((\<lambda>(t, s). sc_Name s) x)))
    \<and> (\<forall>n. n \<notin> set (map (\<lambda>(t, s). sc_Name s) prs) \<longrightarrow> subs st' n = subs st n)"
  unfolding prs_def st_def st'_def
proof (rule for_each_settles[OF run,
    where I = "\<lambda>v. ok (pubsub_state v) \<and> supported (pubsub_state v) = supported (pubsub_state w)
      \<and> topics (pubsub_state v) = topics (pubsub_state w)"
    and table = "\<lambda>v. subs (pubsub_state v)"])
  show "distinct (map (\<lambda>(t, s). sc_Name s) (subscription_pairs (ps_Topics (cfg_PubSub cfg))))"
    using cfg by (simp add: pubsub_config_ok_def topics_ok_def subscription_pairs_snd)
next
  fix x v r1 v'
  assume x: "x \<in> set (subscription_pairs (ps_Topics (cfg_PubSub cfg)))" and I: "ok (pubsub_state v) \<and>
    supported (pubsub_state v) = supported (pubsub_state w) \<and> topics (pubsub_state v) = topics (pubsub_state w)"
    and step: "(case x of (t, s) \<Rightarrow> provisionSubscription ps opts g t s) v = (r1, v')"
  obtain t s where ts: "x = (t, s)" by (cases x)
  obtain d where d: "buildSubscription (tc_Name t) s = Inr d" "sendable d" "wf_subscription d"
    and creatable: "creatable (topics (pubsub_state v)) d"
    using pubsub_config_subscription[OF cfg x[unfolded ts]] declared I by metis
  have "wrap_result (''provisioning subscription '' @ quote (sc_Name s) @ '' on topic '' @ quote (tc_Name t) @ '': '')
      (ensureSubscription ps opts (tc_Name t) s (EffectiveStrategy [sc_Strategy s, g]) v) = (r1, v')"
    using step by (simp add: ts provisionSubscription_def)
  then obtain r0 where e: "ensureSubscription ps opts (tc_Name t) s (EffectiveStrategy [sc_Strategy s, g]) v = (r0, v')"
    and r0: "r1 = None \<longleftrightarrow> r0 = None"
    by (rule wrap_result_elim) simp
  show "r1 = None \<and> (ok (pubsub_state v') \<and> supported (pubsub_state v') = supported (pubsub_state w)
      \<and> topics (pubsub_state v') = topics (pubsub_state w))
    \<and> (case x of (t, s) \<Rightarrow> subscription_settled (supported (pubsub_state w)) g (tc_Name t) s)
        (subs (pubsub_state v') (case x of (t, s) \<Rightarrow> sc_Name s))
    \<and> (\<forall>k. k \<noteq> (case x of (t, s) \<Rightarrow> sc_Name s) \<longrightarrow> subs (pubsub_state v') k = subs (pubsub_state v) k)"
    using ensureSubscription_effect[OF _ assms(2) d creatable e] I r0 subscription_outcome_settled[OF _ d(1) d(3)]
    by (auto simp: ts)
qed (simp add: assms(1))

lemma provision_effect:
  assumes ok: "ok (pubsub_state w)" and mode: "\<not> DryRun opts" and cfg: "pubsub_config_ok cfg"
    and run: "ProvisionPubSub ps opts cfg w = (r, w')"
  defines "ts \<equiv> ps_Topics (cfg_PubSub cfg)" and "st \<equiv> pubsub_state w" and "st' \<equiv> pubsub_state w'"
  shows "r = None \<and> ok st' \<and> supported st' = supported st
    \<and> pubsub_settled (supported st) cfg (topics st') (subs st')
    \<and> (\<forall>n. n \<notin> set (map tc_Name ts) \<longrightarrow> topics st' n = topics st n)
    \<and> (\<forall>n. n \<notin> set (map sc_Name (all_subscriptions ts)) \<longrightarrow> subs st' n = subs st n)"
proof (cases "ts = []")
  case True
  then show ?thesis using run ok
    by (auto simp: ProvisionPubSub_def ts_def st_def st'_def pubsub_settled_def subscription_pairs_def)
next
  case False
  define w1 where "w1 = slog Info ''Provisioning Pub/Sub''
      [(''topics'', AInt (int (length ts))), (''subscriptions'', AInt (int (countSubscriptions ts)))] w"
  have w1: "pubsub_state w1 = st" by (simp add: w1_def st_def)
  obtain r2 w2 where p1: "for_each (provisionTopic ps opts (cfg_Strategy cfg)) ts w1 = (r2, w2)"
    by (cases "for_each (provisionTopic ps opts (cfg_Strategy cfg)) ts w1")
  have eff1: "r2 = None \<and> (ok (pubsub_state w2) \<and> supported (pubsub_state w2) = supported st \<and> subs (pubsub_state w2) = subs st)
    \<and> (\<forall>t \<in> set ts. topic_settled (supported st) (cfg_Strategy cfg) t (topics (pubsub_state w2) (tc_Name t)))
    \<and> (\<forall>n. n \<notin> set (map tc_Name ts) \<longrightarrow> topics (pubsub_state w2) n = topics st n)"
    using topics_pass[OF _ mode cfg p1[unfolded ts_def]] ok w1 by (simp add: ts_def st_def)
  then have p2: "for_each (\<lambda>(t, s). provisionSubscription ps opts (cfg_Strategy cfg) t s) (subscription_pairs ts) w2 = (r, w')"
    using run False p1
    by (simp add: ProvisionPubSub_def Let_def ts_def w1_def subscription_pairs_def for_each_concat)
  have "\<forall>t \<in> set ts. topics (pubsub_state w2) (tc_Name t) \<noteq> None"
    using eff1 by (auto simp: topic_settled_def split: option.splits)
  then have eff2: "r = None \<and> (ok st' \<and> supported st' = supported st \<and> topics st' = topics (pubsub_state w2))
    \<and> (\<forall>x \<in> set (subscription_pairs ts).
        (\<lambda>(t, s). subscription_settled (supported st) (cfg_Strategy cfg) (tc_Name t) s) x (subs st' ((\<lambda>(t, s). sc_Name s) x)))
    \<and> (\<forall>n. n \<notin> set (map (\<lambda>(t, s). sc_Name s) (subscription_pairs ts)) \<longrightarrow> subs st' n = subs st n)"
    using subscriptions_pass[OF _ mode cfg _ p2[unfolded ts_def]] eff1 by (simp add: ts_def st'_def)
  show ?thesis using eff1 eff2
    by (auto simp: pubsub_settled_def list_all_iff subscription_pairs_snd ts_def[symmetric])
qed

end

section \<open>A second pass\<close>

text \<open>
  What is left for a second run: reading, and asking again for fields the endpoint does not
  support, which it refuses again.
\<close>

fun only_refused :: "(string \<Rightarrow> bool) \<Rightarrow> event \<Rightarrow> bool" where
  "only_refused can (CallUpdateTopic t msk) \<longleftrightarrow> hopeless can msk"
| "only_refused can (CallUpdateSubscription s msk) \<longleftrightarrow> hopeless can msk"
| "only_refused can e \<longleftrightarrow> \<not> mutating e"

lemma only_refused_idle: "\<not> mutating e \<Longrightarrow> only_refused can e"
  by (cases e) simp_all

context pubsub_endpoint
begin

definition undisturbed :: "('p, 'q, 'f) world \<Rightarrow> ('p, 'q, 'f) world \<Rightarrow> bool" where
  "undisturbed w v \<longleftrightarrow>
     ok (pubsub_state v) \<and> supported (pubsub_state v) = supported (pubsub_state w)
     \<and> topics (pubsub_state v) = topics (pubsub_state w) \<and> subs (pubsub_state v) = subs (pubsub_state w)
     \<and> emits (only_refused (supported (pubsub_state w))) w v
     \<and> ((\<forall>p \<in> set (topic_fields @ subscription_fields). supported (pubsub_state w) p) \<longrightarrow>
          pubsub_state v = pubsub_state w \<and> emits (\<lambda>e. \<not> mutating e) w v)"

lemma undisturbed_refl: "ok (pubsub_state w) \<Longrightarrow> undisturbed w w"
  by (simp add: undisturbed_def)

lemma undisturbed_ok: "undisturbed w v \<Longrightarrow> ok (pubsub_state v)"
  by (simp add: undisturbed_def)

lemma undisturbed_slog: "undisturbed w v \<Longrightarrow> undisturbed w (slog l m a v)"
  by (auto simp: undisturbed_def intro: emits_slog_after)

lemma undisturbed_warnImmutable: "undisturbed w v \<Longrightarrow> undisturbed w (fold (warnImmutable n) ds v)"
  by (induction ds arbitrary: v) (simp_all add: warnImmutable_def undisturbed_slog)

lemma undisturbed_read:
  assumes "undisturbed w v" "\<not> mutating e"
  shows "undisturbed w ((emit e v)\<lparr>pubsub_state := pubsub_state v\<rparr>)"
proof -
  have "emits P v ((emit e v)\<lparr>pubsub_state := pubsub_state v\<rparr>) \<longleftrightarrow> P e" for P by (simp add: emits_def)
  then show ?thesis using assms only_refused_idle[OF assms(2)]
    by (auto simp: undisturbed_def intro: emits_trans)
qed

lemma undisturbed_refused:
  assumes v: "undisturbed w v"
    and some: "\<not> (\<forall>p \<in> set (topic_fields @ subscription_fields). supported (pubsub_state w) p)"
    and e: "only_refused (supported (pubsub_state w)) e"
    and st: "ok st" "supported st = supported (pubsub_state v)" "topics st = topics (pubsub_state v)"
      "subs st = subs (pubsub_state v)"
  shows "undisturbed w ((emit e v)\<lparr>pubsub_state := st\<rparr>)"
proof -
  have "emits (only_refused (supported (pubsub_state w))) w ((emit e v)\<lparr>pubsub_state := st\<rparr>)"
    using v e by (auto simp: undisturbed_def emits_def)
  moreover have "supported (pubsub_state v) = supported (pubsub_state w)" "topics (pubsub_state v) = topics (pubsub_state w)"
    "subs (pubsub_state v) = subs (pubsub_state w)" using v by (simp_all add: undisturbed_def)
  ultimately show ?thesis unfolding undisturbed_def using some st by auto
qed

lemma undisturbed_hopeless:
  "undisturbed w v \<Longrightarrow> hopeless (supported (pubsub_state w)) msk \<Longrightarrow> \<not> list_all (supported (pubsub_state v)) msk"
  by (cases msk) (simp_all add: undisturbed_def hopeless_def)

lemma undisturbed_refused_topic:
  assumes v: "undisturbed w v" and msk: "hopeless (supported (pubsub_state w)) msk"
    and some: "\<not> (\<forall>p \<in> set (topic_fields @ subscription_fields). supported (pubsub_state w) p)"
    and run: "updateTopic_mask ps m msk v = (r, v')"
  shows "undisturbed w v' \<and> (\<exists>e. r = Some e \<and> IsUnsupportedField e)"
proof -
  obtain st where call: "UpdateTopic ps m msk (pubsub_state v) = (r, st)"
    and v': "v' = (emit (CallUpdateTopic m msk) v)\<lparr>pubsub_state := st\<rparr>"
    using run by (auto simp: updateTopic_mask_def on_pubsub_eq prod_eq_iff)
  note refused = refuse_topic[OF undisturbed_ok[OF v] undisturbed_hopeless[OF v msk] call]
  then have "undisturbed w v'" unfolding v' using msk
    by (intro undisturbed_refused[OF v some]) simp_all
  with refused show ?thesis by blast
qed

lemma undisturbed_refused_subscription:
  assumes v: "undisturbed w v" and msk: "hopeless (supported (pubsub_state w)) msk"
    and some: "\<not> (\<forall>p \<in> set (topic_fields @ subscription_fields). supported (pubsub_state w) p)"
    and run: "updateSubscription_mask ps m msk v = (r, v')"
  shows "undisturbed w v' \<and> (\<exists>e. r = Some e \<and> IsUnsupportedField e)"
proof -
  obtain st where call: "UpdateSubscription ps m msk (pubsub_state v) = (r, st)"
    and v': "v' = (emit (CallUpdateSubscription m msk) v)\<lparr>pubsub_state := st\<rparr>"
    using run by (auto simp: updateSubscription_mask_def on_pubsub_eq prod_eq_iff)
  note refused = refuse_subscription[OF undisturbed_ok[OF v] undisturbed_hopeless[OF v msk] call]
  then have "undisturbed w v'" unfolding v' using msk
    by (intro undisturbed_refused[OF v some]) simp_all
  with refused show ?thesis by blast
qed

lemma diff_hopeless:
  assumes "list_all (\<lambda>p. \<not> can p) paths" "paths \<noteq> []" "set paths \<subseteq> set (topic_fields @ subscription_fields)"
  shows "hopeless can paths" "\<not> (\<forall>p \<in> set (topic_fields @ subscription_fields). can p)"
  using assms by (auto simp: hopeless_def list_all_iff neq_Nil_conv)

lemma ensureTopic_settled:
  assumes w: "undisturbed w0 w"
    and settled: "topic_settled (supported (pubsub_state w0)) g t (topics (pubsub_state w0) (tc_Name t))"
    and run: "ensureTopic ps opts t (EffectiveStrategy [tc_Strategy t, g]) w = (r, w')"
  shows "r = None \<and> undisturbed w0 w'"
proof -
  let ?st = "pubsub_state w0" and ?s = "EffectiveStrategy [tc_Strategy t, g]"
  obtain cur d where live: "topics ?st (tc_Name t) = Some cur" and d: "buildTopic t = Inr d"
    and diff: "?s = ''create'' \<or> list_all (\<lambda>p. \<not> supported ?st p) (diffTopic cur d)"
    using settled by (auto simp: topic_settled_def split: option.splits sum.splits)
  let ?get = "CallGetTopic (tc_Name t)"
  define v where "v = (emit ?get w)\<lparr>pubsub_state := pubsub_state w\<rparr>"
  have g: "on_pubsub ?get (GetTopic ps (tc_Name t)) w = (Inr cur, v)"
    using live get_topic[OF undisturbed_ok[OF w]] w by (simp add: on_pubsub_eq v_def undisturbed_def)
  have v: "undisturbed w0 v" unfolding v_def using w by (rule undisturbed_read) simp
  let ?m = "d\<lparr>t_Labels := mergeLabels (t_Labels cur) (t_Labels d)\<rparr>"
  have sent: "r1 = None \<and> undisturbed w0 w1"
    if ne: "diffTopic cur d \<noteq> []" "?s \<noteq> ''create''" and u: "undisturbed w0 u"
      and ap: "applyPaths (diffTopic cur d) (updateTopic_mask ps ?m) (warnTopic_unsupported (tc_Name t)) u = (r1, w1)" for u r1 w1
  proof -
    have bad: "list_all (\<lambda>p. \<not> supported ?st p) (diffTopic cur d)" using diff ne(2) by blast
    have fields: "set (diffTopic cur d) \<subseteq> set (topic_fields @ subscription_fields)" by (auto simp: diffTopic_filter)
    note hop = diff_hopeless[OF bad ne(1) fields]
    show ?thesis
    proof (rule applyPaths_hopeless[where I = "undisturbed w0", OF ap u hop(1)])
      fix msk v r v'
      assume "undisturbed w0 v" "hopeless (supported ?st) msk"
        "updateTopic_mask ps ?m msk v = (r, v')"
      then show "undisturbed w0 v' \<and> (\<exists>e. r = Some e \<and> IsUnsupportedField e)"
        using hop(2) by (intro undisturbed_refused_topic)
    qed (simp add: warnTopic_unsupported_def undisturbed_slog)
  qed
  show ?thesis
  proof (cases "?s = ''create'' \<or> diffTopic cur d = [] \<or> DryRun opts")
    case True
    then show ?thesis using run v by (auto simp: ensureTopic_def Let_def d g undisturbed_slog split: if_splits)
  next
    case False
    then show ?thesis using run v
      by (intro sent[of "slog Info ''Updating topic''
          [(''topic'', AStr (tc_Name t)), (''fields'', AStrs (diffTopic cur d))] v"])
         (simp_all add: ensureTopic_def Let_def d g undisturbed_slog)
  qed
qed

lemma ensureSubscription_settled:
  assumes w: "undisturbed w0 w"
    and settled: "subscription_settled (supported (pubsub_state w0)) g tn s (subs (pubsub_state w0) (sc_Name s))"
    and run: "ensureSubscription ps opts tn s (EffectiveStrategy [sc_Strategy s, g]) w = (r, w')"
  shows "r = None \<and> undisturbed w0 w'"
proof -
  let ?st = "pubsub_state w0" and ?s = "EffectiveStrategy [sc_Strategy s, g]"
  obtain cur d where live: "subs ?st (sc_Name s) = Some cur" and d: "buildSubscription tn s = Inr d"
    and diff: "?s = ''create'' \<or> list_all (\<lambda>p. \<not> supported ?st p) (diffSubscription cur d)"
    using settled by (auto simp: subscription_settled_def split: option.splits sum.splits)
  let ?get = "CallGetSubscription (sc_Name s)"
  define v where "v = (emit ?get w)\<lparr>pubsub_state := pubsub_state w\<rparr>"
  have g: "on_pubsub ?get (GetSubscription ps (sc_Name s)) w = (Inr cur, v)"
    using live get_subscription[OF undisturbed_ok[OF w]] w by (simp add: on_pubsub_eq v_def undisturbed_def)
  have v: "undisturbed w0 v" unfolding v_def using w by (rule undisturbed_read) simp
  let ?m = "mergeSubscription cur d"
  have sent: "r1 = None \<and> undisturbed w0 w1"
    if ne: "diffSubscription cur d \<noteq> []" "?s \<noteq> ''create''" and u: "undisturbed w0 u"
      and ap: "applyPaths (diffSubscription cur d) (updateSubscription_mask ps ?m)
        (warnSubscription_unsupported (sc_Name s)) u = (r1, w1)" for u r1 w1
  proof -
    have bad: "list_all (\<lambda>p. \<not> supported ?st p) (diffSubscription cur d)" using diff ne(2) by blast
    have fields: "set (diffSubscription cur d) \<subseteq> set (topic_fields @ subscription_fields)"
      by (auto simp: diffSubscription_filter)
    note hop = diff_hopeless[OF bad ne(1) fields]
    show ?thesis
    proof (rule applyPaths_hopeless[where I = "undisturbed w0", OF ap u hop(1)])
      fix msk v r v'
      assume "undisturbed w0 v" "hopeless (supported ?st) msk"
        "updateSubscription_mask ps ?m msk v = (r, v')"
      then show "undisturbed w0 v' \<and> (\<exists>e. r = Some e \<and> IsUnsupportedField e)"
        using hop(2) by (intro undisturbed_refused_subscription)
    qed (simp add: warnSubscription_unsupported_def undisturbed_slog)
  qed
  show ?thesis
  proof (cases "?s = ''create'' \<or> diffSubscription cur d = [] \<or> DryRun opts")
    case True
    then show ?thesis using run v
      by (auto simp: ensureSubscription_def Let_def d g undisturbed_slog undisturbed_warnImmutable split: if_splits)
  next
    case False
    then show ?thesis using run v
      by (intro sent[of "slog Info ''Updating subscription''
          [(''subscription'', AStr (sc_Name s)), (''fields'', AStrs (diffSubscription cur d))]
          (fold (warnImmutable (sc_Name s)) (immutableDrift cur d) v)"])
         (simp_all add: ensureSubscription_def Let_def d g undisturbed_slog undisturbed_warnImmutable)
  qed
qed

lemma provisionTopic_settled:
  assumes "undisturbed w0 w" "topic_settled (supported (pubsub_state w0)) g t (topics (pubsub_state w0) (tc_Name t))"
  shows "\<exists>v. provisionTopic ps opts g t w = (None, v) \<and> undisturbed w0 v"
proof -
  obtain r v where e: "ensureTopic ps opts t (EffectiveStrategy [tc_Strategy t, g]) w = (r, v)" by fastforce
  from ensureTopic_settled[OF assms e] show ?thesis by (simp add: provisionTopic_def e)
qed

lemma provisionSubscription_settled:
  assumes "undisturbed w0 w"
    "subscription_settled (supported (pubsub_state w0)) g (tc_Name t) s (subs (pubsub_state w0) (sc_Name s))"
  shows "\<exists>v. provisionSubscription ps opts g t s w = (None, v) \<and> undisturbed w0 v"
proof -
  obtain r v where e: "ensureSubscription ps opts (tc_Name t) s (EffectiveStrategy [sc_Strategy s, g]) w = (r, v)" by fastforce
  from ensureSubscription_settled[OF assms e] show ?thesis by (simp add: provisionSubscription_def e)
qed

lemma provision_settled:
  assumes ok: "ok (pubsub_state w)"
    and settled: "pubsub_settled (supported (pubsub_state w)) cfg (topics (pubsub_state w)) (subs (pubsub_state w))"
    and run: "ProvisionPubSub ps opts cfg w = (r, w')"
  shows "r = None \<and> undisturbed w w'"
proof (cases "ps_Topics (cfg_PubSub cfg) = []")
  case True
  then show ?thesis using run ok by (auto simp: ProvisionPubSub_def undisturbed_slog undisturbed_refl)
next
  case False
  let ?ts = "ps_Topics (cfg_PubSub cfg)"
  let ?w1 = "slog Info ''Provisioning Pub/Sub''
     [(''topics'', AInt (int (length ?ts))), (''subscriptions'', AInt (int (countSubscriptions ?ts)))] w"
  have "\<exists>w2. for_each (provisionTopic ps opts (cfg_Strategy cfg)) ?ts ?w1 = (None, w2) \<and> undisturbed w w2"
    by (rule for_each_ok)
       (use ok settled in \<open>auto simp: pubsub_settled_def list_all_iff undisturbed_slog undisturbed_refl intro!: provisionTopic_settled\<close>)
  then obtain w2 where w2: "for_each (provisionTopic ps opts (cfg_Strategy cfg)) ?ts ?w1 = (None, w2)" "undisturbed w w2" by blast
  have "\<exists>w3. for_each (\<lambda>(t, s). provisionSubscription ps opts (cfg_Strategy cfg) t s) (subscription_pairs ?ts) w2 = (None, w3)
      \<and> undisturbed w w3"
    by (rule for_each_ok)
       (use w2(2) settled in \<open>auto simp: pubsub_settled_def list_all_iff intro!: provisionSubscription_settled\<close>)
  then show ?thesis
    using run False w2 by (auto simp: ProvisionPubSub_def Let_def for_each_concat subscription_pairs_def)
qed

end

end
