(* ===== verification/Storage_Client.thy ===== *)
theory Storage_Client
  imports Client_Model
begin

text \<open>
  \<open>internal/client/storage.go\<close>: the Cloud Storage endpoint URL, the three bucket operations
  and the classification of their errors. The Cloud Storage client library is the parameter
  \<open>storage_api\<close>; the deadline each call runs under shows as an error of the call.
\<close>

definition operationTimeout :: duration where "operationTimeout = 30 * Second"

record BucketAttrs =
  ba_Name :: string
  ba_VersioningEnabled :: bool
  ba_Location :: string
  ba_StorageClass :: string

record 'q storage_api =
  bucket_Attrs :: "string \<Rightarrow> 'q \<Rightarrow> (go_error + BucketAttrs) \<times> 'q"
  bucket_Create :: "string \<Rightarrow> string \<Rightarrow> BucketAttrs \<Rightarrow> 'q \<Rightarrow> go_error option \<times> 'q"
  bucket_Update :: "string \<Rightarrow> bool \<Rightarrow> 'q \<Rightarrow> go_error option \<times> 'q"

record 'q StorageClient =
  sc_projectID :: string
  sc_client :: "'q storage_api"

section \<open>The endpoint URL\<close>

definition storageEndpoint :: "string \<Rightarrow> string" where
  "storageEndpoint host0 =
     (let host1 = (if \<not> Contains host0 ''://'' then ''http://'' @ host0 else host0);
          host = TrimSuffix host1 ''/'' in
      if HasSuffix host ''/storage/v1'' then host @ ''/'' else host @ ''/storage/v1/'')"

section \<open>Bucket operations\<close>

definition isBucketExistsError :: "go_error \<Rightarrow> bool" where
  "isBucketExistsError err \<longleftrightarrow>
     http_code err = Some 409 \<or> Contains (err_Error err) ''already exists'' \<or> Contains (err_Error err) ''409''"

definition IsVersioningUnsupported :: "go_error option \<Rightarrow> bool" where
  "IsVersioningUnsupported err \<longleftrightarrow>
     (case err of None \<Rightarrow> False | Some e \<Rightarrow> Contains (err_Error e) ''does not support versioning'')"

definition client_GetBucket :: "'q StorageClient \<Rightarrow> string \<Rightarrow> 'q \<Rightarrow> (go_error + Bucket) \<times> 'q" where
  "client_GetBucket c name st =
     (case bucket_Attrs (sc_client c) name st of
        (Inl e, st') \<Rightarrow>
          (if is_ErrBucketNotExist e then (Inl ErrBucketNotFound, st')
           else (Inl (Wrapped (''getting bucket '' @ quote name @ '': '') e []), st'))
      | (Inr a, st') \<Rightarrow>
          (Inr \<lparr>b_Name = ba_Name a, b_VersioningEnabled = ba_VersioningEnabled a,
                b_Location = ba_Location a, b_StorageClass = ba_StorageClass a\<rparr>, st'))"

definition client_CreateBucket :: "'q StorageClient \<Rightarrow> Bucket \<Rightarrow> 'q \<Rightarrow> go_error option \<times> 'q" where
  "client_CreateBucket c b st =
     (case bucket_Create (sc_client c) (b_Name b) (sc_projectID c)
             \<lparr>ba_Name = [], ba_VersioningEnabled = b_VersioningEnabled b, ba_Location = b_Location b,
              ba_StorageClass = b_StorageClass b\<rparr> st of
        (Some e, st') \<Rightarrow>
          (if isBucketExistsError e then (None, st')
           else (Some (Wrapped (''creating bucket '' @ quote (b_Name b) @ '': '') e []), st'))
      | (None, st') \<Rightarrow> (None, st'))"

definition client_SetVersioning :: "'q StorageClient \<Rightarrow> string \<Rightarrow> bool \<Rightarrow> 'q \<Rightarrow> go_error option \<times> 'q" where
  "client_SetVersioning c name enabled st =
     (case bucket_Update (sc_client c) name enabled st of
        (Some e, st') \<Rightarrow> (Some (Wrapped (''setting versioning on bucket '' @ quote name @ '': '') e []), st')
      | (None, st') \<Rightarrow> (None, st'))"

text \<open>A \<open>*StorageClient\<close> as the interface the provisioner takes.\<close>

definition storage_admin :: "'q StorageClient \<Rightarrow> 'q StorageAdmin" where
  "storage_admin c =
     \<lparr>GetBucket = client_GetBucket c, CreateBucket = client_CreateBucket c, SetVersioning = client_SetVersioning c\<rparr>"

lemma storage_admin_simps [simp]:
  "GetBucket (storage_admin c) = client_GetBucket c" "CreateBucket (storage_admin c) = client_CreateBucket c"
  "SetVersioning (storage_admin c) = client_SetVersioning c"
  by (simp_all add: storage_admin_def)

section \<open>Facts\<close>

text \<open>The endpoint always carries a scheme and ends in the API path, once.\<close>

lemma storageEndpoint_suffix: "HasSuffix (storageEndpoint h) ''/storage/v1/''"
proof -
  have "HasSuffix (a @ ''/'') ''/storage/v1/''" if "HasSuffix a ''/storage/v1''" for a
    using that by (auto simp: HasSuffix_iff)
  then show ?thesis by (auto simp: storageEndpoint_def Let_def HasSuffix_iff)
qed

lemma storageEndpoint_scheme: "Contains (storageEndpoint h) ''://''"
proof -
  have keep: "Contains (TrimSuffix s ''/'' @ ''/'' @ t) ''://''" if "Contains s ''://''" for s t
  proof (cases "HasSuffix s ''/''")
    case True
    then obtain a where "s = a @ ''/''" by (auto simp: HasSuffix_iff)
    then have "TrimSuffix s ''/'' @ ''/'' @ t = s @ t" by simp
    then show ?thesis using that Contains_mid[of s _ "[]" t] by (simp only: append_Nil)
  next
    case False
    then have "TrimSuffix s ''/'' = s" by (simp add: TrimSuffix_def)
    then show ?thesis using that Contains_mid[of s _ "[]"] by simp
  qed
  have http: "Contains (''http://'' @ h) ''://''" by (simp add: HasPrefix_def)
  show ?thesis
    using keep[of h "[]"] keep[of "''http://'' @ h" "[]"] keep[of h "''storage/v1/''"]
      keep[of "''http://'' @ h" "''storage/v1/''"] http
    by (simp add: storageEndpoint_def Let_def del: Contains.simps)
qed

text \<open>Normalising twice is normalising once.\<close>

lemma storageEndpoint_idem: "storageEndpoint (storageEndpoint h) = storageEndpoint h"
proof -
  obtain a where a: "storageEndpoint h = a @ ''/storage/v1/''"
    using storageEndpoint_suffix[of h] by (auto simp: HasSuffix_iff)
  have "TrimSuffix (a @ ''/storage/v1/'') ''/'' = a @ ''/storage/v1''"
    by (simp add: TrimSuffix_def HasSuffix_iff)
  moreover have "HasSuffix (a @ ''/storage/v1'') ''/storage/v1''" by (simp add: HasSuffix_iff)
  ultimately show ?thesis
    using storageEndpoint_scheme[of h] a by (simp add: storageEndpoint_def Let_def)
qed

end
