(* ===== verification/Buckets.thy ===== *)
theory Buckets
  imports Storage_Client Config_Spec
begin

text \<open>
  \<open>internal/provisioner/buckets.go\<close> and the Cloud Storage section of
  \<open>internal/provisioner/provisioner.go\<close>. Versioning is the one bucket setting that is
  reconciled; location and storage class are sent at creation and only compared afterwards.
\<close>

section \<open>Reconciling a bucket\<close>

text \<open>
  \<open>strings.EqualFold\<close>: Unicode simple folding, under which an ASCII letter equals its other case
  and, besides, \<open>k\<close> the Kelvin sign (E2 84 AA) and \<open>s\<close> the long s (C5 BF). Folding between two
  letters outside ASCII is left out: such a byte equals itself only.
\<close>

function fold_case :: "string \<Rightarrow> string" where
  "fold_case [] = []"
| "fold_case (c # s) =
     (if c = CHR 0xE2 \<and> HasPrefix s [CHR 0x84, CHR 0xAA] then CHR ''K'' # fold_case (drop 2 s)
      else if c = CHR 0xC5 \<and> HasPrefix s [CHR 0xBF] then CHR ''S'' # fold_case (drop 1 s)
      else upper_byte c # fold_case s)"
  by pat_completeness auto
termination
  by (relation "measure length") auto

definition EqualFold :: "string \<Rightarrow> string \<Rightarrow> bool" where
  "EqualFold s t \<longleftrightarrow> fold_case s = fold_case t"

definition createOnlyDrift :: "BucketCfg \<Rightarrow> Bucket \<Rightarrow> drift list" where
  "createOnlyDrift cfg current =
     (if bc_Location cfg \<noteq> [] \<and> b_Location current \<noteq> [] \<and> \<not> EqualFold (bc_Location cfg) (b_Location current)
      then [\<lparr>dr_field = ''location'', dr_current = AStr (b_Location current), dr_desired = AStr (bc_Location cfg)\<rparr>]
      else [])
   @ (if bc_StorageClass cfg \<noteq> [] \<and> b_StorageClass current \<noteq> []
         \<and> \<not> EqualFold (bc_StorageClass cfg) (b_StorageClass current)
      then [\<lparr>dr_field = ''storage_class'', dr_current = AStr (b_StorageClass current),
             dr_desired = AStr (bc_StorageClass cfg)\<rparr>]
      else [])"

definition versioning_hint :: string where
  "versioning_hint = '' (fake-gcs-server only implements versioning on its in-memory backend: start it with -backend memory, or drop `versioning` from the bucket)''"

definition annotateVersioningError :: "go_error \<Rightarrow> bool \<Rightarrow> go_error" where
  "annotateVersioningError err versioningWanted =
     (if versioningWanted \<and> IsVersioningUnsupported (Some err) then Wrapped [] err versioning_hint else err)"

text \<open>A call whose error is annotated before it is returned.\<close>

definition annotated :: "bool \<Rightarrow> go_error option \<times> 'w \<Rightarrow> go_error option \<times> 'w" where
  "annotated wanted x = map_prod (map_option (\<lambda>e. annotateVersioningError e wanted)) id x"

definition ensureVersioning ::
    "'q StorageAdmin \<Rightarrow> Options \<Rightarrow> BucketCfg \<Rightarrow> Bucket \<Rightarrow> ('p, 'q, 'f) world \<Rightarrow> go_error option \<times> ('p, 'q, 'f) world" where
  "ensureVersioning sa opts bucket current w =
     (case bc_Versioning bucket of
        None \<Rightarrow> (None, w)
      | Some desired \<Rightarrow>
          if b_VersioningEnabled current = desired then
            (None, slog Debug ''Bucket versioning up to date''
               [(''bucket'', AStr (bc_Name bucket)), (''enabled'', ABool desired)] w)
          else if DryRun opts then
            (None, slog Info ''Would set bucket versioning''
               [(''bucket'', AStr (bc_Name bucket)), (''current'', ABool (b_VersioningEnabled current)),
                (''enabled'', ABool desired)] w)
          else
            annotated desired
              (on_storage (CallSetVersioning (bc_Name bucket) desired) (SetVersioning sa (bc_Name bucket) desired)
                (slog Info ''Setting bucket versioning''
                   [(''bucket'', AStr (bc_Name bucket)), (''enabled'', ABool desired)] w)))"

definition warnCreateOnly :: "string \<Rightarrow> drift \<Rightarrow> ('p, 'q, 'f) world \<Rightarrow> ('p, 'q, 'f) world" where
  "warnCreateOnly name d =
     slog Warn ''Bucket attribute cannot be changed after creation, leaving it as is''
       [(''bucket'', AStr name), (''field'', AStr (dr_field d)), (''current'', dr_current d),
        (''configured'', dr_desired d),
        (''remedy'', AStr ''create a new bucket and migrate the objects if the new value is required'')]"

definition desiredBucket :: "BucketCfg \<Rightarrow> Bucket" where
  "desiredBucket bucket =
     \<lparr>b_Name = bc_Name bucket, b_VersioningEnabled = DerefBool (bc_Versioning bucket),
      b_Location = bc_Location bucket, b_StorageClass = ToUpper (bc_StorageClass bucket)\<rparr>"

definition ensureBucket ::
    "'q StorageAdmin \<Rightarrow> Options \<Rightarrow> BucketCfg \<Rightarrow> string \<Rightarrow> ('p, 'q, 'f) world \<Rightarrow> go_error option \<times> ('p, 'q, 'f) world" where
  "ensureBucket sa opts bucket strategy w =
     (let name = bc_Name bucket in
      case on_storage (CallGetBucket name) (GetBucket sa name) w of
        (Inl err, w1) \<Rightarrow>
          if \<not> is_ErrBucketNotFound err then (Some (Wrapped ''checking bucket: '' err []), w1)
          else
            let desired = desiredBucket bucket in
            if DryRun opts then
              (None, slog Info ''Would create bucket''
                 [(''bucket'', AStr name), (''versioning'', ABool (b_VersioningEnabled desired)),
                  (''location'', AStr (bc_Location bucket)), (''storage_class'', AStr (bc_StorageClass bucket))] w1)
            else
              annotated (b_VersioningEnabled desired)
                (on_storage (CallCreateBucket desired) (CreateBucket sa desired)
                  (slog Info ''Creating bucket'' [(''bucket'', AStr name)] w1))
      | (Inr current, w1) \<Rightarrow>
          if strategy = ''create'' then
            (None, slog Info ''Skipping existing bucket and its settings (strategy=create)'' [(''bucket'', AStr name)] w1)
          else
            let w2 = slog Debug ''Bucket already exists'' [(''bucket'', AStr name)] w1;
                w3 = (if CompareCreateOnlyBucketAttrs opts
                      then fold (warnCreateOnly name) (createOnlyDrift bucket current) w2 else w2) in
            ensureVersioning sa opts bucket current w3)"

definition provisionBucket ::
    "'q StorageAdmin \<Rightarrow> Options \<Rightarrow> string \<Rightarrow> BucketCfg \<Rightarrow> ('p, 'q, 'f) world \<Rightarrow> go_error option \<times> ('p, 'q, 'f) world" where
  "provisionBucket sa opts strategy0 bucket w =
     wrap_result (''provisioning bucket '' @ quote (bc_Name bucket) @ '': '')
       (ensureBucket sa opts bucket (EffectiveStrategy [bc_Strategy bucket, strategy0]) w)"

definition ProvisionStorage ::
    "'q StorageAdmin \<Rightarrow> Options \<Rightarrow> Config \<Rightarrow> ('p, 'q, 'f) world \<Rightarrow> go_error option \<times> ('p, 'q, 'f) world" where
  "ProvisionStorage sa opts cfg w =
     (let buckets = st_Buckets (cfg_Storage cfg) in
      if buckets = [] then (None, slog Debug ''No buckets configured, skipping Cloud Storage section'' [] w)
      else for_each (provisionBucket sa opts (cfg_Strategy cfg)) buckets
             (slog Info ''Provisioning Cloud Storage'' [(''buckets'', AInt (int (length buckets)))] w))"

section \<open>What a bucket pass emits and touches\<close>

definition only_storage :: "('p, 'q, 'f) world \<Rightarrow> ('p, 'q, 'f) world \<Rightarrow> bool" where
  "only_storage w w' \<longleftrightarrow> pubsub_state w' = pubsub_state w \<and> files w' = files w"

lemma warnCreateOnly_fold_simps [simp]:
  "pubsub_state (fold (warnCreateOnly n) ds w) = pubsub_state w"
  "storage_state (fold (warnCreateOnly n) ds w) = storage_state w"
  "files (fold (warnCreateOnly n) ds w) = files w"
  by (induction ds arbitrary: w) (auto simp: warnCreateOnly_def)

lemma emits_warnCreateOnly:
  assumes "\<And>l m a. P (Log l m a)" "emits P w v"
  shows "emits P w (fold (warnCreateOnly n) ds v)"
  using assms(2)
proof (induction ds arbitrary: v)
  case (Cons d ds)
  then show ?case by (simp add: warnCreateOnly_def emits_slog_after assms(1))
qed simp

lemma annotated_elim:
  assumes "annotated v x = (r, w)"
  obtains r' where "x = (r', w)" "r = map_option (\<lambda>e. annotateVersioningError e v) r'"
  using assms by (cases x) (auto simp: annotated_def)

lemma ensureBucket_only_storage:
  "ensureBucket sa opts b strategy w = (r, w') \<Longrightarrow> only_storage w w'"
  by (auto simp: ensureBucket_def ensureVersioning_def Let_def only_storage_def on_storage_eq annotated_def
      split: sum.splits prod.splits if_splits option.splits)

lemma ensureVersioning_emits:
  assumes "ensureVersioning sa opts b current v = (r, w')" "emits P w v" "\<And>l m a. P (Log l m a)"
    and "\<not> DryRun opts \<Longrightarrow> (\<And>n e. P (CallSetVersioning n e))"
  shows "emits P w w'"
proof -
  have log: "emits P w (slog l m a v)" for l m a using assms(2,3) by (rule emits_slog_after)
  have call: "emits P w x" if "\<not> DryRun opts" "on_storage (CallSetVersioning n e) f (slog l m a v) = (r', x)" for n e f l m a r' x
    using log[of l m a] emits_on_storage[OF _ that(2)] assms(4)[OF that(1)] emits_trans by blast
  show ?thesis
    using assms(1,2)
    by (auto simp: ensureVersioning_def elim!: annotated_elim split: option.splits if_splits intro: log dest: call)
qed

lemma ensureBucket_emits:
  assumes "ensureBucket sa opts b strategy w = (r, w')"
    and "\<And>l m a. P (Log l m a)" "\<And>n. P (CallGetBucket n)"
    and "\<not> DryRun opts \<Longrightarrow> (\<And>b. P (CallCreateBucket b))"
    and "\<not> DryRun opts \<Longrightarrow> strategy \<noteq> ''create'' \<Longrightarrow> (\<And>n e. P (CallSetVersioning n e))"
  shows "emits P w w'"
proof -
  obtain x w1 where g: "on_storage (CallGetBucket (bc_Name b)) (GetBucket sa (bc_Name b)) w = (x, w1)" by fastforce
  have w1: "emits P w w1" using g assms(3) by (intro emits_on_storage[OF _ g])
  have log: "emits P u (slog l m a v)" if "emits P u v" for u l m a v
    using that assms(2) by (rule emits_slog_after)
  have create: "emits P w v" if "\<not> DryRun opts" "on_storage (CallCreateBucket d) f (slog l m a w1) = (r', v)" for d f l m a r' v
    using log[OF w1] emits_on_storage[OF _ that(2)] assms(4)[OF that(1)] emits_trans by blast
  have versioning: "emits P w w'" if "ensureVersioning sa opts b c v = (r, w')" "strategy \<noteq> ''create''" "emits P w v" for c v
    using that(1,3) assms(2) by (rule ensureVersioning_emits) (use assms(5) that(2) in auto)
  show ?thesis
    using assms(1) g w1
    by (auto simp: ensureBucket_def Let_def split: sum.splits if_splits elim!: annotated_elim
        intro: log create dest!: versioning intro!: emits_warnCreateOnly assms(2))
qed

section \<open>The contract of a storage endpoint\<close>

text \<open>
  What the section relies on: reading finds the buckets there are, creating a missing one
  makes it exist with the versioning that was asked for, and setting versioning sets it. The
  other attributes may be anything: fake-gcs-server makes them up.
\<close>

locale bucket_endpoint =
  fixes sa :: "'q StorageAdmin"
    and ok :: "'q \<Rightarrow> bool"
    and buckets :: "'q \<Rightarrow> string \<Rightarrow> Bucket option"
  assumes get_bucket: "ok st \<Longrightarrow>
      GetBucket sa n st = (case buckets st n of None \<Rightarrow> Inl ErrBucketNotFound | Some b \<Rightarrow> Inr b, st)"
    and create_bucket: "\<lbrakk>ok st; buckets st (b_Name b) = None; CreateBucket sa b st = (r, st')\<rbrakk> \<Longrightarrow>
      r = None \<and> ok st' \<and> (\<forall>n. n \<noteq> b_Name b \<longrightarrow> buckets st' n = buckets st n)
      \<and> (\<exists>live. buckets st' (b_Name b) = Some live \<and> b_VersioningEnabled live = b_VersioningEnabled b)"
    and set_versioning: "\<lbrakk>ok st; buckets st n = Some live; SetVersioning sa n v st = (r, st')\<rbrakk> \<Longrightarrow>
      r = None \<and> ok st' \<and> buckets st' = (buckets st)(n \<mapsto> live\<lparr>b_VersioningEnabled := v\<rparr>)"

definition bucket_settled :: "string \<Rightarrow> BucketCfg \<Rightarrow> Bucket option \<Rightarrow> bool" where
  "bucket_settled strategy0 b live \<longleftrightarrow>
     (case live of
        None \<Rightarrow> False
      | Some cur \<Rightarrow>
          EffectiveStrategy [bc_Strategy b, strategy0] = ''create''
          \<or> (case bc_Versioning b of None \<Rightarrow> True | Some v \<Rightarrow> b_VersioningEnabled cur = v))"

definition storage_settled :: "Config \<Rightarrow> (string \<Rightarrow> Bucket option) \<Rightarrow> bool" where
  "storage_settled cfg buckets \<longleftrightarrow>
     list_all (\<lambda>b. bucket_settled (cfg_Strategy cfg) b (buckets (bc_Name b))) (st_Buckets (cfg_Storage cfg))"

context bucket_endpoint
begin

lemma ensureBucket_effect:
  assumes ok: "ok (storage_state w)" and mode: "\<not> DryRun opts"
    and run: "ensureBucket sa opts b (EffectiveStrategy [bc_Strategy b, g]) w = (r, w')"
  shows "r = None \<and> ok (storage_state w')
    \<and> bucket_settled g b (buckets (storage_state w') (bc_Name b))
    \<and> (\<forall>n. n \<noteq> bc_Name b \<longrightarrow> buckets (storage_state w') n = buckets (storage_state w) n)"
proof -
  let ?get = "CallGetBucket (bc_Name b)"
  let ?w1 = "(emit ?get w)\<lparr>storage_state := storage_state w\<rparr>"
  show ?thesis
  proof (cases "buckets (storage_state w) (bc_Name b)")
    case None
    then have g: "on_storage ?get (GetBucket sa (bc_Name b)) w = (Inl ErrBucketNotFound, ?w1)"
      using get_bucket[OF ok] by (simp add: on_storage_eq)
    have "annotated (b_VersioningEnabled (desiredBucket b))
        (on_storage (CallCreateBucket (desiredBucket b)) (CreateBucket sa (desiredBucket b))
          (slog Info ''Creating bucket'' [(''bucket'', AStr (bc_Name b))] ?w1)) = (r, w')"
      using run by (simp add: ensureBucket_def Let_def g mode)
    then obtain r' where c: "CreateBucket sa (desiredBucket b) (storage_state w) = (r', storage_state w')"
      and r: "r = map_option (\<lambda>e. annotateVersioningError e (b_VersioningEnabled (desiredBucket b))) r'"
      by (elim annotated_elim) (auto simp: on_storage_eq prod_eq_iff)
    show ?thesis
      using create_bucket[OF ok _ c] None r by (auto simp: desiredBucket_def bucket_settled_def split: option.splits)
  next
    case (Some cur)
    then have g: "on_storage ?get (GetBucket sa (bc_Name b)) w = (Inr cur, ?w1)"
      using get_bucket[OF ok] by (simp add: on_storage_eq)
    show ?thesis
    proof (cases "bucket_settled g b (Some cur)")
      case True
      then show ?thesis
        using run Some ok
        by (auto simp: ensureBucket_def ensureVersioning_def Let_def g bucket_settled_def split: option.splits if_splits)
    next
      case False
      then obtain v where v: "bc_Versioning b = Some v" "b_VersioningEnabled cur \<noteq> v"
          "EffectiveStrategy [bc_Strategy b, g] \<noteq> ''create''"
        by (auto simp: bucket_settled_def split: option.splits)
      let ?u = "slog Info ''Setting bucket versioning'' [(''bucket'', AStr (bc_Name b)), (''enabled'', ABool v)]
          (let w2 = slog Debug ''Bucket already exists'' [(''bucket'', AStr (bc_Name b))] ?w1 in
           if CompareCreateOnlyBucketAttrs opts then fold (warnCreateOnly (bc_Name b)) (createOnlyDrift b cur) w2 else w2)"
      have u: "storage_state ?u = storage_state w" by (simp add: Let_def)
      have "annotated v (on_storage (CallSetVersioning (bc_Name b) v) (SetVersioning sa (bc_Name b) v) ?u) = (r, w')"
        using run v by (simp add: ensureBucket_def ensureVersioning_def Let_def g mode)
      then obtain r' where c: "SetVersioning sa (bc_Name b) v (storage_state w) = (r', storage_state w')"
        and r: "r = map_option (\<lambda>e. annotateVersioningError e v) r'"
        using u by (elim annotated_elim) (auto simp: on_storage_eq prod_eq_iff)
      show ?thesis using set_versioning[OF ok Some c] r v(1) by (simp add: bucket_settled_def)
    qed
  qed
qed

lemma storage_effect:
  assumes ok: "ok (storage_state w)" and mode: "\<not> DryRun opts"
    and names: "distinct (map bc_Name (st_Buckets (cfg_Storage cfg)))"
    and run: "ProvisionStorage sa opts cfg w = (r, w')"
  shows "r = None \<and> ok (storage_state w') \<and> storage_settled cfg (buckets (storage_state w'))
    \<and> (\<forall>n. n \<notin> set (map bc_Name (st_Buckets (cfg_Storage cfg))) \<longrightarrow>
          buckets (storage_state w') n = buckets (storage_state w) n)"
proof (cases "st_Buckets (cfg_Storage cfg) = []")
  case True
  then show ?thesis using run ok by (auto simp: ProvisionStorage_def storage_settled_def)
next
  case False
  let ?w1 = "slog Info ''Provisioning Cloud Storage'' [(''buckets'', AInt (int (length (st_Buckets (cfg_Storage cfg)))))] w"
  have loop: "for_each (provisionBucket sa opts (cfg_Strategy cfg)) (st_Buckets (cfg_Storage cfg)) ?w1 = (r, w')"
    using run False by (simp add: ProvisionStorage_def Let_def)
  have "r = None \<and> ok (storage_state w')
    \<and> (\<forall>b \<in> set (st_Buckets (cfg_Storage cfg)). bucket_settled (cfg_Strategy cfg) b (buckets (storage_state w') (bc_Name b)))
    \<and> (\<forall>n. n \<notin> set (map bc_Name (st_Buckets (cfg_Storage cfg))) \<longrightarrow>
          buckets (storage_state w') n = buckets (storage_state ?w1) n)"
    using loop
  proof (rule for_each_settles[where I = "\<lambda>v. ok (storage_state v)" and table = "\<lambda>v. buckets (storage_state v)"])
    fix b v r1 v'
    assume v: "ok (storage_state v)" and "provisionBucket sa opts (cfg_Strategy cfg) b v = (r1, v')"
    then obtain r0 where "ensureBucket sa opts b (EffectiveStrategy [bc_Strategy b, cfg_Strategy cfg]) v = (r0, v')"
      and "r1 = None \<longleftrightarrow> r0 = None"
      unfolding provisionBucket_def by (elim wrap_result_elim) simp
    then show "r1 = None \<and> ok (storage_state v') \<and> bucket_settled (cfg_Strategy cfg) b (buckets (storage_state v') (bc_Name b))
        \<and> (\<forall>n. n \<noteq> bc_Name b \<longrightarrow> buckets (storage_state v') n = buckets (storage_state v) n)"
      using ensureBucket_effect[OF v mode] by simp
  qed (simp_all add: ok names)
  then show ?thesis by (simp add: storage_settled_def list_all_iff)
qed

lemma storage_idle:
  assumes ok: "ok (storage_state w)" and settled: "storage_settled cfg (buckets (storage_state w))"
    and run: "ProvisionStorage sa opts cfg w = (r, w')"
  shows "r = None \<and> storage_state w' = storage_state w \<and> emits (\<lambda>e. \<not> mutating e) w w'"
proof (cases "st_Buckets (cfg_Storage cfg) = []")
  case True
  then show ?thesis using run by (auto simp: ProvisionStorage_def)
next
  case False
  let ?I = "\<lambda>v. storage_state v = storage_state w \<and> emits (\<lambda>e. \<not> mutating e) w v"
  have one: "\<exists>v'. provisionBucket sa opts (cfg_Strategy cfg) b v = (None, v') \<and> ?I v'"
    if b: "b \<in> set (st_Buckets (cfg_Storage cfg))" and I: "?I v" for b v
  proof -
    obtain cur where cur: "buckets (storage_state w) (bc_Name b) = Some cur" and s: "bucket_settled (cfg_Strategy cfg) b (Some cur)"
      using settled b by (auto simp: storage_settled_def list_all_iff bucket_settled_def split: option.splits)
    let ?w1 = "(emit (CallGetBucket (bc_Name b)) v)\<lparr>storage_state := storage_state w\<rparr>"
    have g: "on_storage (CallGetBucket (bc_Name b)) (GetBucket sa (bc_Name b)) v = (Inr cur, ?w1)"
      using get_bucket[OF ok] I cur by (simp add: on_storage_eq)
    have w1: "emits (\<lambda>e. \<not> mutating e) w ?w1" using I by (auto simp: emits_def)
    show ?thesis
      using s w1
      by (auto simp: provisionBucket_def ensureBucket_def ensureVersioning_def Let_def g bucket_settled_def split: option.splits intro!: emits_slog_after emits_warnCreateOnly)
  qed
  have "\<exists>w2. for_each (provisionBucket sa opts (cfg_Strategy cfg)) (st_Buckets (cfg_Storage cfg))
      (slog Info ''Provisioning Cloud Storage'' [(''buckets'', AInt (int (length (st_Buckets (cfg_Storage cfg)))))] w) = (None, w2) \<and> ?I w2"
    by (rule for_each_ok) (use one in auto)
  then show ?thesis using run False by (auto simp: ProvisionStorage_def Let_def)
qed

end

end
