(* ===== verification/Key_Files.thy ===== *)
theory Key_Files
  imports Client_Model Config_Spec
begin

text \<open>
  \<open>internal/credentials/credentials.go\<close> and \<open>internal/provisioner/credentials.go\<close>: the service
  account key files. The operating system and the random source are parameters (a
  \<open>host_ops\<close>): reading a file's status, creating directories, writing a file, generating an
  RSA key and its PKCS#8 encoding. PEM, JSON and path cleaning are modelled.
\<close>

section \<open>What the source uses of the standard library\<close>

datatype stat_result = Present | Absent | StatFailed go_error

record ('f, 'k) host_ops =
  os_Stat :: "string \<Rightarrow> 'f \<Rightarrow> stat_result \<times> 'f"
  os_MkdirAll :: "string \<Rightarrow> nat \<Rightarrow> 'f \<Rightarrow> go_error option \<times> 'f"
  os_WriteFile :: "string \<Rightarrow> string \<Rightarrow> nat \<Rightarrow> 'f \<Rightarrow> go_error option \<times> 'f"
  rsa_GenerateKey :: "nat \<Rightarrow> 'f \<Rightarrow> (go_error + 'k) \<times> 'f"
  x509_MarshalPKCS8PrivateKey :: "'k \<Rightarrow> go_error + string"

subsection \<open>\<open>path/filepath\<close>\<close>

fun split_slash :: "string \<Rightarrow> string list" where
  "split_slash [] = [[]]"
| "split_slash (c # s) =
     (if c = CHR ''/'' then [] # split_slash s
      else case split_slash s of [] \<Rightarrow> [[c]] | h # t \<Rightarrow> (c # h) # t)"

definition clean_step :: "bool \<Rightarrow> string \<Rightarrow> string list \<Rightarrow> string list" where
  "clean_step rooted elem out =
     (if elem = [] \<or> elem = ''.'' then out
      else if elem = ''..'' then
        (case out of
           [] \<Rightarrow> if rooted then [] else [elem]
         | t # ts \<Rightarrow> if t = ''..'' then elem # out else ts)
      else elem # out)"

definition filepath_Clean :: "string \<Rightarrow> string" where
  "filepath_Clean path =
     (let rooted = HasPrefix path ''/'';
          out = rev (fold (clean_step rooted) (split_slash path) []) in
      if rooted then ''/'' @ join ''/'' out else if out = [] then ''.'' else join ''/'' out)"

definition filepath_Dir :: "string \<Rightarrow> string" where
  "filepath_Dir path =
     filepath_Clean (case LastIndexByte path (CHR ''/'') of None \<Rightarrow> [] | Some i \<Rightarrow> take (i + 1) path)"

subsection \<open>\<open>encoding/pem\<close>\<close>

definition base64_char :: "nat \<Rightarrow> char" where
  "base64_char n = ''ABCDEFGHIJKLMNOPQRSTUVWXYZabcdefghijklmnopqrstuvwxyz0123456789+/'' ! n"

fun base64 :: "string \<Rightarrow> string" where
  "base64 [] = []"
| "base64 [a] = (let x = of_char a * 16 in [base64_char (x div 64), base64_char (x mod 64), CHR ''='', CHR ''=''])"
| "base64 [a, b] =
     (let x = (of_char a * 256 + of_char b) * 4 in
      [base64_char (x div 4096), base64_char (x div 64 mod 64), base64_char (x mod 64), CHR ''=''])"
| "base64 (a # b # c # s) =
     (let x = (of_char a * 256 + of_char b) * 256 + of_char c in
      [base64_char (x div 262144), base64_char (x div 4096 mod 64), base64_char (x div 64 mod 64), base64_char (x mod 64)]
      @ base64 s)"

function pem_lines :: "string \<Rightarrow> string" where
  "pem_lines s = (if s = [] then [] else take 64 s @ [CHR 0x0A] @ pem_lines (drop 64 s))"
  by auto
termination by (relation "measure length") auto

declare pem_lines.simps [simp del]

definition pem_EncodeToMemory :: "string \<Rightarrow> string \<Rightarrow> string" where
  "pem_EncodeToMemory typ der =
     ''-----BEGIN '' @ typ @ ''-----'' @ [CHR 0x0A] @ pem_lines (base64 der)
     @ ''-----END '' @ typ @ ''-----'' @ [CHR 0x0A]"

subsection \<open>\<open>encoding/json\<close>\<close>

text \<open>The escapes of a JSON string; bytes outside ASCII are passed through.\<close>

definition json_byte :: "char \<Rightarrow> string" where
  "json_byte c =
     (let n = (of_char c :: nat) in
      if c = CHR 0x22 then [CHR 0x5C, CHR 0x22] else if c = CHR 0x5C then [CHR 0x5C, CHR 0x5C]
      else if c = CHR 0x08 then [CHR 0x5C, CHR ''b''] else if c = CHR 0x0C then [CHR 0x5C, CHR ''f'']
      else if c = CHR 0x0A then [CHR 0x5C, CHR ''n''] else if c = CHR 0x0D then [CHR 0x5C, CHR ''r'']
      else if c = CHR 0x09 then [CHR 0x5C, CHR ''t'']
      else if n < 32 \<or> c = CHR ''<'' \<or> c = CHR ''>'' \<or> c = CHR ''&''
      then [CHR 0x5C, CHR ''u'', CHR ''0'', CHR ''0'', hex_digit (n div 16), hex_digit (n mod 16)]
      else [c])"

definition json_string :: "string \<Rightarrow> string" where
  "json_string s = [CHR 0x22] @ concat (map json_byte s) @ [CHR 0x22]"

definition json_MarshalIndent :: "(string \<times> string) list \<Rightarrow> string" where
  "json_MarshalIndent fs =
     [CHR ''{'', CHR 0x0A]
     @ join [CHR '','', CHR 0x0A] (map (\<lambda>(k, v). ''  '' @ json_string k @ '': '' @ json_string v) fs)
     @ [CHR 0x0A, CHR ''}'']"

section \<open>The key\<close>

definition DefaultAccount :: string where "DefaultAccount = ''local-emulator''"
definition keyID :: string where "keyID = ''local-emulator-key''"
definition clientID :: string where "clientID = ''000000000000000000000''"
definition googleAuthURI :: string where "googleAuthURI = ''https://accounts.google.com/o/oauth2/auth''"
definition googleTokenURI :: string where "googleTokenURI = ''https://oauth2.googleapis.com/token''"
definition googleCertURI :: string where "googleCertURI = ''https://www.googleapis.com/oauth2/v1/certs''"
definition googleClientCerts :: string where
  "googleClientCerts = ''https://www.googleapis.com/robot/v1/metadata/x509/''"
definition keyBits :: nat where "keyBits = 2048"
definition FileMode :: nat where "FileMode = 6 * 64 + 4 * 8 + 4"
definition dirMode :: nat where "dirMode = 7 * 64 + 5 * 8 + 5"

record Key =
  k_Type :: string
  k_ProjectID :: string
  k_PrivateKeyID :: string
  k_PrivateKey :: string
  k_ClientEmail :: string
  k_ClientID :: string
  k_AuthURI :: string
  k_TokenURI :: string
  k_AuthProviderX509CertURL :: string
  k_ClientX509CertURL :: string

definition key_fields :: "Key \<Rightarrow> (string \<times> string) list" where
  "key_fields k =
     [(''type'', k_Type k), (''project_id'', k_ProjectID k), (''private_key_id'', k_PrivateKeyID k),
      (''private_key'', k_PrivateKey k), (''client_email'', k_ClientEmail k), (''client_id'', k_ClientID k),
      (''auth_uri'', k_AuthURI k), (''token_uri'', k_TokenURI k),
      (''auth_provider_x509_cert_url'', k_AuthProviderX509CertURL k),
      (''client_x509_cert_url'', k_ClientX509CertURL k)]"

definition Email :: "string \<Rightarrow> string \<Rightarrow> string" where
  "Email projectID account = account @ ''@'' @ projectID @ ''.iam.gserviceaccount.com''"

definition Generate :: "('f, 'k) host_ops \<Rightarrow> string \<Rightarrow> string \<Rightarrow> string \<Rightarrow> 'f \<Rightarrow> (go_error + Key) \<times> 'f" where
  "Generate h projectID account0 tokenURI0 f =
     (if projectID = [] then (Inl (ErrorText ''project id is required to build a service account key''), f)
      else
        let account = (if account0 = [] then DefaultAccount else account0) in
        case rsa_GenerateKey h keyBits f of
          (Inl e, f') \<Rightarrow> (Inl (Wrapped ''generating rsa key: '' e []), f')
        | (Inr private, f') \<Rightarrow>
            (case x509_MarshalPKCS8PrivateKey h private of
               Inl e \<Rightarrow> (Inl (Wrapped ''encoding private key: '' e []), f')
             | Inr der \<Rightarrow>
                 let encoded = pem_EncodeToMemory ''PRIVATE KEY'' der;
                     (authURI, certURI, clientCerts, tokenURI) =
                       (if tokenURI0 \<noteq> [] then (tokenURI0, tokenURI0, tokenURI0, tokenURI0)
                        else (googleAuthURI, googleCertURI, googleClientCerts @ Email projectID account, googleTokenURI)) in
                 (Inr \<lparr>k_Type = ''service_account'', k_ProjectID = projectID, k_PrivateKeyID = keyID,
                       k_PrivateKey = encoded, k_ClientEmail = Email projectID account, k_ClientID = clientID,
                       k_AuthURI = authURI, k_TokenURI = tokenURI, k_AuthProviderX509CertURL = certURI,
                       k_ClientX509CertURL = clientCerts\<rparr>, f')))"

definition key_text :: "Key \<Rightarrow> string" where
  "key_text k = json_MarshalIndent (key_fields k) @ [CHR 0x0A]"

definition Write :: "('f, 'k) host_ops \<Rightarrow> string \<Rightarrow> Key \<Rightarrow> ('p, 'q, 'f) world \<Rightarrow> go_error option \<times> ('p, 'q, 'f) world" where
  "Write h path key w =
     (let encoded = key_text key;
          dir = filepath_Dir path in
      case (if dir \<noteq> [] \<and> dir \<noteq> ''.''
            then wrap_result (''creating directory for '' @ quote path @ '': '')
                   (on_files (CallMkdirAll dir) (os_MkdirAll h dir dirMode) w)
            else (None, w)) of
        (Some e, w1) \<Rightarrow> (Some e, w1)
      | (None, w1) \<Rightarrow>
          wrap_result (''writing service account key '' @ quote path @ '': '')
            (on_files (CallWriteFile path encoded) (os_WriteFile h path encoded FileMode) w1))"

section \<open>Reconciling a key file\<close>

definition fileExists :: "('f, 'k) host_ops \<Rightarrow> string \<Rightarrow> ('p, 'q, 'f) world \<Rightarrow> (go_error + bool) \<times> ('p, 'q, 'f) world" where
  "fileExists h path w =
     (case on_files (CallStat path) (os_Stat h path) w of
        (Present, w1) \<Rightarrow> (Inr True, w1)
      | (Absent, w1) \<Rightarrow> (Inr False, w1)
      | (StatFailed e, w1) \<Rightarrow> (Inl (Wrapped (''checking '' @ quote path @ '': '') e []), w1))"

definition ensureCredential ::
    "('f, 'k) host_ops \<Rightarrow> Options \<Rightarrow> string \<Rightarrow> Credential \<Rightarrow> string \<Rightarrow> ('p, 'q, 'f) world
     \<Rightarrow> go_error option \<times> ('p, 'q, 'f) world" where
  "ensureCredential h opts projectID cred strategy w =
     (let account = (if cr_Account cred = [] then DefaultAccount else cr_Account cred) in
      case fileExists h (cr_Path cred) w of
        (Inl err, w1) \<Rightarrow> (Some err, w1)
      | (Inr exists, w1) \<Rightarrow>
          if exists \<and> strategy \<noteq> ''update'' then
            (None, slog Info ''Skipping existing credential file (a key file is never rewritten unless strategy=update)''
               [(''path'', AStr (cr_Path cred))] w1)
          else if DryRun opts then
            (None, slog Info (if exists then ''Would replace credential file'' else ''Would write credential file'')
               [(''path'', AStr (cr_Path cred)), (''account'', AStr (Email projectID account)),
                (''token_uri'', AStr (cr_TokenURI cred))] w1)
          else
            (case Generate h projectID account (cr_TokenURI cred) (files w1) of
               (Inl err, f) \<Rightarrow> (Some err, w1\<lparr>files := f\<rparr>)
             | (Inr key, f) \<Rightarrow>
                 (case Write h (cr_Path cred) key (w1\<lparr>files := f\<rparr>) of
                    (Some err, w2) \<Rightarrow> (Some err, w2)
                  | (None, w2) \<Rightarrow>
                      (None, slog Info ''Wrote credential file''
                         [(''path'', AStr (cr_Path cred)), (''account'', AStr (k_ClientEmail key)),
                          (''token_uri'', AStr (k_TokenURI key)), (''replaced'', ABool exists),
                          (''note'', AStr ''generated locally, authenticates to nothing'')] w2))))"

definition provisionCredential ::
    "('f, 'k) host_ops \<Rightarrow> Options \<Rightarrow> string \<Rightarrow> Credential \<Rightarrow> ('p, 'q, 'f) world \<Rightarrow> go_error option \<times> ('p, 'q, 'f) world" where
  "provisionCredential h opts projectID cred w =
     wrap_result (''writing credential '' @ quote (cr_Path cred) @ '': '')
       (ensureCredential h opts projectID cred (EffectiveCredentialStrategy (cr_Strategy cred)) w)"

definition ProvisionCredentials ::
    "('f, 'k) host_ops \<Rightarrow> Options \<Rightarrow> Config \<Rightarrow> ('p, 'q, 'f) world \<Rightarrow> go_error option \<times> ('p, 'q, 'f) world" where
  "ProvisionCredentials h opts cfg w =
     (let creds = cfg_Credentials cfg in
      if creds = [] then (None, slog Debug ''No credentials configured, skipping section'' [] w)
      else for_each (provisionCredential h opts (cfg_ProjectID cfg)) creds
             (slog Info ''Provisioning credentials'' [(''files'', AInt (int (length creds)))] w))"

section \<open>What a pass emits and keeps\<close>

definition only_files :: "('p, 'q, 'f) world \<Rightarrow> ('p, 'q, 'f) world \<Rightarrow> bool" where
  "only_files w w' \<longleftrightarrow> pubsub_state w' = pubsub_state w \<and> storage_state w' = storage_state w"

lemma only_files_refl [simp]: "only_files w w"
  by (simp add: only_files_def)

lemma only_files_trans: "only_files u v \<Longrightarrow> only_files v w \<Longrightarrow> only_files u w"
  by (simp add: only_files_def)

lemma only_files_on_files: "on_files e f w = (r, w') \<Longrightarrow> only_files w w'"
  by (auto simp: on_files_eq only_files_def)

lemma fileExists_eq:
  "fileExists h p w =
     ((case fst (os_Stat h p (files w)) of
         Present \<Rightarrow> Inr True | Absent \<Rightarrow> Inr False
       | StatFailed e \<Rightarrow> Inl (Wrapped (''checking '' @ quote p @ '': '') e [])),
      (emit (CallStat p) w)\<lparr>files := snd (os_Stat h p (files w))\<rparr>)"
  by (simp add: fileExists_def on_files_eq split: stat_result.splits)

lemma Write_invariant:
  assumes "Write h path key w = (r, w')" "I w"
    and "\<And>d v r' v'. I v \<Longrightarrow> on_files (CallMkdirAll d) (os_MkdirAll h d dirMode) v = (r', v') \<Longrightarrow> I v'"
    and "\<And>v r' v'. I v \<Longrightarrow> on_files (CallWriteFile path (key_text key)) (os_WriteFile h path (key_text key) FileMode) v = (r', v') \<Longrightarrow> I v'"
  shows "I w'"
proof -
  let ?dir = "filepath_Dir path"
  obtain r1 w1 where d: "(if ?dir \<noteq> [] \<and> ?dir \<noteq> ''.''
      then wrap_result (''creating directory for '' @ quote path @ '': '')
             (on_files (CallMkdirAll ?dir) (os_MkdirAll h ?dir dirMode) w)
      else (None, w)) = (r1, w1)" by fastforce
  have w1: "I w1"
    using d assms(2,3) by (auto elim!: wrap_result_elim split: if_splits)
  show ?thesis
  proof (cases r1)
    case None
    then have "wrap_result (''writing service account key '' @ quote path @ '': '')
        (on_files (CallWriteFile path (key_text key)) (os_WriteFile h path (key_text key) FileMode) w1) = (r, w')"
      using assms(1) by (simp add: Write_def Let_def d)
    then show ?thesis using assms(4)[OF w1] by (elim wrap_result_elim)
  next
    case (Some e)
    then show ?thesis using assms(1) w1 by (simp add: Write_def Let_def d)
  qed
qed

text \<open>
  Any property of the world that a file status check, a log record, a generated key and the two
  writes keep, one credential keeps; the writes happen only outside a dry run and only when
  the file is missing or the strategy is \<open>update\<close>.
\<close>

lemma ensureCredential_invariant:
  assumes run: "ensureCredential h opts pid cred strategy w = (r, w')" and "I w"
    and stat: "\<And>p v. I v \<Longrightarrow> I ((emit (CallStat p) v)\<lparr>files := snd (os_Stat h p (files v))\<rparr>)"
    and log: "\<And>l m a v. I v \<Longrightarrow> I (slog l m a v)"
    and gen: "\<And>v. \<not> DryRun opts \<Longrightarrow> I v \<Longrightarrow> I (v\<lparr>files := snd (Generate h pid
        (if cr_Account cred = [] then DefaultAccount else cr_Account cred) (cr_TokenURI cred) (files v))\<rparr>)"
    and wr: "\<And>key v r' v'. \<lbrakk>\<not> DryRun opts; strategy = ''update'' \<or> fst (os_Stat h (cr_Path cred) (files w)) = Absent;
        I v; Write h (cr_Path cred) key v = (r', v')\<rbrakk> \<Longrightarrow> I v'"
  shows "I w'"
proof -
  define w1 where "w1 = (emit (CallStat (cr_Path cred)) w)\<lparr>files := snd (os_Stat h (cr_Path cred) (files w))\<rparr>"
  have w1: "I w1" using stat[OF assms(2)] by (simp add: w1_def)
  define acc where "acc = (if cr_Account cred = [] then DefaultAccount else cr_Account cred)"
  define g where "g = Generate h pid acc (cr_TokenURI cred) (files w1)"
  have w2: "I (w1\<lparr>files := snd g\<rparr>)" if "\<not> DryRun opts" using gen[OF that w1] by (simp add: g_def acc_def)
  have written: "I v'" if "\<not> DryRun opts" "strategy = ''update'' \<or> fst (os_Stat h (cr_Path cred) (files w)) = Absent"
    "Write h (cr_Path cred) key (w1\<lparr>files := snd g\<rparr>) = (r', v')" for key r' v'
    using wr[OF that(1,2) w2[OF that(1)] that(3)] .
  obtain gr gf where gg: "g = (gr, gf)" by (cases g)
  show ?thesis
    using run w1 w2 written
    by (auto simp: ensureCredential_def Let_def fileExists_eq w1_def[symmetric] acc_def[symmetric] g_def[symmetric] gg
        split: stat_result.splits sum.splits prod.splits option.splits if_splits intro: log)
qed

lemma ensureCredential_emits:
  assumes "ensureCredential h opts pid cred strategy w = (r, w')"
    and P: "\<And>l m a. P (Log l m a)" "\<And>p. P (CallStat p)"
    and Q: "\<not> DryRun opts \<Longrightarrow> strategy = ''update'' \<or> fst (os_Stat h (cr_Path cred) (files w)) = Absent \<Longrightarrow>
      (\<forall>d. P (CallMkdirAll d)) \<and> (\<forall>p c. P (CallWriteFile p c))"
  shows "emits P w w'"
  using assms(1)
proof (rule ensureCredential_invariant[where I = "emits P w"])
  fix key v r' v'
  assume "\<not> DryRun opts" "strategy = ''update'' \<or> fst (os_Stat h (cr_Path cred) (files w)) = Absent"
    and v: "emits P w v" and wr: "Write h (cr_Path cred) key v = (r', v')"
  then have "\<And>d. P (CallMkdirAll d)" "\<And>p c. P (CallWriteFile p c)" using Q by blast+
  then show "emits P w v'"
    using wr v by (intro Write_invariant[where I = "emits P w", OF wr v]) (blast intro: emits_trans emits_on_files)+
qed (auto simp: P emits_slog_after emits_def)

lemma ensureCredential_only_files:
  assumes "ensureCredential h opts pid cred strategy w = (r, w')"
  shows "only_files w w'"
  using assms
proof (rule ensureCredential_invariant[where I = "only_files w"])
  fix key v r' v'
  assume v: "only_files w v" and wr: "Write h (cr_Path cred) key v = (r', v')"
  show "only_files w v'"
    using wr v by (rule Write_invariant[where I = "only_files w"]) (blast intro: only_files_trans only_files_on_files)+
qed (simp_all add: only_files_def)

section \<open>The contract of the file system\<close>

text \<open>
  What the section relies on: a status check finds what there is and changes nothing, making
  directories and generating keys keep the files there are, and a write that succeeds is read
  back and touches no other file.
\<close>

datatype fs_entry = Dir | File string

locale key_store =
  fixes h :: "('f, 'k) host_ops"
    and resolve :: "string \<Rightarrow> 'n"
    and entry :: "'f \<Rightarrow> 'n \<Rightarrow> fs_entry option"
  assumes stat: "os_Stat h p f = (case entry f (resolve p) of None \<Rightarrow> Absent | Some e \<Rightarrow> Present, f)"
    and mkdir: "\<lbrakk>os_MkdirAll h d m f = (r, f'); entry f n = Some e\<rbrakk> \<Longrightarrow> entry f' n = Some e"
    and keygen: "entry (snd (rsa_GenerateKey h k f)) = entry f"
    and write_ok: "os_WriteFile h p s m f = (None, f') \<Longrightarrow> entry f' = (entry f)(resolve p \<mapsto> File s)"
    and write_other: "\<lbrakk>os_WriteFile h p s m f = (r, f'); n \<noteq> resolve p\<rbrakk> \<Longrightarrow> entry f' n = entry f n"
begin

lemma Generate_entry: "entry (snd (Generate h pid a t f)) = entry f"
  using keygen[of keyBits f] by (auto simp: Generate_def Let_def split: prod.splits sum.splits)

lemma Write_others:
  assumes "Write h path key w = (r, w')" "n \<noteq> resolve path" "entry (files w) n = Some e"
  shows "entry (files w') n = Some e"
  using assms(1,3)
  by (rule Write_invariant[where I = "\<lambda>v. entry (files v) n = Some e"])
     (use mkdir write_other assms(2) in \<open>auto simp: on_files_eq prod_eq_iff\<close>)

lemma Write_entry:
  assumes "Write h path key w = (None, w')"
  shows "entry (files w') (resolve path) = Some (File (key_text key))"
proof -
  let ?dir = "filepath_Dir path"
  obtain r1 w1 where d: "(if ?dir \<noteq> [] \<and> ?dir \<noteq> ''.''
      then wrap_result (''creating directory for '' @ quote path @ '': '')
             (on_files (CallMkdirAll ?dir) (os_MkdirAll h ?dir dirMode) w)
      else (None, w)) = (r1, w1)" by fastforce
  have "r1 = None" using assms d by (auto simp: Write_def Let_def split: option.splits)
  then have "os_WriteFile h path (key_text key) FileMode (files w1) = (None, files w')"
    using assms by (auto simp: Write_def Let_def d on_files_eq prod_eq_iff)
  then show ?thesis by (simp add: write_ok)
qed

text \<open>What is there is kept byte for byte, unless it is the file to be replaced.\<close>

lemma ensureCredential_keeps:
  assumes "ensureCredential h opts pid cred strategy w = (r, w')"
    and e: "entry (files w) n = Some e" and n: "n = resolve (cr_Path cred) \<Longrightarrow> strategy \<noteq> ''update''"
  shows "entry (files w') n = Some e"
  using assms(1) e
proof (rule ensureCredential_invariant[where I = "\<lambda>v. entry (files v) n = Some e"])
  fix key v r' v'
  assume "strategy = ''update'' \<or> fst (os_Stat h (cr_Path cred) (files w)) = Absent"
  then have "n \<noteq> resolve (cr_Path cred)" using e n by (auto simp: stat)
  moreover assume "entry (files v) n = Some e" "Write h (cr_Path cred) key v = (r', v')"
  ultimately show "entry (files v') n = Some e" using Write_others by blast
qed (simp_all add: stat Generate_entry)

lemma ensureCredential_present:
  assumes "ensureCredential h opts pid cred strategy w = (None, w')" "\<not> DryRun opts"
  shows "entry (files w') (resolve (cr_Path cred)) \<noteq> None"
proof (cases "strategy = ''update'' \<or> entry (files w) (resolve (cr_Path cred)) = None")
  case True
  then show ?thesis
    using assms Write_entry
    by (fastforce simp: ensureCredential_def Let_def fileExists_eq stat split: prod.splits sum.splits option.splits if_splits)
next
  case False
  then show ?thesis using ensureCredential_keeps[OF assms(1)] by auto
qed

lemma ensureCredential_idle:
  assumes "ensureCredential h opts pid cred strategy w = (r, w')" "strategy \<noteq> ''update''"
    "entry (files w) (resolve (cr_Path cred)) \<noteq> None"
  shows "r = None \<and> files w' = files w \<and> emits (\<lambda>e. \<not> mutating e) w w'"
  using assms
  by (auto simp: ensureCredential_def Let_def fileExists_eq stat emits_def)

lemma credentials_keep:
  assumes "ProvisionCredentials h opts cfg w = (r, w')" "entry (files w) n = Some e"
    and n: "\<And>c. c \<in> set (cfg_Credentials cfg) \<Longrightarrow> resolve (cr_Path c) = n \<Longrightarrow>
      EffectiveCredentialStrategy (cr_Strategy c) \<noteq> ''update''"
  shows "entry (files w') n = Some e"
proof (cases "cfg_Credentials cfg = []")
  case True
  then show ?thesis using assms by (auto simp: ProvisionCredentials_def)
next
  case False
  then have "for_each (provisionCredential h opts (cfg_ProjectID cfg)) (cfg_Credentials cfg)
      (slog Info ''Provisioning credentials'' [(''files'', AInt (int (length (cfg_Credentials cfg))))] w) = (r, w')"
    using assms(1) by (simp add: ProvisionCredentials_def Let_def)
  then show ?thesis
  proof (rule for_each_invariant[where I = "\<lambda>v. entry (files v) n = Some e"])
    fix c v r1 v'
    assume c: "c \<in> set (cfg_Credentials cfg)" and v: "entry (files v) n = Some e"
      and run: "provisionCredential h opts (cfg_ProjectID cfg) c v = (r1, v')"
    obtain r0 where "ensureCredential h opts (cfg_ProjectID cfg) c (EffectiveCredentialStrategy (cr_Strategy c)) v = (r0, v')"
      using run unfolding provisionCredential_def by (elim wrap_result_elim)
    then show "entry (files v') n = Some e" using ensureCredential_keeps v n[OF c] by blast
  qed (simp add: assms(2))
qed

lemma ensureCredential_stays:
  assumes "ensureCredential h opts pid cred strategy w = (None, w')" "\<not> DryRun opts" "entry (files w) n \<noteq> None"
  shows "entry (files w') n \<noteq> None"
proof (cases "n = resolve (cr_Path cred)")
  case True
  then show ?thesis using ensureCredential_present[OF assms(1,2)] by simp
next
  case False
  then show ?thesis using ensureCredential_keeps[OF assms(1)] assms(3) by auto
qed

lemma credentials_present:
  assumes "ProvisionCredentials h opts cfg w = (None, w')" "\<not> DryRun opts" "c \<in> set (cfg_Credentials cfg)"
  shows "entry (files w') (resolve (cr_Path c)) \<noteq> None"
proof -
  have one: "\<exists>s. ensureCredential h opts (cfg_ProjectID cfg) x s v = (None, v')"
    if "provisionCredential h opts (cfg_ProjectID cfg) x v = (None, v')" for x v v'
    using that unfolding provisionCredential_def by (elim wrap_result_elim) auto
  have "for_each (provisionCredential h opts (cfg_ProjectID cfg)) (cfg_Credentials cfg)
      (slog Info ''Provisioning credentials'' [(''files'', AInt (int (length (cfg_Credentials cfg))))] w) = (None, w')"
    using assms(1,3) by (auto simp: ProvisionCredentials_def Let_def split: if_splits)
  then have "\<forall>x \<in> set (cfg_Credentials cfg). entry (files w') (resolve (cr_Path x)) \<noteq> None"
    by (rule for_each_establishes)
       (meson one ensureCredential_present ensureCredential_stays assms(2))+
  then show ?thesis using assms(3) by blast
qed

lemma credentials_idle:
  assumes present: "\<And>c. c \<in> set (cfg_Credentials cfg) \<Longrightarrow>
      EffectiveCredentialStrategy (cr_Strategy c) \<noteq> ''update'' \<and> entry (files w) (resolve (cr_Path c)) \<noteq> None"
    and run: "ProvisionCredentials h opts cfg w = (r, w')"
  shows "r = None \<and> files w' = files w \<and> emits (\<lambda>e. \<not> mutating e) w w'"
proof (cases "cfg_Credentials cfg = []")
  case True
  then show ?thesis using run by (auto simp: ProvisionCredentials_def)
next
  case False
  let ?I = "\<lambda>v. files v = files w \<and> emits (\<lambda>e. \<not> mutating e) w v"
  have one: "\<exists>v'. provisionCredential h opts (cfg_ProjectID cfg) c v = (None, v') \<and> ?I v'"
    if c: "c \<in> set (cfg_Credentials cfg)" and I: "?I v" for c v
  proof -
    obtain r0 v' where e: "ensureCredential h opts (cfg_ProjectID cfg) c (EffectiveCredentialStrategy (cr_Strategy c)) v = (r0, v')"
      by fastforce
    have "r0 = None \<and> files v' = files v \<and> emits (\<lambda>e. \<not> mutating e) v v'"
      by (rule ensureCredential_idle[OF e]) (use present[OF c] I in auto)
    then show ?thesis using I e emits_trans by (fastforce simp: provisionCredential_def)
  qed
  have "\<exists>w2. for_each (provisionCredential h opts (cfg_ProjectID cfg)) (cfg_Credentials cfg)
      (slog Info ''Provisioning credentials'' [(''files'', AInt (int (length (cfg_Credentials cfg))))] w) = (None, w2) \<and> ?I w2"
    by (rule for_each_ok) (use one in auto)
  then show ?thesis using run False by (auto simp: ProvisionCredentials_def Let_def)
qed

end

section \<open>What a generated key says\<close>

lemma Generate_fields:
  assumes "Generate h pid account token f = (Inr k, f')"
  shows "pid \<noteq> []" "k_Type k = ''service_account''" "k_ProjectID k = pid"
    "k_ClientEmail k = Email pid (if account = [] then DefaultAccount else account)"
    "token \<noteq> [] \<Longrightarrow> {k_AuthURI k, k_TokenURI k, k_AuthProviderX509CertURL k, k_ClientX509CertURL k} = {token}"
    "token = [] \<Longrightarrow> k_TokenURI k = googleTokenURI"
  using assms by (auto simp: Generate_def Let_def split: if_splits prod.splits sum.splits)

subsection \<open>Reading a key file back\<close>

text \<open>A reader of JSON strings, for the escapes the writer produces.\<close>

definition hex_value :: "char \<Rightarrow> nat" where
  "hex_value c = (let n = (of_char c :: nat) in if n < 58 then n - 48 else n - 87)"

fun json_unquote :: "string \<Rightarrow> (string \<times> string) option" where
  "json_unquote (c # s) =
     (if c = CHR 0x22 then Some ([], s)
      else if c \<noteq> CHR 0x5C then map_option (apfst ((#) c)) (json_unquote s)
      else case s of
          e # t \<Rightarrow>
            if e = CHR ''u'' then
              (case t of
                 z1 # z2 # a # b # t' \<Rightarrow>
                   map_option (apfst ((#) (char_of (16 * hex_value a + hex_value b)))) (json_unquote t')
               | _ \<Rightarrow> None)
            else
              map_option (apfst ((#)
                (if e = CHR ''b'' then CHR 0x08 else if e = CHR ''f'' then CHR 0x0C
                 else if e = CHR ''n'' then CHR 0x0A else if e = CHR ''r'' then CHR 0x0D
                 else if e = CHR ''t'' then CHR 0x09 else e))) (json_unquote t)
        | [] \<Rightarrow> None)"
| "json_unquote [] = None"

lemma hex_value_digit: "d < 16 \<Longrightarrow> hex_value (hex_digit d) = d"
proof -
  have "list_all (\<lambda>d. hex_value (hex_digit d) = d) [0..<16]" by code_simp
  then show "d < 16 \<Longrightarrow> hex_value (hex_digit d) = d" by (simp add: list_all_iff)
qed

lemma char_of_hex: "char_of (16 * hex_value (hex_digit (of_char c div 16)) + hex_value (hex_digit (of_char c mod 16))) = c"
proof -
  have "(of_char c :: nat) < 256" by simp
  then have "(of_char c :: nat) div 16 < 16" by (simp add: less_mult_imp_div_less)
  then show ?thesis by (simp add: hex_value_digit)
qed

lemma json_unquote_byte: "json_unquote (json_byte c @ t) = map_option (apfst ((#) c)) (json_unquote t)"
proof (cases "json_byte c = [c]")
  case True
  then have "c \<noteq> CHR 0x22" "c \<noteq> CHR 0x5C" by (auto simp: json_byte_def)
  then show ?thesis using True by simp
next
  case False
  have u: "json_unquote ([CHR 0x5C, CHR ''u'', CHR ''0'', CHR ''0'', hex_digit (of_char c div 16), hex_digit (of_char c mod 16)] @ t)
      = map_option (apfst ((#) c)) (json_unquote t)"
    by (simp add: char_of_hex)
  show ?thesis
  proof (cases "c \<in> {CHR 0x22, CHR 0x5C, CHR 0x08, CHR 0x0C, CHR 0x0A, CHR 0x0D, CHR 0x09}")
    case True
    then show ?thesis by (auto simp: json_byte_def)
  next
    case ord: False
    then have "json_byte c = [CHR 0x5C, CHR ''u'', CHR ''0'', CHR ''0'', hex_digit (of_char c div 16), hex_digit (of_char c mod 16)]"
      using False by (simp add: json_byte_def Let_def split: if_splits)
    then show ?thesis using u by (simp only:)
  qed
qed

lemma json_string_unquote: "json_unquote (tl (json_string s) @ t) = Some (s, t)"
proof -
  have "json_unquote (concat (map json_byte s) @ CHR 0x22 # t) = Some (s, t)"
    by (induction s) (simp_all add: json_unquote_byte del: json_unquote.simps, simp)
  then show ?thesis by (simp add: json_string_def)
qed

end
