(* ===== verification/Provisioner.thy ===== *)
theory Provisioner
  imports PubSub_Section Buckets Key_Files
begin

text \<open>
  \<open>internal/provisioner/provisioner.go\<close>: the \<open>Provisioner\<close> and its sections. Either admin
  interface may be nil; calling through a nil interface panics, so a section method has the
  outcome \<open>Panicked\<close> beside returning.
\<close>

datatype outcome = Returned "go_error option" | Panicked

record ('p, 'q) Provisioner =
  pv_pubsub :: "'p PubSubAdmin option"
  pv_storage :: "'q StorageAdmin option"
  pv_cfg :: Config
  pv_opts :: Options

definition New_Provisioner :: "'p PubSubAdmin option \<Rightarrow> 'q StorageAdmin option \<Rightarrow> Config \<Rightarrow> Options \<Rightarrow> ('p, 'q) Provisioner" where
  "New_Provisioner pubsub storage cfg opts =
     \<lparr>pv_pubsub = pubsub, pv_storage = storage, pv_cfg = cfg, pv_opts = opts\<rparr>"

text \<open>
  The sections on a \<open>Provisioner\<close>. With a nil interface the first admin call panics: for
  Pub/Sub the one of the first topic, once the topic has been built, for Cloud Storage the one
  of the first bucket.
\<close>

definition p_ProvisionPubSub :: "('p, 'q) Provisioner \<Rightarrow> ('p, 'q, 'f) world \<Rightarrow> outcome \<times> ('p, 'q, 'f) world" where
  "p_ProvisionPubSub p w =
     (case pv_pubsub p of
        Some ps \<Rightarrow> apfst Returned (ProvisionPubSub ps (pv_opts p) (pv_cfg p) w)
      | None \<Rightarrow>
          (case ps_Topics (cfg_PubSub (pv_cfg p)) of
             [] \<Rightarrow> (Returned None, slog Debug ''No topics configured, skipping Pub/Sub section'' [] w)
           | t # ts \<Rightarrow>
               let w1 = slog Info ''Provisioning Pub/Sub''
                     [(''topics'', AInt (int (length (t # ts)))),
                      (''subscriptions'', AInt (int (countSubscriptions (t # ts))))] w in
               (case buildTopic t of
                  Inl e \<Rightarrow>
                    (Returned (Some (Wrapped (''provisioning topic '' @ quote (tc_Name t) @ '': '') e [])), w1)
                | Inr d \<Rightarrow> (Panicked, w1))))"

definition p_ProvisionStorage :: "('p, 'q) Provisioner \<Rightarrow> ('p, 'q, 'f) world \<Rightarrow> outcome \<times> ('p, 'q, 'f) world" where
  "p_ProvisionStorage p w =
     (case pv_storage p of
        Some sa \<Rightarrow> apfst Returned (ProvisionStorage sa (pv_opts p) (pv_cfg p) w)
      | None \<Rightarrow>
          (case st_Buckets (cfg_Storage (pv_cfg p)) of
             [] \<Rightarrow> (Returned None, slog Debug ''No buckets configured, skipping Cloud Storage section'' [] w)
           | b # bs \<Rightarrow>
               (Panicked, slog Info ''Provisioning Cloud Storage'' [(''buckets'', AInt (int (length (b # bs))))] w)))"

definition p_ProvisionCredentials ::
    "('f, 'k) host_ops \<Rightarrow> ('p, 'q) Provisioner \<Rightarrow> ('p, 'q, 'f) world \<Rightarrow> outcome \<times> ('p, 'q, 'f) world" where
  "p_ProvisionCredentials h p w = apfst Returned (ProvisionCredentials h (pv_opts p) (pv_cfg p) w)"

text \<open>Sequencing: \<open>if err := m(ctx); err != nil { return err }\<close>.\<close>

definition and_then ::
    "outcome \<times> 'w \<Rightarrow> ('w \<Rightarrow> outcome \<times> 'w) \<Rightarrow> outcome \<times> 'w" where
  "and_then x f = (case x of (Returned None, w) \<Rightarrow> f w | _ \<Rightarrow> x)"

definition Run :: "('f, 'k) host_ops \<Rightarrow> ('p, 'q) Provisioner \<Rightarrow> ('p, 'q, 'f) world \<Rightarrow> outcome \<times> ('p, 'q, 'f) world" where
  "Run h p w =
     and_then (p_ProvisionCredentials h p (slog Info ''Starting provisioning'' [] w)) (\<lambda>w1.
     and_then (p_ProvisionPubSub p w1) (\<lambda>w2.
     and_then (p_ProvisionStorage p w2) (\<lambda>w3.
       (Returned None, slog Info ''Provisioning complete'' [] w3))))"

section \<open>What the sections emit\<close>

lemma wrap_result_fst: "wrap_result pre x = (r, w) \<Longrightarrow> \<exists>r'. x = (r', w)"
  by (elim wrap_result_elim) simp

lemma provisionTopic_emits:
  assumes "provisionTopic ps opts g t w = (r, w')"
    and "\<And>l m a. P (Log l m a)" "\<And>n. P (CallGetTopic n)"
    and "\<not> DryRun opts \<Longrightarrow> (\<And>t. P (CallCreateTopic t))"
    and "\<not> DryRun opts \<Longrightarrow> EffectiveStrategy [tc_Strategy t, g] \<noteq> ''create'' \<Longrightarrow> (\<And>t msk. P (CallUpdateTopic t msk))"
  shows "emits P w w'"
  using wrap_result_fst[OF assms(1)[unfolded provisionTopic_def]] ensureTopic_emits[of ps opts t _ w _ w' P] assms(2-)
  by blast

lemma provisionSubscription_emits:
  assumes "provisionSubscription ps opts g t s w = (r, w')"
    and "\<And>l m a. P (Log l m a)" "\<And>n. P (CallGetSubscription n)"
    and "\<not> DryRun opts \<Longrightarrow> (\<And>s. P (CallCreateSubscription s))"
    and "\<not> DryRun opts \<Longrightarrow> EffectiveStrategy [sc_Strategy s, g] \<noteq> ''create'' \<Longrightarrow> (\<And>s msk. P (CallUpdateSubscription s msk))"
  shows "emits P w w'"
  using wrap_result_fst[OF assms(1)[unfolded provisionSubscription_def]]
    ensureSubscription_emits[of ps opts "tc_Name t" s _ w _ w' P] assms(2-)
  by blast

text \<open>
  The Pub/Sub section, split at the pass boundary: what the topic pass may emit and what the
  subscription pass may emit.
\<close>

lemma ProvisionPubSub_passes:
  assumes run: "ProvisionPubSub ps opts cfg w = (r, w')"
    and T: "\<And>l m a. T (Log l m a)" "\<And>n. T (CallGetTopic n)"
      "\<not> DryRun opts \<Longrightarrow> \<forall>t. T (CallCreateTopic t)"
      "\<And>t. \<not> DryRun opts \<Longrightarrow> t \<in> set (ps_Topics (cfg_PubSub cfg)) \<Longrightarrow>
        EffectiveStrategy [tc_Strategy t, cfg_Strategy cfg] \<noteq> ''create'' \<Longrightarrow> \<forall>t msk. T (CallUpdateTopic t msk)"
    and S: "\<And>l m a. S (Log l m a)" "\<And>n. S (CallGetSubscription n)"
      "\<not> DryRun opts \<Longrightarrow> \<forall>s. S (CallCreateSubscription s)"
      "\<And>s. \<not> DryRun opts \<Longrightarrow> s \<in> set (all_subscriptions (ps_Topics (cfg_PubSub cfg))) \<Longrightarrow>
        EffectiveStrategy [sc_Strategy s, cfg_Strategy cfg] \<noteq> ''create'' \<Longrightarrow> \<forall>s msk. S (CallUpdateSubscription s msk)"
  shows "\<exists>v. emits T w v \<and> emits S v w'"
proof (cases "ps_Topics (cfg_PubSub cfg) = []")
  case True
  then show ?thesis using run S(1) by (auto simp: ProvisionPubSub_def intro!: exI[of _ w])
next
  case False
  let ?ts = "ps_Topics (cfg_PubSub cfg)"
  let ?w1 = "slog Info ''Provisioning Pub/Sub''
     [(''topics'', AInt (int (length ?ts))), (''subscriptions'', AInt (int (countSubscriptions ?ts)))] w"
  obtain r2 w2 where p1: "for_each (provisionTopic ps opts (cfg_Strategy cfg)) ?ts ?w1 = (r2, w2)" by fastforce
  have "emits T ?w1 w2"
    using p1 by (rule emits_for_each) (erule provisionTopic_emits; use T in blast)
  then have t: "emits T w w2" using T(1) emits_slog_before by blast
  show ?thesis
  proof (cases r2)
    case None
    then have "for_each (\<lambda>(t, s). provisionSubscription ps opts (cfg_Strategy cfg) t s) (subscription_pairs ?ts) w2 = (r, w')"
      using run False p1 by (simp add: ProvisionPubSub_def Let_def for_each_concat subscription_pairs_def)
    then have "emits S w2 w'"
    proof (rule emits_for_each)
      fix x v r1 v'
      assume x: "x \<in> set (subscription_pairs ?ts)"
        and step: "(case x of (t, s) \<Rightarrow> provisionSubscription ps opts (cfg_Strategy cfg) t s) v = (r1, v')"
      obtain t s where pair: "x = (t, s)" by fastforce
      with step have ts: "x = (t, s)" "provisionSubscription ps opts (cfg_Strategy cfg) t s v = (r1, v')" by simp_all
      then have mem: "s \<in> set (all_subscriptions ?ts)" using x subscription_pairs_mem by blast
      show "emits S v v'"
        by (rule provisionSubscription_emits[OF ts(2)]) (use S mem in blast)+
    qed
    then show ?thesis using t by blast
  next
    case (Some e)
    then have "w' = w2" using run False p1 by (simp add: ProvisionPubSub_def Let_def)
    then show ?thesis using t emits_refl by blast
  qed
qed

lemma ProvisionStorage_emits:
  assumes run: "ProvisionStorage sa opts cfg w = (r, w')"
    and P: "\<And>l m a. P (Log l m a)" "\<And>n. P (CallGetBucket n)"
      "\<not> DryRun opts \<Longrightarrow> \<forall>b. P (CallCreateBucket b)"
      "\<And>b. \<not> DryRun opts \<Longrightarrow> b \<in> set (st_Buckets (cfg_Storage cfg)) \<Longrightarrow>
        EffectiveStrategy [bc_Strategy b, cfg_Strategy cfg] \<noteq> ''create'' \<Longrightarrow> \<forall>n e. P (CallSetVersioning n e)"
  shows "emits P w w'"
proof (cases "st_Buckets (cfg_Storage cfg) = []")
  case True
  then show ?thesis using run P(1) by (auto simp: ProvisionStorage_def)
next
  case False
  let ?w1 = "slog Info ''Provisioning Cloud Storage'' [(''buckets'', AInt (int (length (st_Buckets (cfg_Storage cfg)))))] w"
  have loop: "for_each (provisionBucket sa opts (cfg_Strategy cfg)) (st_Buckets (cfg_Storage cfg)) ?w1 = (r, w')"
    using run False by (simp add: ProvisionStorage_def Let_def)
  have "emits P ?w1 w'"
    using loop
  proof (rule emits_for_each)
    fix b v r1 v'
    assume b: "b \<in> set (st_Buckets (cfg_Storage cfg))" and "provisionBucket sa opts (cfg_Strategy cfg) b v = (r1, v')"
    then obtain r0 where e: "ensureBucket sa opts b (EffectiveStrategy [bc_Strategy b, cfg_Strategy cfg]) v = (r0, v')"
      unfolding provisionBucket_def by (elim wrap_result_elim)
    show "emits P v v'" by (rule ensureBucket_emits[OF e]) (use P b in blast)+
  qed
  then show ?thesis using P(1) emits_slog_before by blast
qed

lemma ProvisionCredentials_emits:
  assumes run: "ProvisionCredentials h opts cfg w = (r, w')"
    and P: "\<And>l m a. P (Log l m a)" "\<And>p. P (CallStat p)"
      "\<not> DryRun opts \<Longrightarrow> (\<forall>d. P (CallMkdirAll d)) \<and> (\<forall>p c. P (CallWriteFile p c))"
  shows "emits P w w'"
proof (cases "cfg_Credentials cfg = []")
  case True
  then show ?thesis using run P(1) by (auto simp: ProvisionCredentials_def)
next
  case False
  let ?w1 = "slog Info ''Provisioning credentials'' [(''files'', AInt (int (length (cfg_Credentials cfg))))] w"
  have loop: "for_each (provisionCredential h opts (cfg_ProjectID cfg)) (cfg_Credentials cfg) ?w1 = (r, w')"
    using run False by (simp add: ProvisionCredentials_def Let_def)
  have "emits P ?w1 w'"
    using loop
  proof (rule emits_for_each)
    fix c v r1 v'
    assume "provisionCredential h opts (cfg_ProjectID cfg) c v = (r1, v')"
    then obtain r0 where e: "ensureCredential h opts (cfg_ProjectID cfg) c (EffectiveCredentialStrategy (cr_Strategy c)) v = (r0, v')"
      unfolding provisionCredential_def by (elim wrap_result_elim)
    show "emits P v v'" by (rule ensureCredential_emits[OF e]) (use P in blast)+
  qed
  then show ?thesis using P(1) emits_slog_before by blast
qed

section \<open>What the sections touch\<close>

lemma ProvisionPubSub_only_pubsub:
  assumes "ProvisionPubSub ps opts cfg w = (r, w')"
  shows "only_pubsub w w'"
proof -
  let ?ts = "ps_Topics (cfg_PubSub cfg)"
  have topic: "only_pubsub v v'" if "provisionTopic ps opts g t v = (r1, v')" for g t v r1 v'
    using wrap_result_fst[OF that[unfolded provisionTopic_def]] ensureTopic_only_pubsub by blast
  have sub: "only_pubsub v v'" if "provisionSubscription ps opts g t s v = (r1, v')" for g t s v r1 v'
    using wrap_result_fst[OF that[unfolded provisionSubscription_def]] ensureSubscription_only_pubsub by blast
  have t: "only_pubsub v v'" if "for_each (provisionTopic ps opts g) ts v = (r1, v')" for g ts v r1 v'
    using that by (rule for_each_invariant[where I = "only_pubsub v"]) (auto intro: only_pubsub_trans topic)
  have s: "only_pubsub v v'" if "for_each (\<lambda>(t, s). provisionSubscription ps opts g t s) xs v = (r1, v')" for g xs v r1 v'
    using that by (rule for_each_invariant[where I = "only_pubsub v"]) (auto intro: only_pubsub_trans sub)
  show ?thesis
    using assms
    by (auto simp: ProvisionPubSub_def Let_def for_each_concat split: if_splits prod.splits option.splits
        dest!: t s intro: only_pubsub_trans)
qed

lemma ProvisionStorage_only_storage:
  assumes "ProvisionStorage sa opts cfg w = (r, w')"
  shows "only_storage w w'"
proof -
  have one: "only_storage v v'" if "provisionBucket sa opts g b v = (r1, v')" for g b v r1 v'
    using wrap_result_fst[OF that[unfolded provisionBucket_def]] ensureBucket_only_storage by blast
  have "only_storage v v'" if "for_each (provisionBucket sa opts g) bs v = (r1, v')" for g bs v r1 v'
    using that by (rule for_each_invariant[where I = "only_storage v"]) (auto dest!: one simp: only_storage_def)
  then show ?thesis
    using assms by (fastforce simp: ProvisionStorage_def Let_def only_storage_def split: if_splits)
qed

lemma ProvisionCredentials_only_files:
  assumes "ProvisionCredentials h opts cfg w = (r, w')"
  shows "only_files w w'"
proof -
  have one: "only_files v v'" if "provisionCredential h opts g b v = (r1, v')" for g b v r1 v'
    using wrap_result_fst[OF that[unfolded provisionCredential_def]] ensureCredential_only_files by blast
  have "only_files v v'" if "for_each (provisionCredential h opts g) bs v = (r1, v')" for g bs v r1 v'
    using that by (rule for_each_invariant[where I = "only_files v"]) (auto dest!: one simp: only_files_def)
  then show ?thesis
    using assms by (fastforce simp: ProvisionCredentials_def Let_def only_files_def split: if_splits)
qed

end
