(* ===== verification/Connect.thy ===== *)
theory Connect
  imports Storage_Client "HOL-Library.Multiset"
begin

text \<open>
  \<open>internal/client/client.go\<close>, \<open>ConnectPubSub\<close> and \<open>ConnectStorage\<close>: dialling an endpoint and
  retrying a probe with exponential backoff under a deadline. Time is explicit: \<open>clock\<close> is the
  instant of the state, a probe may advance it, sleeping advances it by the delay or to the
  deadline, whichever comes first; \<open>tie\<close> says which case \<open>select\<close> takes when both are ready at
  once. The dialling functions and the list call of the SDKs are parameters.
\<close>

section \<open>State and environment\<close>

record ('h, 'e) net =
  clock :: duration
  open_handles :: "'h list"
  net_trace :: "event list"
  net_env :: 'e

text \<open>A context by the instant it is done, if any, and the error it then reports.\<close>

record Context =
  ctx_Done :: "duration option"
  ctx_Cause :: go_error

definition DeadlineExceeded :: go_error where "DeadlineExceeded = ErrorText ''context deadline exceeded''"

definition WithTimeout :: "Context \<Rightarrow> duration \<Rightarrow> duration \<Rightarrow> Context" where
  "WithTimeout ctx now d =
     (case ctx_Done ctx of
        Some t \<Rightarrow> if t \<le> now + d then ctx else \<lparr>ctx_Done = Some (now + d), ctx_Cause = DeadlineExceeded\<rparr>
      | None \<Rightarrow> \<lparr>ctx_Done = Some (now + d), ctx_Cause = DeadlineExceeded\<rparr>)"

definition ctx_Err :: "Context \<Rightarrow> duration \<Rightarrow> go_error option" where
  "ctx_Err ctx now = (case ctx_Done ctx of Some t \<Rightarrow> if t \<le> now then Some (ctx_Cause ctx) else None | None \<Rightarrow> None)"

text \<open>\<open>select\<close> over \<open>time.After(delay)\<close> and \<open>ctx.Done()\<close>: whether the timer won, and the state after.\<close>

definition sleep :: "bool \<Rightarrow> Context \<Rightarrow> duration \<Rightarrow> ('h, 'e) net \<Rightarrow> bool \<times> ('h, 'e) net" where
  "sleep tie ctx delay s =
     (case ctx_Done ctx of
        None \<Rightarrow> (True, s\<lparr>clock := clock s + delay\<rparr>)
      | Some t \<Rightarrow>
          if clock s + delay < t \<or> (clock s + delay = t \<and> tie) then (True, s\<lparr>clock := clock s + delay\<rparr>)
          else (False, s\<lparr>clock := max (clock s) t\<rparr>))"

definition net_log :: "log_level \<Rightarrow> string \<Rightarrow> (string \<times> attr) list \<Rightarrow> ('h, 'e) net \<Rightarrow> ('h, 'e) net" where
  "net_log l m a s = s\<lparr>net_trace := net_trace s @ [Log l m a]\<rparr>"

section \<open>Retrying\<close>

definition maxRetries :: nat where "maxRetries = 15"
definition initialDelay :: duration where "initialDelay = 1 * Second"
definition maxDelay :: duration where "maxDelay = 30 * Second"
definition totalTimeout :: duration where "totalTimeout = 5 * Minute"

text \<open>\<open>time.Duration(float64(initialDelay) * math.Pow(2, float64(attempt)))\<close>, capped.\<close>

definition retryDelay :: "nat \<Rightarrow> duration" where
  "retryDelay attempt =
     (let delay = int (f64_trunc (f64_mul (f64_of_nat (nat initialDelay)) (f64_of_nat (2 ^ attempt)))) in
      if delay > maxDelay then maxDelay else delay)"

fun retry_loop ::
    "bool \<Rightarrow> Context \<Rightarrow> string \<Rightarrow> (Context \<Rightarrow> ('h, 'e) net \<Rightarrow> go_error option \<times> ('h, 'e) net) \<Rightarrow> nat list
     \<Rightarrow> ('h, 'e) net \<Rightarrow> go_error option \<times> ('h, 'e) net" where
  "retry_loop tie ctx service probe [] s =
     (Some (ErrorText (''failed to connect to '' @ service @ '' after '' @ Itoa (maxRetries + 1) @ '' attempts'')), s)"
| "retry_loop tie ctx service probe (attempt # rest) s =
     (case probe ctx s of
        (None, s1) \<Rightarrow> (None, s1)
      | (Some err, s1) \<Rightarrow>
          (case ctx_Err ctx (clock s1) of
             Some cause \<Rightarrow> (Some (Wrapped ''connection timeout after 5m0s: '' cause []), s1)
           | None \<Rightarrow>
               let delay = retryDelay attempt;
                   s2 = net_log Warn (service @ '' not ready, retrying'')
                     [(''attempt'', AInt (int (attempt + 1))), (''max_retries'', AInt (int maxRetries)),
                      (''delay'', ADur delay), (''error'', AErr err)] s1 in
               (case sleep tie ctx delay s2 of
                  (True, s3) \<Rightarrow> retry_loop tie ctx service probe rest s3
                | (False, s3) \<Rightarrow> (Some (Wrapped ''connection timeout: '' (ctx_Cause ctx) []), s3))))"

definition retryUntilReady ::
    "bool \<Rightarrow> Context \<Rightarrow> string \<Rightarrow> (Context \<Rightarrow> ('h, 'e) net \<Rightarrow> go_error option \<times> ('h, 'e) net)
     \<Rightarrow> ('h, 'e) net \<Rightarrow> go_error option \<times> ('h, 'e) net" where
  "retryUntilReady tie ctx service probe s =
     retry_loop tie (WithTimeout ctx (clock s) totalTimeout) service probe [0..<maxRetries + 1] s"

section \<open>Connecting\<close>

datatype client_option = WithEndpoint string | WithoutAuthentication | WithInsecureTransport

datatype next_result = NextItem | IteratorDone | NextErr go_error

record ('h, 'e) sdk =
  NewTopicAdminClient :: "client_option list \<Rightarrow> 'e \<Rightarrow> (go_error + 'h) \<times> 'e"
  NewSubscriptionAdminClient :: "client_option list \<Rightarrow> 'e \<Rightarrow> (go_error + 'h) \<times> 'e"
  NewStorageClient :: "client_option list \<Rightarrow> 'e \<Rightarrow> (go_error + 'h) \<times> 'e"
  ListTopics_Next :: "'h \<Rightarrow> string \<Rightarrow> nat \<Rightarrow> Context \<Rightarrow> duration \<times> 'e \<Rightarrow> next_result \<times> duration \<times> 'e"
  Buckets_Next :: "'h \<Rightarrow> string \<Rightarrow> Context \<Rightarrow> duration \<times> 'e \<Rightarrow> next_result \<times> duration \<times> 'e"

text \<open>A list call advances the clock and the environment; its error, unless it is the iterator's
  end, is what the probe returns.\<close>

definition dial ::
    "(client_option list \<Rightarrow> 'e \<Rightarrow> (go_error + 'h) \<times> 'e) \<Rightarrow> string \<Rightarrow> client_option list \<Rightarrow> ('h, 'e) net
     \<Rightarrow> (go_error + 'h) \<times> ('h, 'e) net" where
  "dial new what opts s =
     (case new opts (net_env s) of
        (Inl e, x) \<Rightarrow> (Inl (Wrapped (''creating '' @ what @ '': '') e []), s\<lparr>net_env := x\<rparr>)
      | (Inr h, x) \<Rightarrow> (Inr h, s\<lparr>net_env := x, open_handles := open_handles s @ [h]\<rparr>))"

definition Close :: "'h \<Rightarrow> ('h, 'e) net \<Rightarrow> ('h, 'e) net" where
  "Close h s = s\<lparr>open_handles := remove1 h (open_handles s)\<rparr>"

definition next_error :: "next_result \<Rightarrow> go_error option" where
  "next_error r = (case r of NextErr e \<Rightarrow> Some e | _ \<Rightarrow> None)"

definition list_probe ::
    "(duration \<times> 'e \<Rightarrow> next_result \<times> duration \<times> 'e) \<Rightarrow> ('h, 'e) net \<Rightarrow> go_error option \<times> ('h, 'e) net" where
  "list_probe call s =
     (case call (clock s, net_env s) of (r, t, x) \<Rightarrow> (next_error r, s\<lparr>clock := t, net_env := x\<rparr>))"

definition ConnectPubSub ::
    "('h, 'e) sdk \<Rightarrow> bool \<Rightarrow> Context \<Rightarrow> string \<Rightarrow> string \<Rightarrow> ('h, 'e) net \<Rightarrow> (go_error + 'h \<times> 'h) \<times> ('h, 'e) net" where
  "ConnectPubSub sdk tie ctx projectID emulatorHost s =
     (let opts = (if emulatorHost \<noteq> [] then [WithEndpoint emulatorHost, WithoutAuthentication, WithInsecureTransport] else []) in
      case dial (NewTopicAdminClient sdk) ''topic admin client'' opts s of
        (Inl e, s1) \<Rightarrow> (Inl e, s1)
      | (Inr topics, s1) \<Rightarrow>
          (case dial (NewSubscriptionAdminClient sdk) ''subscription admin client'' opts s1 of
             (Inl e, s2) \<Rightarrow> (Inl e, Close topics s2)
           | (Inr subs, s2) \<Rightarrow>
               (case retryUntilReady tie ctx ''Pub/Sub''
                       (\<lambda>c. list_probe (ListTopics_Next sdk topics (''projects/'' @ projectID) 1 c)) s2 of
                  (Some e, s3) \<Rightarrow> (Inl e, Close subs (Close topics s3))
                | (None, s3) \<Rightarrow>
                    (Inr (topics, subs), net_log Info ''Connected to Pub/Sub''
                       [(''project'', AStr projectID), (''emulator'', ABool (emulatorHost \<noteq> []))] s3))))"

definition ConnectStorage ::
    "('h, 'e) sdk \<Rightarrow> bool \<Rightarrow> Context \<Rightarrow> string \<Rightarrow> string \<Rightarrow> ('h, 'e) net \<Rightarrow> (go_error + 'h) \<times> ('h, 'e) net" where
  "ConnectStorage sdk tie ctx projectID emulatorHost s =
     (let opts = (if emulatorHost \<noteq> [] then [WithEndpoint (storageEndpoint emulatorHost), WithoutAuthentication] else []) in
      case dial (NewStorageClient sdk) ''storage client'' opts s of
        (Inl e, s1) \<Rightarrow> (Inl e, s1)
      | (Inr sc, s1) \<Rightarrow>
          (case retryUntilReady tie ctx ''Cloud Storage''
                  (\<lambda>c v. list_probe (Buckets_Next sdk sc projectID (WithTimeout c (clock v) operationTimeout)) v) s1 of
             (Some e, s2) \<Rightarrow> (Inl e, Close sc s2)
           | (None, s2) \<Rightarrow>
               (Inr sc, net_log Info ''Connected to Cloud Storage''
                  [(''project'', AStr projectID), (''emulator'', ABool (emulatorHost \<noteq> []))] s2)))"

section \<open>The backoff\<close>

lemma retryDelay_eq: "attempt \<le> maxRetries \<Longrightarrow> retryDelay attempt = min maxDelay (Second * 2 ^ attempt)"
proof -
  assume "attempt \<le> maxRetries"
  then have "(2::nat) ^ attempt \<le> 2 ^ 15" by (intro power_increasing) (simp_all add: maxRetries_def)
  then have "1000000000 * 2 ^ attempt < (2::nat) ^ 53" by simp
  then have "f64_trunc (f64_mul (f64_of_nat 1000000000) (f64_of_nat (2 ^ attempt))) = 1000000000 * 2 ^ attempt"
    by (intro f64_mul_exact) simp_all
  then show ?thesis by (simp add: retryDelay_def initialDelay_def min_def Let_def)
qed

definition slept :: "nat \<Rightarrow> duration" where
  "slept k = (\<Sum>i<k. retryDelay i)"

lemma slept_14: "slept 14 = 301 * Second"
  by (simp add: slept_def retryDelay_eq maxRetries_def maxDelay_def eval_nat_numeral)

lemma slept_Suc [simp]: "slept (Suc k) = slept k + retryDelay k"
  by (simp add: slept_def)

lemma net_log_simps [simp]:
  "clock (net_log l m a s) = clock s" "open_handles (net_log l m a s) = open_handles s"
  "net_trace (net_log l m a s) = net_trace s @ [Log l m a]"
  by (simp_all add: net_log_def)

text \<open>
  The five minutes are over in the fourteenth pause at the latest, so the loop always ends by a
  successful probe or by its context: it never runs out of attempts.
\<close>

lemma retry_loop_outcome:
  assumes mono: "\<And>c v. clock v \<le> clock (snd (probe c v)) \<and> net_trace (snd (probe c v)) = net_trace v"
    and T: "ctx_Done ctx = Some T" "T \<le> start + totalTimeout"
    and "start + slept k \<le> clock s" "0 < k \<Longrightarrow> clock s \<le> T" "k \<le> 14"
    and "retry_loop tie ctx service probe [k..<maxRetries + 1] s = (r, s')"
  shows "(r = None \<or> (\<exists>pre. r = Some (Wrapped pre (ctx_Cause ctx) [])))
    \<and> length (net_trace s') \<le> length (net_trace s) + (14 - k)"
  using assms(4-)
proof (induction "14 - k" arbitrary: k s)
  case 0
  then have "k = 14" by simp
  then show ?case using 0 T slept_14 by (simp add: totalTimeout_def)
next
  case (Suc n)
  then have k: "k < 14" by simp
  define rest where "rest = [Suc k..<maxRetries + 1]"
  have "[k..<maxRetries + 1] = k # rest" using k by (simp add: rest_def maxRetries_def upt_conv_Cons)
  then have run: "retry_loop tie ctx service probe (k # rest) s = (r, s')" using Suc.prems(4) by (simp only:)
  obtain r1 s1 where p: "probe ctx s = (r1, s1)" by (cases "probe ctx s")
  have s1: "clock s \<le> clock s1" "net_trace s1 = net_trace s" using mono[of s ctx] p by simp_all
  show ?case
  proof (cases "r1 = None \<or> ctx_Err ctx (clock s1) \<noteq> None")
    case True
    then show ?thesis using run s1 T(1)
      by (auto simp: p ctx_Err_def split: option.splits if_splits)
  next
    case False
    then obtain err where err: "r1 = Some err" "ctx_Err ctx (clock s1) = None" by auto
    let ?s2 = "net_log Warn (service @ '' not ready, retrying'')
         [(''attempt'', AInt (int (k + 1))), (''max_retries'', AInt (int maxRetries)),
          (''delay'', ADur (retryDelay k)), (''error'', AErr err)] s1"
    obtain won s3 where sl: "sleep tie ctx (retryDelay k) ?s2 = (won, s3)" by fastforce
    have log: "length (net_trace s3) = Suc (length (net_trace s))"
      using sl s1 T(1) by (auto simp: sleep_def split: if_splits)
    show ?thesis
    proof (cases won)
      case True
      then have "retry_loop tie ctx service probe [Suc k..<maxRetries + 1] s3 = (r, s')"
        unfolding rest_def[symmetric] using run by (simp add: p err sl[simplified] Let_def)
      moreover have "start + slept (Suc k) \<le> clock s3" "clock s3 \<le> T"
        using True sl s1 T(1) Suc.prems(1) by (auto simp: sleep_def split: if_splits)
      moreover have "n = 14 - Suc k" "Suc k \<le> 14" using Suc.hyps(2) k by simp_all
      ultimately have "(r = None \<or> (\<exists>pre. r = Some (Wrapped pre (ctx_Cause ctx) [])))
        \<and> length (net_trace s') \<le> length (net_trace s3) + (14 - Suc k)"
        using Suc.hyps(1)[of "Suc k" s3] by blast
      then show ?thesis using log k by auto
    next
      case False
      then show ?thesis using run k log by (auto simp: p err sl[simplified] Let_def)
    qed
  qed
qed

lemma WithTimeout_Done:
  obtains T where "ctx_Done (WithTimeout ctx now d) = Some T" "T \<le> now + d"
proof -
  have "\<exists>T. ctx_Done (WithTimeout ctx now d) = Some T \<and> T \<le> now + d"
    by (auto simp: WithTimeout_def split: option.splits)
  then show ?thesis using that by blast
qed

lemma retryUntilReady_outcome:
  assumes "\<And>c v. clock v \<le> clock (snd (probe c v)) \<and> net_trace (snd (probe c v)) = net_trace v"
    and "retryUntilReady tie ctx service probe s = (r, s')"
  shows "(r = None \<or> (\<exists>pre. r = Some (Wrapped pre (ctx_Cause (WithTimeout ctx (clock s) totalTimeout)) [])))
    \<and> length (net_trace s') \<le> length (net_trace s) + 14"
proof -
  obtain T where T: "ctx_Done (WithTimeout ctx (clock s) totalTimeout) = Some T" "T \<le> clock s + totalTimeout"
    by (rule WithTimeout_Done)
  show ?thesis
    using retry_loop_outcome[where probe = probe and k = 0 and s = s, OF assms(1) T] assms(2)
    by (simp add: retryUntilReady_def slept_def del: upt_Suc)
qed

text \<open>A connection that is reported is one a probe has just answered on.\<close>

lemma retry_loop_ready:
  assumes "retry_loop tie ctx service probe ks s = (None, s')"
  shows "\<exists>v. probe ctx v = (None, s')"
  using assms
  by (induction ks arbitrary: s) (auto simp: Let_def split: prod.splits option.splits bool.splits)

text \<open>What the probe keeps, the loop keeps.\<close>

lemma retry_loop_handles:
  assumes "retry_loop tie ctx service probe ks s = (r, s')"
    and "\<And>c v. open_handles (snd (probe c v)) = open_handles v"
  shows "open_handles s' = open_handles s"
  using assms(1)
proof (induction ks arbitrary: s)
  case (Cons k ks)
  have sleep: "open_handles v' = open_handles v" if "sleep tie ctx d v = (b, v')" for d v b v'
    using that by (auto simp: sleep_def split: option.splits if_splits)
  show ?case
    using Cons.prems assms(2)[of ctx s] Cons.IH
    by (auto simp: Let_def dest!: sleep split: prod.splits option.splits bool.splits)
qed simp

section \<open>Connections are closed again\<close>

lemma dial_handles:
  "dial new what opts s = (Inl e, s') \<Longrightarrow> open_handles s' = open_handles s"
  "dial new what opts s = (Inr h, s') \<Longrightarrow> open_handles s' = open_handles s @ [h]"
  by (auto simp: dial_def split: prod.splits sum.splits)

lemma Close_handles [simp]: "mset (open_handles (Close h s)) = mset (open_handles s) - {#h#}"
  by (simp add: Close_def)

lemma retryUntilReady_handles:
  "retryUntilReady tie ctx service probe s = (r, s') \<Longrightarrow> (\<And>c v. open_handles (snd (probe c v)) = open_handles v) \<Longrightarrow>
   open_handles s' = open_handles s"
  unfolding retryUntilReady_def by (rule retry_loop_handles)

lemma list_probe_simps [simp]:
  "open_handles (snd (list_probe call s)) = open_handles s" "net_trace (snd (list_probe call s)) = net_trace s"
  by (simp_all add: list_probe_def split: prod.splits)

lemma ConnectPubSub_handles:
  assumes run: "ConnectPubSub sdk tie ctx pid host s = (x, s')"
  shows "mset (open_handles s') = mset (open_handles s) + (case x of Inl e \<Rightarrow> {#} | Inr (t, u) \<Rightarrow> {#t, u#})"
proof -
  have ready: "open_handles v' = open_handles v"
    if "retryUntilReady tie ctx svc (\<lambda>c. list_probe (f c)) v = (r, v')" for svc f v r v'
    using that by (rule retryUntilReady_handles) simp
  show ?thesis
    using run unfolding ConnectPubSub_def Let_def
    by (auto split: prod.splits sum.splits option.splits dest!: dial_handles ready)
qed

lemma ConnectStorage_handles:
  assumes run: "ConnectStorage sdk tie ctx pid host s = (x, s')"
  shows "mset (open_handles s') = mset (open_handles s) + (case x of Inl e \<Rightarrow> {#} | Inr h \<Rightarrow> {#h#})"
proof -
  have ready: "open_handles v' = open_handles v"
    if "retryUntilReady tie ctx svc (\<lambda>c v. list_probe (f c v) v) v = (r, v')" for svc f v r v'
    using that by (rule retryUntilReady_handles) simp
  show ?thesis
    using run unfolding ConnectStorage_def Let_def
    by (auto split: prod.splits sum.splits option.splits dest!: dial_handles ready)
qed

section \<open>Connecting only logs\<close>

definition only_logs :: "('h, 'e) net \<Rightarrow> ('h, 'e) net \<Rightarrow> bool" where
  "only_logs s s' \<longleftrightarrow> (\<exists>es. net_trace s' = net_trace s @ es \<and> list_all (\<lambda>e. \<not> mutating e) es)"

lemma only_logs_refl [simp]: "only_logs s s"
  by (simp add: only_logs_def)

lemma only_logs_trans: "only_logs s t \<Longrightarrow> only_logs t u \<Longrightarrow> only_logs s u"
  by (auto simp: only_logs_def)

lemma only_logs_eq: "net_trace t = net_trace s \<Longrightarrow> only_logs s t"
  by (simp add: only_logs_def)

lemma only_logs_log: "only_logs s t \<Longrightarrow> only_logs s (net_log l m a t)"
  by (auto simp: only_logs_def)

lemma sleep_trace: "sleep tie ctx d v = (b, v') \<Longrightarrow> net_trace v' = net_trace v"
  by (auto simp: sleep_def split: option.splits if_splits)

lemma retry_loop_only_logs:
  assumes "retry_loop tie ctx service probe ks s = (r, s')" "\<And>c v. net_trace (snd (probe c v)) = net_trace v"
  shows "only_logs s s'"
  using assms(1)
proof (induction ks arbitrary: s)
  case (Cons k ks)
  obtain r1 s1 where p: "probe ctx s = (r1, s1)" by fastforce
  have s1: "only_logs s s1" using assms(2)[of ctx s] p by (simp add: only_logs_eq)
  have sl: "only_logs s v'" if "sleep tie ctx d (net_log l m a s1) = (b, v')" for d l m a b v'
    using only_logs_trans[OF only_logs_log[OF s1] only_logs_eq[OF sleep_trace[OF that]]] .
  show ?case
    using Cons.prems s1
    by (auto simp: p Let_def split: prod.splits option.splits bool.splits dest!: Cons.IH sl intro: only_logs_trans)
qed simp

lemma connect_only_logs:
  "ConnectPubSub sdk tie ctx pid host s = (x, s') \<Longrightarrow> only_logs s s'"
  "ConnectStorage sdk tie ctx pid host s = (y, t) \<Longrightarrow> only_logs s t"
proof -
  have dial: "dial new what opts v = (z, v') \<Longrightarrow> only_logs v v'"
    for new :: "client_option list \<Rightarrow> 'b \<Rightarrow> (go_error + 'a) \<times> 'b" and what opts v z v'
    by (auto simp: dial_def only_logs_def split: prod.splits sum.splits)
  have ready: "only_logs v v'"
    if "retryUntilReady tie ctx svc (\<lambda>c v. list_probe (f c v) v) v = (r, v')"
    for svc f r and v v' :: "('a, 'b) net"
    using that unfolding retryUntilReady_def by (rule retry_loop_only_logs) simp
  have close: "only_logs v (Close h u)" if "only_logs v u" for h and v u :: "('a, 'b) net"
    using that by (simp add: only_logs_def Close_def)
  show "ConnectPubSub sdk tie ctx pid host s = (x, s') \<Longrightarrow> only_logs s s'"
    unfolding ConnectPubSub_def Let_def
    by (auto split: prod.splits sum.splits option.splits dest!: dial ready intro!: close only_logs_log intro: only_logs_trans)
  show "ConnectStorage sdk tie ctx pid host s = (y, t) \<Longrightarrow> only_logs s t"
    unfolding ConnectStorage_def Let_def
    by (auto split: prod.splits sum.splits option.splits dest!: dial ready intro!: close only_logs_log intro: only_logs_trans)
qed

end
