(* ===== verification/Program.thy ===== *)
theory Program
  imports Provisioner Connect
begin

text \<open>
  \<open>cmd/gcp-emulator-provisioner/main.go\<close>: choosing the section and the dry-run mode, resolving
  the project, connecting to the endpoints the section needs and running it. The state of the
  program is the world of the provisioner and the network; the records a connection attempt
  logs are appended to the trace of the world.
\<close>

section \<open>Environment, flags and sections\<close>

definition Getenv :: "environ \<Rightarrow> string \<Rightarrow> string" where
  "Getenv env k = (case env k of Some v \<Rightarrow> v | None \<Rightarrow> [])"

definition envOrDefault :: "environ \<Rightarrow> string \<Rightarrow> string \<Rightarrow> string" where
  "envOrDefault env k defaultVal = (if Getenv env k \<noteq> [] then Getenv env k else defaultVal)"

definition sectionAll :: string where "sectionAll = ''all''"
definition sectionPubSub :: string where "sectionPubSub = ''pubsub''"
definition sectionStorage :: string where "sectionStorage = ''storage''"
definition sectionCredentials :: string where "sectionCredentials = ''credentials''"

lemmas section_defs = sectionAll_def sectionPubSub_def sectionStorage_def sectionCredentials_def

definition validSections :: "string set" where
  "validSections = {sectionAll, sectionPubSub, sectionStorage, sectionCredentials}"

definition wants :: "string \<Rightarrow> string \<Rightarrow> bool" where
  "wants sect want \<longleftrightarrow> sect = sectionAll \<or> sect = want"

text \<open>\<open>strconv.ParseBool\<close>.\<close>

definition ParseBool :: "string \<Rightarrow> bool option" where
  "ParseBool s =
     (if s \<in> {''1'', ''t'', ''T'', ''true'', ''TRUE'', ''True''} then Some True
      else if s \<in> {''0'', ''f'', ''F'', ''false'', ''FALSE'', ''False''} then Some False
      else None)"

definition resolveDryRun :: "environ \<Rightarrow> bool \<Rightarrow> bool \<Rightarrow> go_error + bool" where
  "resolveDryRun env flagValue flagSet =
     (if flagSet then Inr flagValue
      else
        let raw = Getenv env ''DRY_RUN'' in
        if raw = [] then Inr False
        else case ParseBool raw of
            None \<Rightarrow> Inl (Wrapped (''parsing DRY_RUN '' @ quote raw @ '' as a boolean: '')
                     (ErrorText (''strconv.ParseBool: parsing '' @ quote raw @ '': invalid syntax'')) [])
          | Some b \<Rightarrow> Inr b)"

definition resolveProjectID :: "environ \<Rightarrow> Config \<Rightarrow> go_error + string" where
  "resolveProjectID env cfg =
     (if Getenv env ''GCP_PROJECT_ID'' \<noteq> [] then Inr (Getenv env ''GCP_PROJECT_ID'')
      else if cfg_ProjectID cfg \<noteq> [] then Inr (cfg_ProjectID cfg)
      else Inl (ErrorText ''project id is required: set GCP_PROJECT_ID or project_id in the config file''))"

definition compareCreateOnlyBucketAttrs :: "environ \<Rightarrow> bool" where
  "compareCreateOnlyBucketAttrs env \<longleftrightarrow> Getenv env ''STORAGE_EMULATOR_HOST'' = []"

definition log_threshold :: "environ \<Rightarrow> log_level" where
  "log_threshold env =
     (let l = envOrDefault env ''LOG_LEVEL'' ''info'' in
      if l = ''debug'' then Debug else if l = ''warn'' then Warn else if l = ''error'' then Error else Info)"

text \<open>The levels are ordered, and the handler \<open>setupLogging\<close> installs writes the records at or
  above the threshold.\<close>

fun level_rank :: "log_level \<Rightarrow> nat" where
  "level_rank Debug = 0"
| "level_rank Info = 1"
| "level_rank Warn = 2"
| "level_rank Error = 3"

instantiation log_level :: linorder
begin

definition less_eq_log_level :: "log_level \<Rightarrow> log_level \<Rightarrow> bool" where
  "less_eq_log_level a b \<longleftrightarrow> level_rank a \<le> level_rank b"

definition less_log_level :: "log_level \<Rightarrow> log_level \<Rightarrow> bool" where
  "less_log_level a b \<longleftrightarrow> level_rank a < level_rank b"

instance
proof
  fix a b :: log_level
  show "a \<le> b \<Longrightarrow> b \<le> a \<Longrightarrow> a = b"
    by (cases a; cases b) (simp_all add: less_eq_log_level_def)
qed (auto simp: less_eq_log_level_def less_log_level_def)

end

fun is_record :: "log_level \<Rightarrow> event \<Rightarrow> bool" where
  "is_record threshold (Log l m a) \<longleftrightarrow> threshold \<le> l"
| "is_record threshold e \<longleftrightarrow> False"

definition log_output :: "environ \<Rightarrow> event list \<Rightarrow> event list" where
  "log_output env es = filter (is_record (log_threshold env)) es"

lemma le_Error [simp]: "l \<le> Error"
  by (cases l) (simp_all add: less_eq_log_level_def)

section \<open>What the program is given\<close>

record ('p, 'q, 'f, 'k, 'd, 'h, 'e) platform =
  pl_environ :: environ
  pl_ReadFile :: "string \<Rightarrow> string + string"
  pl_Unmarshal :: "string \<Rightarrow> string + Config"
  pl_url_Parse :: url_parser
  pl_host :: "('f, 'k) host_ops"
  pl_sdk :: "('h, 'e) sdk"
  pl_tie :: bool
  pl_context :: Context
  pl_pubsub_api :: "'h \<Rightarrow> 'h \<Rightarrow> ('p, 'd) pubsub_api"
  pl_durationpb :: "'d durationpb"
  pl_storage_api :: "'h \<Rightarrow> 'q storage_api"
  pl_CloseErr :: "'h \<Rightarrow> 'e \<Rightarrow> go_error option"

record ('p, 'q, 'f, 'h, 'e) prog =
  pr_world :: "('p, 'q, 'f) world"
  pr_net :: "('h, 'e) net"

definition prog_log :: "log_level \<Rightarrow> string \<Rightarrow> (string \<times> attr) list \<Rightarrow> ('p, 'q, 'f, 'h, 'e) prog \<Rightarrow> ('p, 'q, 'f, 'h, 'e) prog" where
  "prog_log l m a s = s\<lparr>pr_world := slog l m a (pr_world s)\<rparr>"

text \<open>A call into the network: its log records follow those of the world.\<close>

definition on_net ::
    "(('h, 'e) net \<Rightarrow> 'r \<times> ('h, 'e) net) \<Rightarrow> ('p, 'q, 'f, 'h, 'e) prog \<Rightarrow> 'r \<times> ('p, 'q, 'f, 'h, 'e) prog" where
  "on_net f s =
     (case f ((pr_net s)\<lparr>net_trace := []\<rparr>) of
        (r, n) \<Rightarrow> (r, s\<lparr>pr_net := n\<lparr>net_trace := []\<rparr>,
                        pr_world := (pr_world s)\<lparr>trace := trace (pr_world s) @ net_trace n\<rparr>\<rparr>))"

definition on_world ::
    "(('p, 'q, 'f) world \<Rightarrow> 'r \<times> ('p, 'q, 'f) world) \<Rightarrow> ('p, 'q, 'f, 'h, 'e) prog \<Rightarrow> 'r \<times> ('p, 'q, 'f, 'h, 'e) prog" where
  "on_world f s = (case f (pr_world s) of (r, w) \<Rightarrow> (r, s\<lparr>pr_world := w\<rparr>))"

definition connectPubSub ::
    "('p, 'q, 'f, 'k, 'd, 'h, 'e) platform \<Rightarrow> string \<Rightarrow> ('p, 'q, 'f, 'h, 'e) prog
     \<Rightarrow> (go_error + 'h \<times> 'h) \<times> ('p, 'q, 'f, 'h, 'e) prog" where
  "connectPubSub pl projectID s =
     (let emulatorHost = Getenv (pl_environ pl) ''PUBSUB_EMULATOR_HOST'';
          s1 = prog_log Info ''Connecting to Pub/Sub''
                 [(''project'', AStr projectID), (''emulator_host'', AStr emulatorHost)] s in
      case on_net (ConnectPubSub (pl_sdk pl) (pl_tie pl) (pl_context pl) projectID emulatorHost) s1 of
        (Inl e, s2) \<Rightarrow> (Inl (Wrapped ''connecting to Pub/Sub: '' e []), s2)
      | (Inr c, s2) \<Rightarrow> (Inr c, s2))"

definition connectStorage ::
    "('p, 'q, 'f, 'k, 'd, 'h, 'e) platform \<Rightarrow> string \<Rightarrow> ('p, 'q, 'f, 'h, 'e) prog
     \<Rightarrow> (go_error + 'h) \<times> ('p, 'q, 'f, 'h, 'e) prog" where
  "connectStorage pl projectID s =
     (let emulatorHost = Getenv (pl_environ pl) ''STORAGE_EMULATOR_HOST'';
          s1 = prog_log Info ''Connecting to Cloud Storage''
                 [(''project'', AStr projectID), (''emulator_host'', AStr emulatorHost)] s in
      case on_net (ConnectStorage (pl_sdk pl) (pl_tie pl) (pl_context pl) projectID emulatorHost) s1 of
        (Inl e, s2) \<Rightarrow> (Inl (Wrapped ''connecting to Cloud Storage: '' e []), s2)
      | (Inr c, s2) \<Rightarrow> (Inr c, s2))"

text \<open>\<open>errors.Join\<close>, which is what closing the two Pub/Sub clients returns.\<close>

definition errors_Join :: "go_error option list \<Rightarrow> go_error option" where
  "errors_Join es =
     (case [e. Some e \<leftarrow> es] of [] \<Rightarrow> None | ts \<Rightarrow> Some (ErrorText (join [CHR 0x0A] (map err_Error ts))))"

definition closeAndLog ::
    "('p, 'q, 'f, 'k, 'd, 'h, 'e) platform \<Rightarrow> string \<Rightarrow> 'h list \<Rightarrow> ('p, 'q, 'f, 'h, 'e) prog \<Rightarrow> ('p, 'q, 'f, 'h, 'e) prog" where
  "closeAndLog pl service hs s =
     (let err = errors_Join (map (\<lambda>h. pl_CloseErr pl h (net_env (pr_net s))) hs);
          s1 = s\<lparr>pr_net := fold Close hs (pr_net s)\<rparr> in
      case err of
        None \<Rightarrow> s1
      | Some e \<Rightarrow> prog_log Warn ''Failed to close client cleanly'' [(''service'', AStr service), (''error'', AErr e)] s1)"

section \<open>Running a section\<close>

datatype run_result = ConfigFailed load_error | Finished outcome

definition dispatch ::
    "('p, 'q, 'f, 'k, 'd, 'h, 'e) platform \<Rightarrow> string \<Rightarrow> ('p, 'q) Provisioner \<Rightarrow> ('p, 'q, 'f, 'h, 'e) prog
     \<Rightarrow> outcome \<times> ('p, 'q, 'f, 'h, 'e) prog" where
  "dispatch pl sect p =
     (if sect = sectionPubSub then on_world (p_ProvisionPubSub p)
      else if sect = sectionStorage then on_world (p_ProvisionStorage p)
      else if sect = sectionCredentials then on_world (p_ProvisionCredentials (pl_host pl) p)
      else on_world (Run (pl_host pl) p))"

text \<open>The rest of \<open>run\<close> once the Pub/Sub interface is decided, then once both are. A deferred
  close happens after everything nested in it.\<close>

definition run_storage ::
    "('p, 'q, 'f, 'k, 'd, 'h, 'e) platform \<Rightarrow> string \<Rightarrow> Config \<Rightarrow> Options \<Rightarrow> 'p PubSubAdmin option
     \<Rightarrow> ('p, 'q, 'f, 'h, 'e) prog \<Rightarrow> outcome \<times> ('p, 'q, 'f, 'h, 'e) prog" where
  "run_storage pl sect cfg opts pubsubAdmin s =
     (if wants sect sectionStorage \<and> st_Buckets (cfg_Storage cfg) \<noteq> [] then
        (case connectStorage pl (cfg_ProjectID cfg) s of
           (Inl e, s1) \<Rightarrow> (Returned (Some e), s1)
         | (Inr h, s1) \<Rightarrow>
             let admin = storage_admin \<lparr>sc_projectID = cfg_ProjectID cfg, sc_client = pl_storage_api pl h\<rparr>;
                 opts1 = opts\<lparr>CompareCreateOnlyBucketAttrs := compareCreateOnlyBucketAttrs (pl_environ pl)\<rparr> in
             apsnd (closeAndLog pl ''Cloud Storage'' [h])
               (dispatch pl sect (New_Provisioner pubsubAdmin (Some admin) cfg opts1) s1))
      else dispatch pl sect (New_Provisioner pubsubAdmin None cfg opts) s)"

definition run_pubsub ::
    "('p, 'q, 'f, 'k, 'd, 'h, 'e) platform \<Rightarrow> string \<Rightarrow> Config \<Rightarrow> Options
     \<Rightarrow> ('p, 'q, 'f, 'h, 'e) prog \<Rightarrow> outcome \<times> ('p, 'q, 'f, 'h, 'e) prog" where
  "run_pubsub pl sect cfg opts s =
     (if wants sect sectionPubSub \<and> ps_Topics (cfg_PubSub cfg) \<noteq> [] then
        (case connectPubSub pl (cfg_ProjectID cfg) s of
           (Inl e, s1) \<Rightarrow> (Returned (Some e), s1)
         | (Inr (topics, subs), s1) \<Rightarrow>
             let admin = client_admin \<lparr>c_projectID = cfg_ProjectID cfg, c_api = pl_pubsub_api pl topics subs,
                                       c_pb = pl_durationpb pl\<rparr> in
             apsnd (closeAndLog pl ''Pub/Sub'' [topics, subs]) (run_storage pl sect cfg opts (Some admin) s1))
      else run_storage pl sect cfg opts None s)"

definition run ::
    "('p, 'q, 'f, 'k, 'd, 'h, 'e) platform \<Rightarrow> string \<Rightarrow> Options \<Rightarrow> ('p, 'q, 'f, 'h, 'e) prog
     \<Rightarrow> run_result \<times> ('p, 'q, 'f, 'h, 'e) prog" where
  "run pl sect opts s =
     (let configPath = envOrDefault (pl_environ pl) ''GCP_CONFIG_PATH'' ''./config.yaml'';
          s1 = prog_log Info ''Loading configuration'' [(''path'', AStr configPath)] s in
      case Load (pl_ReadFile pl) (pl_Unmarshal pl) (pl_environ pl) (pl_url_Parse pl) configPath of
        Inl e \<Rightarrow> (ConfigFailed e, s1)
      | Inr cfg0 \<Rightarrow>
          (case resolveProjectID (pl_environ pl) cfg0 of
             Inl e \<Rightarrow> (Finished (Returned (Some e)), s1)
           | Inr projectID \<Rightarrow>
               let cfg = cfg0\<lparr>cfg_ProjectID := projectID\<rparr> in
               apfst Finished (run_pubsub pl sect cfg opts
                 (prog_log Info ''Configuration loaded''
                    [(''section'', AStr sect), (''project'', AStr projectID),
                     (''topics'', AInt (int (length (ps_Topics (cfg_PubSub cfg))))),
                     (''buckets'', AInt (int (length (st_Buckets (cfg_Storage cfg))))),
                     (''credentials'', AInt (int (length (cfg_Credentials cfg))))] s1))))"

text \<open>\<open>main\<close> after \<open>flag.Parse\<close>: the exit code.\<close>

record flags =
  fl_section :: string
  fl_dry_run :: bool
  fl_dry_run_set :: bool
  fl_version :: bool

definition main ::
    "('p, 'q, 'f, 'k, 'd, 'h, 'e) platform \<Rightarrow> flags \<Rightarrow> ('p, 'q, 'f, 'h, 'e) prog
     \<Rightarrow> nat \<times> ('p, 'q, 'f, 'h, 'e) prog" where
  "main pl fl s =
     (if fl_version fl then (0, s)
      else
        let s1 = prog_log Info ''Starting gcp-emulator-provisioner'' [(''version'', AStr ''dev'')] s;
            sect = (if fl_section fl = [] then envOrDefault (pl_environ pl) ''GCP_SECTION'' sectionAll else fl_section fl) in
        if sect \<notin> validSections then
          (1, prog_log Error ''Invalid section''
                [(''section'', AStr sect),
                 (''valid'', AStrs [sectionAll, sectionPubSub, sectionStorage, sectionCredentials])] s1)
        else case resolveDryRun (pl_environ pl) (fl_dry_run fl) (fl_dry_run_set fl) of
            Inl e \<Rightarrow> (1, prog_log Error ''Invalid dry-run setting'' [(''error'', AErr e)] s1)
          | Inr dryRun \<Rightarrow>
              let s2 = (if dryRun then prog_log Info ''Dry run: no changes will be applied'' [] s1 else s1) in
              (case run pl sect (DefaultOptions\<lparr>DryRun := dryRun\<rparr>) s2 of
                 (Finished (Returned None), s3) \<Rightarrow>
                   (0, prog_log Info ''gcp-emulator-provisioner finished successfully'' [] s3)
               | (Finished (Returned (Some e)), s3) \<Rightarrow>
                   (1, prog_log Error ''Provisioning failed'' [(''error'', AErr e)] s3)
               | (ConfigFailed e, s3) \<Rightarrow> (1, prog_log Error ''Provisioning failed'' [] s3)
               | (Finished Panicked, s3) \<Rightarrow> (2, s3)))"

section \<open>Facts on the plumbing\<close>

lemma prog_log_simps [simp]:
  "pr_net (prog_log l m a s) = pr_net s" "pr_world (prog_log l m a s) = slog l m a (pr_world s)"
  by (simp_all add: prog_log_def)

lemma closeAndLog_world:
  "pubsub_state (pr_world (closeAndLog pl svc hs s)) = pubsub_state (pr_world s)"
  "storage_state (pr_world (closeAndLog pl svc hs s)) = storage_state (pr_world s)"
  "files (pr_world (closeAndLog pl svc hs s)) = files (pr_world s)"
  "(\<And>l m a. P (Log l m a)) \<Longrightarrow> emits P w (pr_world s) \<Longrightarrow> emits P w (pr_world (closeAndLog pl svc hs s))"
  by (auto simp: closeAndLog_def Let_def emits_slog_after split: option.splits)

lemma fold_Close_handles: "mset (open_handles (fold Close hs n)) = mset (open_handles n) - mset hs"
  by (induction hs arbitrary: n) (auto simp: diff_diff_add)

lemma closeAndLog_handles [simp]:
  "mset (open_handles (pr_net (closeAndLog pl svc hs s))) = mset (open_handles (pr_net s)) - mset hs"
  by (auto simp: closeAndLog_def Let_def fold_Close_handles split: option.splits)

lemma on_world_eq: "on_world f s = (fst (f (pr_world s)), s\<lparr>pr_world := snd (f (pr_world s))\<rparr>)"
  by (simp add: on_world_def split: prod.splits)

lemma dispatch_net [simp]: "pr_net (snd (dispatch pl sect p s)) = pr_net s"
  by (simp add: dispatch_def on_world_eq)

text \<open>Connecting leaves the provisioner's world alone but for log records.\<close>

definition same_states :: "('p, 'q, 'f) world \<Rightarrow> ('p, 'q, 'f) world \<Rightarrow> bool" where
  "same_states w w' \<longleftrightarrow> pubsub_state w' = pubsub_state w \<and> storage_state w' = storage_state w \<and> files w' = files w
     \<and> emits (\<lambda>e. \<not> mutating e) w w'"

lemma same_states_slog [simp]: "same_states w (slog l m a w)"
  by (simp add: same_states_def)

lemma same_states_trans: "same_states u v \<Longrightarrow> same_states v w \<Longrightarrow> same_states u w"
  using emits_trans by (fastforce simp: same_states_def)

lemma on_net_same_states:
  assumes "on_net f s = (x, s')" "\<And>n y n'. f n = (y, n') \<Longrightarrow> only_logs n n'"
  shows "same_states (pr_world s) (pr_world s')"
proof -
  obtain n where n: "f ((pr_net s)\<lparr>net_trace := []\<rparr>) = (x, n)"
    and s': "s' = s\<lparr>pr_net := n\<lparr>net_trace := []\<rparr>, pr_world := (pr_world s)\<lparr>trace := trace (pr_world s) @ net_trace n\<rparr>\<rparr>"
    using assms(1) by (auto simp: on_net_def split: prod.splits)
  have "only_logs ((pr_net s)\<lparr>net_trace := []\<rparr>) n" using assms(2) n .
  then show ?thesis using s' by (auto simp: same_states_def emits_def only_logs_def)
qed

lemma connectPubSub_same_states:
  assumes "connectPubSub pl pid s = (x, s')"
  shows "same_states (pr_world s) (pr_world s')"
proof -
  have on: "same_states (pr_world v) (pr_world v')"
    if "on_net (ConnectPubSub (pl_sdk pl) (pl_tie pl) (pl_context pl) pid host) v = (y, v')" for host v y v'
    using that by (rule on_net_same_states) (rule connect_only_logs(1))
  show ?thesis
    using assms unfolding connectPubSub_def Let_def
    by (auto split: prod.splits sum.splits dest!: on intro: same_states_trans[OF same_states_slog])
qed

lemma connectStorage_same_states:
  assumes "connectStorage pl pid s = (x, s')"
  shows "same_states (pr_world s) (pr_world s')"
proof -
  have on: "same_states (pr_world v) (pr_world v')"
    if "on_net (ConnectStorage (pl_sdk pl) (pl_tie pl) (pl_context pl) pid host) v = (y, v')" for host v y v'
    using that by (rule on_net_same_states) (rule connect_only_logs(2))
  show ?thesis
    using assms unfolding connectStorage_def Let_def
    by (auto split: prod.splits sum.splits dest!: on intro: same_states_trans[OF same_states_slog])
qed

text \<open>What connecting opens.\<close>

lemma on_net_handles:
  assumes "on_net f s = (x, s')"
    and "\<And>n y n'. f n = (y, n') \<Longrightarrow> mset (open_handles n') = mset (open_handles n) + H y"
  shows "mset (open_handles (pr_net s')) = mset (open_handles (pr_net s)) + H x"
  using assms(1) assms(2)[of "(pr_net s)\<lparr>net_trace := []\<rparr>"] by (auto simp: on_net_def split: prod.splits)

lemma connectPubSub_handles:
  assumes "connectPubSub pl pid s = (x, s')"
  shows "mset (open_handles (pr_net s')) = mset (open_handles (pr_net s)) + (case x of Inl e \<Rightarrow> {#} | Inr (t, u) \<Rightarrow> {#t, u#})"
proof -
  obtain y v' where on: "on_net (ConnectPubSub (pl_sdk pl) (pl_tie pl) (pl_context pl) pid (Getenv (pl_environ pl) ''PUBSUB_EMULATOR_HOST''))
      (prog_log Info ''Connecting to Pub/Sub'' [(''project'', AStr pid), (''emulator_host'', AStr (Getenv (pl_environ pl) ''PUBSUB_EMULATOR_HOST''))] s)
      = (y, v')" by fastforce
  have "mset (open_handles (pr_net v')) = mset (open_handles (pr_net s)) + (case y of Inl e \<Rightarrow> {#} | Inr (t, u) \<Rightarrow> {#t, u#})"
    using on_net_handles[OF on ConnectPubSub_handles] by simp
  then show ?thesis using assms by (auto simp: connectPubSub_def Let_def on split: sum.splits)
qed

lemma connectStorage_handles:
  assumes "connectStorage pl pid s = (x, s')"
  shows "mset (open_handles (pr_net s')) = mset (open_handles (pr_net s)) + (case x of Inl e \<Rightarrow> {#} | Inr h \<Rightarrow> {#h#})"
proof -
  obtain y v' where on: "on_net (ConnectStorage (pl_sdk pl) (pl_tie pl) (pl_context pl) pid (Getenv (pl_environ pl) ''STORAGE_EMULATOR_HOST''))
      (prog_log Info ''Connecting to Cloud Storage'' [(''project'', AStr pid), (''emulator_host'', AStr (Getenv (pl_environ pl) ''STORAGE_EMULATOR_HOST''))] s)
      = (y, v')" by fastforce
  have "mset (open_handles (pr_net v')) = mset (open_handles (pr_net s)) + (case y of Inl e \<Rightarrow> {#} | Inr h \<Rightarrow> {#h#})"
    using on_net_handles[OF on ConnectStorage_handles] by simp
  then show ?thesis using assms by (auto simp: connectStorage_def Let_def on split: sum.splits)
qed

section \<open>Every run comes down to one dispatch\<close>

definition pubsub_admin_of ::
    "('p, 'q, 'f, 'k, 'd, 'h, 'e) platform \<Rightarrow> string \<Rightarrow> 'h \<Rightarrow> 'h \<Rightarrow> 'p PubSubAdmin" where
  "pubsub_admin_of pl pid t u =
     client_admin \<lparr>c_projectID = pid, c_api = pl_pubsub_api pl t u, c_pb = pl_durationpb pl\<rparr>"

definition storage_admin_of :: "('p, 'q, 'f, 'k, 'd, 'h, 'e) platform \<Rightarrow> string \<Rightarrow> 'h \<Rightarrow> 'q StorageAdmin" where
  "storage_admin_of pl pid h = storage_admin \<lparr>sc_projectID = pid, sc_client = pl_storage_api pl h\<rparr>"

definition pubsub_for ::
    "('p, 'q, 'f, 'k, 'd, 'h, 'e) platform \<Rightarrow> string \<Rightarrow> Config \<Rightarrow> 'h \<Rightarrow> 'h \<Rightarrow> 'p PubSubAdmin option" where
  "pubsub_for pl sect cfg t u =
     (if wants sect sectionPubSub \<and> ps_Topics (cfg_PubSub cfg) \<noteq> []
      then Some (pubsub_admin_of pl (cfg_ProjectID cfg) t u) else None)"

definition storage_for ::
    "('p, 'q, 'f, 'k, 'd, 'h, 'e) platform \<Rightarrow> string \<Rightarrow> Config \<Rightarrow> 'h \<Rightarrow> 'q StorageAdmin option" where
  "storage_for pl sect cfg h =
     (if wants sect sectionStorage \<and> st_Buckets (cfg_Storage cfg) \<noteq> []
      then Some (storage_admin_of pl (cfg_ProjectID cfg) h) else None)"

text \<open>The provisioner \<open>run\<close> dispatches to: which interfaces it has, and on what configuration.\<close>

definition prepared ::
    "('p, 'q, 'f, 'k, 'd, 'h, 'e) platform \<Rightarrow> string \<Rightarrow> Options \<Rightarrow> ('p, 'q) Provisioner \<Rightarrow> bool" where
  "prepared pl sect opts p \<longleftrightarrow>
     (\<exists>cfg0 pid t u h.
        Load (pl_ReadFile pl) (pl_Unmarshal pl) (pl_environ pl) (pl_url_Parse pl)
          (envOrDefault (pl_environ pl) ''GCP_CONFIG_PATH'' ''./config.yaml'') = Inr cfg0
        \<and> resolveProjectID (pl_environ pl) cfg0 = Inr pid
        \<and> pv_cfg p = cfg0\<lparr>cfg_ProjectID := pid\<rparr>
        \<and> DryRun (pv_opts p) = DryRun opts
        \<and> pv_pubsub p = pubsub_for pl sect (pv_cfg p) t u
        \<and> pv_storage p = storage_for pl sect (pv_cfg p) h)"

definition gave_up :: "run_result \<Rightarrow> bool" where
  "gave_up x \<longleftrightarrow> (case x of ConfigFailed e \<Rightarrow> True | Finished (Returned (Some e)) \<Rightarrow> True | _ \<Rightarrow> False)"

text \<open>Why a run may not get to its section: an endpoint cannot be reached from some state, or the
  configuration does not load, or it names no project.\<close>

definition unreachable :: "('p, 'q, 'f, 'k, 'd, 'h, 'e) platform \<Rightarrow> string \<Rightarrow> bool" where
  "unreachable pl pid \<longleftrightarrow>
     (\<exists>(v :: ('p, 'q, 'f, 'h, 'e) prog) e. fst (connectPubSub pl pid v) = Inl e)
     \<or> (\<exists>(v :: ('p, 'q, 'f, 'h, 'e) prog) e. fst (connectStorage pl pid v) = Inl e)"

lemma unreachableI:
  "connectPubSub pl pid v = (Inl e, v') \<Longrightarrow> unreachable pl pid"
  "connectStorage pl pid u = (Inl e', u') \<Longrightarrow> unreachable pl pid"
  unfolding unreachable_def by (metis fst_conv)+

definition cannot_start :: "('p, 'q, 'f, 'k, 'd, 'h, 'e) platform \<Rightarrow> bool" where
  "cannot_start pl \<longleftrightarrow>
     (case Load (pl_ReadFile pl) (pl_Unmarshal pl) (pl_environ pl) (pl_url_Parse pl)
             (envOrDefault (pl_environ pl) ''GCP_CONFIG_PATH'' ''./config.yaml'') of
        Inl e \<Rightarrow> True
      | Inr cfg0 \<Rightarrow> (case resolveProjectID (pl_environ pl) cfg0 of Inl e \<Rightarrow> True | Inr pid \<Rightarrow> unreachable pl pid))"

lemma same_states_refl [simp]: "same_states w w"
  by (simp add: same_states_def)

lemma closeAndLog_same_states: "same_states (pr_world s) (pr_world (closeAndLog pl svc hs s))"
  by (simp add: same_states_def closeAndLog_world)

lemma run_storage_dispatch:
  assumes "run_storage pl sect cfg opts psa s = (o1, s')"
  obtains e v where "o1 = Returned (Some e)" "same_states (pr_world s) (pr_world s')" "connectStorage pl (cfg_ProjectID cfg) s = (Inl e, v)"
  | opts1 h s1 s2 where "DryRun opts1 = DryRun opts" "same_states (pr_world s) (pr_world s1)"
      "dispatch pl sect (New_Provisioner psa (storage_for pl sect cfg h) cfg opts1) s1 = (o1, s2)"
      "same_states (pr_world s2) (pr_world s')"
proof (cases "wants sect sectionStorage \<and> st_Buckets (cfg_Storage cfg) \<noteq> []")
  case True
  obtain x s1 where c: "connectStorage pl (cfg_ProjectID cfg) s = (x, s1)" by fastforce
  note same = connectStorage_same_states[OF c]
  show ?thesis
  proof (cases x)
    case (Inl e)
    then show ?thesis using assms True c same that(1)[of e s1] by (auto simp: run_storage_def)
  next
    case (Inr h)
    let ?o = "opts\<lparr>CompareCreateOnlyBucketAttrs := compareCreateOnlyBucketAttrs (pl_environ pl)\<rparr>"
    obtain s2 where d: "dispatch pl sect (New_Provisioner psa (storage_for pl sect cfg h) cfg ?o) s1 = (o1, s2)"
      and s': "s' = closeAndLog pl ''Cloud Storage'' [h] s2"
      using assms True c Inr
      by (auto simp: run_storage_def Let_def storage_for_def storage_admin_of_def apsnd_def map_prod_def split: prod.splits)
    show ?thesis by (rule that(2)[OF _ same d]) (simp_all add: s' closeAndLog_same_states)
  qed
next
  case False
  then have "dispatch pl sect (New_Provisioner psa (storage_for pl sect cfg h) cfg opts) s = (o1, s')" for h
    using assms by (auto simp: run_storage_def storage_for_def)
  then show ?thesis by (rule that(2)[OF refl same_states_refl]) simp
qed

lemma run_pubsub_dispatch:
  assumes "run_pubsub pl sect cfg opts s = (o1, s')"
  obtains e where "o1 = Returned (Some e)" "same_states (pr_world s) (pr_world s')" "unreachable pl (cfg_ProjectID cfg)"
  | opts1 t u h s1 s2 where "DryRun opts1 = DryRun opts" "same_states (pr_world s) (pr_world s1)"
      "dispatch pl sect (New_Provisioner (pubsub_for pl sect cfg t u) (storage_for pl sect cfg h) cfg opts1) s1 = (o1, s2)"
      "same_states (pr_world s2) (pr_world s')"
proof (cases "wants sect sectionPubSub \<and> ps_Topics (cfg_PubSub cfg) \<noteq> []")
  case True
  obtain x s1 where c: "connectPubSub pl (cfg_ProjectID cfg) s = (x, s1)" by fastforce
  note same = connectPubSub_same_states[OF c]
  show ?thesis
  proof (cases x)
    case (Inl e)
    then show ?thesis using assms True c same that(1)[of e] by (auto simp: run_pubsub_def intro: unreachableI)
  next
    case (Inr tu)
    obtain t u where tu: "tu = (t, u)" by fastforce
    obtain s2 where r: "run_storage pl sect cfg opts (pubsub_for pl sect cfg t u) s1 = (o1, s2)"
      and s': "s' = closeAndLog pl ''Pub/Sub'' [t, u] s2"
      using assms True c Inr tu
      by (auto simp: run_pubsub_def Let_def pubsub_for_def pubsub_admin_of_def apsnd_def map_prod_def split: prod.splits)
    have close: "same_states v (pr_world s')" if "same_states v (pr_world s2)" for v
      using same_states_trans[OF that closeAndLog_same_states] by (simp add: s')
    from r show ?thesis
      by (rule run_storage_dispatch) (use that same same_states_trans close unreachableI(2) in blast)+
  qed
next
  case False
  then have "run_storage pl sect cfg opts (pubsub_for pl sect cfg t u) s = (o1, s')" for t u
    using assms by (auto simp: run_pubsub_def pubsub_for_def)
  then show ?thesis
    by (rule run_storage_dispatch) (use that unreachableI(2) in blast)+
qed

lemma run_dispatch:
  assumes "run pl sect opts s = (x, s')"
  shows "(gave_up x \<and> cannot_start pl \<and> same_states (pr_world s) (pr_world s'))
    \<or> (\<exists>p s1 o1 s2. prepared pl sect opts p \<and> same_states (pr_world s) (pr_world s1)
         \<and> dispatch pl sect p s1 = (o1, s2) \<and> x = Finished o1 \<and> same_states (pr_world s2) (pr_world s'))"
proof -
  let ?path = "envOrDefault (pl_environ pl) ''GCP_CONFIG_PATH'' ''./config.yaml''"
  let ?s1 = "prog_log Info ''Loading configuration'' [(''path'', AStr ?path)] s"
  show ?thesis
  proof (cases "Load (pl_ReadFile pl) (pl_Unmarshal pl) (pl_environ pl) (pl_url_Parse pl) ?path")
    case (Inl e)
    then show ?thesis using assms by (auto simp: run_def Let_def gave_up_def cannot_start_def)
  next
    case load: (Inr cfg0)
    show ?thesis
    proof (cases "resolveProjectID (pl_environ pl) cfg0")
      case (Inl e)
      then show ?thesis using assms load by (auto simp: run_def Let_def gave_up_def cannot_start_def)
    next
      case pid: (Inr pid)
      define s2 where "s2 = prog_log Info ''Configuration loaded''
        [(''section'', AStr sect), (''project'', AStr pid),
         (''topics'', AInt (int (length (ps_Topics (cfg_PubSub cfg0))))),
         (''buckets'', AInt (int (length (st_Buckets (cfg_Storage cfg0))))),
         (''credentials'', AInt (int (length (cfg_Credentials cfg0))))] ?s1"
      have s2: "same_states (pr_world s) (pr_world s2)"
        using same_states_trans[OF same_states_slog same_states_slog] by (simp add: s2_def)
      obtain o1 where o1: "run_pubsub pl sect (cfg0\<lparr>cfg_ProjectID := pid\<rparr>) opts s2 = (o1, s')" "x = Finished o1"
        using assms load pid by (auto simp: run_def Let_def s2_def apfst_def map_prod_def split: prod.splits)
      from o1(1) show ?thesis
      proof (rule run_pubsub_dispatch, goal_cases)
        case (1 e)
        then have "cannot_start pl" using load pid by (simp add: cannot_start_def)
        then show ?thesis using 1 o1(2) same_states_trans[OF s2] by (auto simp: gave_up_def)
      next
        case (2 opts1 t u h s1 s3)
        let ?cfg = "cfg0\<lparr>cfg_ProjectID := pid\<rparr>"
        have "prepared pl sect opts (New_Provisioner (pubsub_for pl sect ?cfg t u) (storage_for pl sect ?cfg h) ?cfg opts1)"
          unfolding prepared_def New_Provisioner_def using load pid 2(1) by auto
        then show ?thesis using 2 o1(2) same_states_trans[OF s2] by blast
      qed
    qed
  qed
qed

section \<open>Facts on the dispatch\<close>

lemma p_ProvisionPubSub_emits:
  assumes "p_ProvisionPubSub p w = (r, w')" "DryRun (pv_opts p)"
  shows "emits (\<lambda>e. \<not> mutating e) w w'"
proof (cases "pv_pubsub p")
  case None
  then show ?thesis using assms(1)
    by (auto simp: p_ProvisionPubSub_def Let_def split: list.splits sum.splits)
next
  case (Some ps)
  then obtain r' where "ProvisionPubSub ps (pv_opts p) (pv_cfg p) w = (r', w')"
    using assms(1) by (auto simp: p_ProvisionPubSub_def apfst_def map_prod_def split: prod.splits)
  from ProvisionPubSub_passes[OF this, of "\<lambda>e. \<not> mutating e" "\<lambda>e. \<not> mutating e"] assms(2)
  show ?thesis by (auto intro: emits_trans)
qed

lemma p_ProvisionStorage_emits:
  assumes "p_ProvisionStorage p w = (r, w')" "DryRun (pv_opts p)"
  shows "emits (\<lambda>e. \<not> mutating e) w w'"
proof (cases "pv_storage p")
  case None
  then show ?thesis using assms(1) by (auto simp: p_ProvisionStorage_def split: list.splits)
next
  case (Some sa)
  then obtain r' where "ProvisionStorage sa (pv_opts p) (pv_cfg p) w = (r', w')"
    using assms(1) by (auto simp: p_ProvisionStorage_def apfst_def map_prod_def split: prod.splits)
  then show ?thesis by (rule ProvisionStorage_emits) (use assms(2) in auto)
qed

lemma p_ProvisionCredentials_emits:
  assumes "p_ProvisionCredentials h p w = (r, w')" "DryRun (pv_opts p)"
  shows "emits (\<lambda>e. \<not> mutating e) w w'"
proof -
  obtain r' where "ProvisionCredentials h (pv_opts p) (pv_cfg p) w = (r', w')"
    using assms(1) by (auto simp: p_ProvisionCredentials_def apfst_def map_prod_def split: prod.splits)
  then show ?thesis by (rule ProvisionCredentials_emits) (use assms(2) in auto)
qed

lemma and_then_eq: "and_then x f = (if fst x = Returned None then f (snd x) else x)"
  by (cases x) (simp add: and_then_def split: outcome.splits option.splits)

text \<open>\<open>Run\<close> goes through its sections in order and stops at the first that fails.\<close>

lemma Run_sections:
  assumes "Run h p w = (r, w')"
  obtains r1 w1 where "p_ProvisionCredentials h p (slog Info ''Starting provisioning'' [] w) = (r1, w1)"
      "r1 \<noteq> Returned None" "r = r1" "w' = w1"
  | w1 r2 w2 where "p_ProvisionCredentials h p (slog Info ''Starting provisioning'' [] w) = (Returned None, w1)"
      "p_ProvisionPubSub p w1 = (r2, w2)" "r2 \<noteq> Returned None" "r = r2" "w' = w2"
  | w1 w2 r3 w3 where "p_ProvisionCredentials h p (slog Info ''Starting provisioning'' [] w) = (Returned None, w1)"
      "p_ProvisionPubSub p w1 = (Returned None, w2)" "p_ProvisionStorage p w2 = (r3, w3)" "r = r3"
      "w' = (if r3 = Returned None then slog Info ''Provisioning complete'' [] w3 else w3)"
proof -
  note step = and_then_eq
  obtain r1 w1 where c: "p_ProvisionCredentials h p (slog Info ''Starting provisioning'' [] w) = (r1, w1)" by fastforce
  show ?thesis
  proof (cases "r1 = Returned None")
    case False
    then show ?thesis using assms c that(1) by (simp add: Run_def step)
  next
    case r1: True
    obtain r2 w2 where q: "p_ProvisionPubSub p w1 = (r2, w2)" by fastforce
    show ?thesis
    proof (cases "r2 = Returned None")
      case False
      then show ?thesis using assms c q r1 that(2) by (simp add: Run_def step)
    next
      case True
      obtain r3 w3 where t: "p_ProvisionStorage p w2 = (r3, w3)" by fastforce
      show ?thesis
        by (rule that(3)[of w1 w2 r3 w3]) (use assms c q t r1 True in \<open>auto simp: Run_def step split: if_splits\<close>)
    qed
  qed
qed

lemma dispatch_dry_run:
  assumes "dispatch pl sect p s = (r, s')" "DryRun (pv_opts p)"
  shows "emits (\<lambda>e. \<not> mutating e) (pr_world s) (pr_world s')"
proof -
  have start: "emits (\<lambda>e. \<not> mutating e) v v'" if "emits (\<lambda>e. \<not> mutating e) (slog l m a v) v'" for l m a v v'
    using that by (rule emits_slog_before) simp
  note steps = p_ProvisionCredentials_emits[OF _ assms(2)] p_ProvisionPubSub_emits[OF _ assms(2)]
    p_ProvisionStorage_emits[OF _ assms(2)]
  have "emits (\<lambda>e. \<not> mutating e) w w'" if "Run h p w = (r1, w')" for h w r1 w'
    using that
    by (rule Run_sections)
       (auto dest!: steps start intro!: emits_slog_after intro: emits_trans emits_trans[OF emits_trans])
  then show ?thesis
    using assms(1) steps by (auto simp: dispatch_def on_world_def split: if_splits prod.splits)
qed

lemma dispatch_no_panic:
  assumes "prepared pl sect opts p" "sect \<in> validSections" "dispatch pl sect p s = (r, s')"
  shows "r \<noteq> Panicked"
proof -
  have ps: "r1 \<noteq> Panicked" if "p_ProvisionPubSub p w = (r1, w')" "wants sect sectionPubSub" for w r1 w'
    using assms(1) that
    by (auto simp: p_ProvisionPubSub_def prepared_def pubsub_for_def apfst_def map_prod_def split: prod.splits list.splits)
  have st: "r1 \<noteq> Panicked" if "p_ProvisionStorage p w = (r1, w')" "wants sect sectionStorage" for w r1 w'
    using assms(1) that
    by (auto simp: p_ProvisionStorage_def prepared_def storage_for_def apfst_def map_prod_def split: prod.splits list.splits)
  have cr: "r1 \<noteq> Panicked" if "p_ProvisionCredentials h p w = (r1, w')" for h w r1 w'
    using that by (auto simp: p_ProvisionCredentials_def apfst_def map_prod_def split: prod.splits)
  have all: "r1 \<noteq> Panicked" if "Run h p w = (r1, w')" "wants sect sectionPubSub" "wants sect sectionStorage" for h w r1 w'
    using that(1) by (rule Run_sections) (use cr ps st that(2,3) in blast)+
  show ?thesis
    using assms(2,3)
    by (auto simp: dispatch_def on_world_def validSections_def wants_def section_defs split: if_splits prod.splits
             dest: ps st cr all)
qed

section \<open>Facts on whole runs\<close>

text \<open>What was dialled is closed again, on every path.\<close>

lemma run_storage_handles:
  assumes "run_storage pl sect cfg opts psa s = (o1, s')"
  shows "mset (open_handles (pr_net s')) = mset (open_handles (pr_net s))"
proof -
  have d: "pr_net v' = pr_net v" if "dispatch pl sect p v = (r, v')" for p v r v'
    using dispatch_net[of pl sect p v] that by simp
  show ?thesis
    using assms
    by (auto simp: run_storage_def Let_def apsnd_def map_prod_def split: if_splits prod.splits sum.splits
        dest!: connectStorage_handles d)
qed

lemma run_pubsub_handles:
  assumes "run_pubsub pl sect cfg opts s = (o1, s')"
  shows "mset (open_handles (pr_net s')) = mset (open_handles (pr_net s))"
  using assms
  by (auto simp: run_pubsub_def Let_def apsnd_def map_prod_def split: if_splits prod.splits sum.splits
      dest!: connectPubSub_handles run_storage_handles)

lemma run_handles:
  assumes "run pl sect opts s = (x, s')"
  shows "mset (open_handles (pr_net s')) = mset (open_handles (pr_net s))"
  using assms
  by (auto simp: run_def Let_def apfst_def map_prod_def split: if_splits prod.splits sum.splits
      dest!: run_pubsub_handles)

lemma run_no_panic:
  assumes "run pl sect opts s = (x, s')" "sect \<in> validSections"
  shows "x \<noteq> Finished Panicked"
  using run_dispatch[OF assms(1)] by (auto simp: gave_up_def dest: dispatch_no_panic[OF _ assms(2)])

lemma run_dry_run:
  assumes "run pl sect opts s = (x, s')" "DryRun opts"
  shows "emits (\<lambda>e. \<not> mutating e) (pr_world s) (pr_world s')"
proof -
  have dry: "emits (\<lambda>e. \<not> mutating e) (pr_world v) (pr_world v')"
    if "prepared pl sect opts p" "dispatch pl sect p v = (r, v')" for p v r v'
    using that(2) by (rule dispatch_dry_run) (use that(1) assms(2) in \<open>auto simp: prepared_def\<close>)
  from run_dispatch[OF assms(1)] show ?thesis
    by (auto simp: same_states_def dest!: dry intro: emits_trans emits_trans[OF emits_trans])
qed

definition exit_code :: "run_result \<Rightarrow> nat" where
  "exit_code x = (case x of Finished (Returned None) \<Rightarrow> 0 | Finished Panicked \<Rightarrow> 2 | _ \<Rightarrow> 1)"

definition main_section :: "environ \<Rightarrow> flags \<Rightarrow> string" where
  "main_section env fl = (if fl_section fl = [] then envOrDefault env ''GCP_SECTION'' sectionAll else fl_section fl)"

text \<open>\<open>main\<close> stops before \<open>run\<close>, or is one \<open>run\<close> of a valid section between log records.\<close>

lemma main_run:
  assumes "main pl fl s = (code, s')"
  obtains "same_states (pr_world s) (pr_world s')" "pr_net s' = pr_net s" "code = 1 \<or> (fl_version fl \<and> code = 0)"
      "fl_version fl \<or> main_section (pl_environ pl) fl \<notin> validSections
        \<or> (\<exists>e. resolveDryRun (pl_environ pl) (fl_dry_run fl) (fl_dry_run_set fl) = Inl e)"
  | dry s1 x s2 where "main_section (pl_environ pl) fl \<in> validSections"
      "resolveDryRun (pl_environ pl) (fl_dry_run fl) (fl_dry_run_set fl) = Inr dry"
      "same_states (pr_world s) (pr_world s1)" "pr_net s1 = pr_net s"
      "run pl (main_section (pl_environ pl) fl) (DefaultOptions\<lparr>DryRun := dry\<rparr>) s1 = (x, s2)"
      "same_states (pr_world s2) (pr_world s')" "pr_net s' = pr_net s2" "code = exit_code x"
proof (cases "fl_version fl \<or> main_section (pl_environ pl) fl \<notin> validSections
    \<or> (\<exists>e. resolveDryRun (pl_environ pl) (fl_dry_run fl) (fl_dry_run_set fl) = Inl e)")
  case True
  note log2 = same_states_trans[OF same_states_slog same_states_slog]
  show ?thesis
    by (rule that(1)) (use assms True log2 in \<open>auto simp: main_def Let_def main_section_def split: if_splits\<close>)
next
  case False
  then obtain dry where dry: "resolveDryRun (pl_environ pl) (fl_dry_run fl) (fl_dry_run_set fl) = Inr dry"
    by (cases "resolveDryRun (pl_environ pl) (fl_dry_run fl) (fl_dry_run_set fl)") auto
  define s0 where "s0 = prog_log Info ''Starting gcp-emulator-provisioner'' [(''version'', AStr ''dev'')] s"
  define s1 where "s1 = (if dry then prog_log Info ''Dry run: no changes will be applied'' [] s0 else s0)"
  obtain x s2 where run: "run pl (main_section (pl_environ pl) fl) (DefaultOptions\<lparr>DryRun := dry\<rparr>) s1 = (x, s2)" by fastforce
  have "same_states (pr_world s) (pr_world s1)" "pr_net s1 = pr_net s"
    using same_states_trans[OF same_states_slog same_states_slog] by (auto simp: s0_def s1_def)
  moreover have "same_states (pr_world s2) (pr_world s') \<and> pr_net s' = pr_net s2 \<and> code = exit_code x"
    using assms False dry run
    by (auto simp: main_def Let_def main_section_def[symmetric] s0_def[symmetric] s1_def[symmetric] exit_code_def
        split: run_result.splits outcome.splits option.splits)
  ultimately show ?thesis using that(2) False dry run by blast
qed

text \<open>A section leaves the other sections' parts of the world alone.\<close>

lemma p_sections_only:
  "p_ProvisionPubSub p w = (r, w') \<Longrightarrow> storage_state w' = storage_state w \<and> files w' = files w"
  "p_ProvisionStorage p w = (r, w') \<Longrightarrow> pubsub_state w' = pubsub_state w \<and> files w' = files w"
  "p_ProvisionCredentials h p w = (r, w') \<Longrightarrow> pubsub_state w' = pubsub_state w \<and> storage_state w' = storage_state w"
  by (auto simp: p_ProvisionPubSub_def p_ProvisionStorage_def p_ProvisionCredentials_def Let_def apfst_def map_prod_def
      only_pubsub_def only_storage_def only_files_def
      split: option.splits list.splits sum.splits prod.splits
      dest!: ProvisionPubSub_only_pubsub ProvisionStorage_only_storage ProvisionCredentials_only_files)

definition untouched :: "string \<Rightarrow> ('p, 'q, 'f) world \<Rightarrow> ('p, 'q, 'f) world \<Rightarrow> bool" where
  "untouched sect w w' \<longleftrightarrow>
     (\<not> wants sect sectionPubSub \<longrightarrow> pubsub_state w' = pubsub_state w)
     \<and> (\<not> wants sect sectionStorage \<longrightarrow> storage_state w' = storage_state w)
     \<and> (\<not> wants sect sectionCredentials \<longrightarrow> files w' = files w)"

lemma dispatch_untouched:
  assumes "dispatch pl sect p s = (r, s')" "sect \<in> validSections"
  shows "untouched sect (pr_world s) (pr_world s')"
  using assms
  by (auto simp: dispatch_def on_world_def untouched_def wants_def validSections_def section_defs
      split: if_splits prod.splits dest!: p_sections_only)

lemma untouched_same_states:
  "same_states u v \<Longrightarrow> untouched sect v w \<Longrightarrow> untouched sect u w"
  "untouched sect u v \<Longrightarrow> same_states v w \<Longrightarrow> untouched sect u w"
  "same_states u w \<Longrightarrow> untouched sect u w"
  by (auto simp: same_states_def untouched_def)

lemma run_untouched:
  assumes "run pl sect opts s = (x, s')" "sect \<in> validSections"
  shows "untouched sect (pr_world s) (pr_world s')"
  using run_dispatch[OF assms(1)] dispatch_untouched[OF _ assms(2)] untouched_same_states by metis

lemma run_credentials_net:
  assumes "run pl sectionCredentials opts s = (x, s')"
  shows "pr_net s' = pr_net s"
proof -
  have "\<not> wants sectionCredentials sectionPubSub" "\<not> wants sectionCredentials sectionStorage"
    by (simp_all add: wants_def section_defs)
  moreover have "pr_net v' = pr_net v" if "dispatch pl sectionCredentials p v = (r, v')" for p v r v'
    using dispatch_net[of pl sectionCredentials p v] that by simp
  ultimately show ?thesis
    using assms
    by (auto simp: run_def run_pubsub_def run_storage_def Let_def apfst_def map_prod_def split: sum.splits prod.splits)
qed

text \<open>The last record of an invocation.\<close>

lemma main_ends:
  assumes "main pl fl s = (code, s')" "\<not> fl_version fl"
  shows "(\<exists>v m a. code = 1 \<and> pr_world s' = slog Error m a v) \<or> code = 2
    \<or> (\<exists>v. code = 0 \<and> pr_world s' = slog Info ''gcp-emulator-provisioner finished successfully'' [] v)"
proof (cases "main_section (pl_environ pl) fl \<in> validSections")
  case False
  have "code = 1 \<and> (\<exists>v m a. pr_world s' = slog Error m a v)"
    using assms False by (fastforce simp: main_def Let_def main_section_def[symmetric])
  then show ?thesis by blast
next
  case sect: True
  show ?thesis
  proof (cases "resolveDryRun (pl_environ pl) (fl_dry_run fl) (fl_dry_run_set fl)")
    case (Inl e)
    have "code = 1 \<and> (\<exists>v m a. pr_world s' = slog Error m a v)"
      using assms sect Inl by (fastforce simp: main_def Let_def main_section_def[symmetric])
    then show ?thesis by blast
  next
    case (Inr dry)
    define s0 where "s0 = prog_log Info ''Starting gcp-emulator-provisioner'' [(''version'', AStr ''dev'')] s"
    define s1 where "s1 = (if dry then prog_log Info ''Dry run: no changes will be applied'' [] s0 else s0)"
    obtain x s2 where run: "run pl (main_section (pl_environ pl) fl) (DefaultOptions\<lparr>DryRun := dry\<rparr>) s1 = (x, s2)" by fastforce
    have "(case x of Finished (Returned None) \<Rightarrow> (0, prog_log Info ''gcp-emulator-provisioner finished successfully'' [] s2)
        | Finished (Returned (Some e)) \<Rightarrow> (1, prog_log Error ''Provisioning failed'' [(''error'', AErr e)] s2)
        | ConfigFailed e \<Rightarrow> (1, prog_log Error ''Provisioning failed'' [] s2)
        | Finished Panicked \<Rightarrow> (2, s2)) = (code, s')"
      using assms sect Inr run
      by (simp add: main_def Let_def main_section_def[symmetric] s0_def[symmetric] s1_def[symmetric]
          split: run_result.splits outcome.splits option.splits)
    then show ?thesis by (fastforce split: run_result.splits outcome.splits option.splits)
  qed
qed

end
