(* ===== verification/Fake_PubSub.thy ===== *)
theory Fake_PubSub
  imports PubSub_Section
begin

text \<open>
  \<open>internal/client/pubsub_server_test.go\<close>: \<open>fakePubSub\<close>, the repository's in-process stand-in
  for the Pub/Sub admin services, which mirrors the emulator in validating a whole update
  mask before applying any of it. It is the \<open>pubsub_api\<close> the \<open>PubSubClient\<close> of
  \<open>internal/client\<close> is run against here, with the \<open>Duration\<close> message as seconds and nanoseconds;
  together they satisfy the contract \<open>pubsub_endpoint\<close>.
\<close>

section \<open>The \<open>Duration\<close> message\<close>

type_synonym pb_Duration = "int \<times> int"

definition seconds_pb :: "pb_Duration durationpb" where
  "seconds_pb =
     \<lparr>New = (\<lambda>d. (d div Second, d mod Second)),
      AsDuration = (\<lambda>m. case m of None \<Rightarrow> 0 | Some (s, n) \<Rightarrow> s * Second + n)\<rparr>"

interpretation seconds: duration_message seconds_pb
  by unfold_locales (simp_all add: seconds_pb_def)

section \<open>The server\<close>

fun code_String :: "grpc_code \<Rightarrow> string" where
  "code_String CodeOK = ''OK''"
| "code_String CodeCanceled = ''Canceled''"
| "code_String CodeUnknown = ''Unknown''"
| "code_String CodeInvalidArgument = ''InvalidArgument''"
| "code_String CodeDeadlineExceeded = ''DeadlineExceeded''"
| "code_String CodeNotFound = ''NotFound''"
| "code_String CodeAlreadyExists = ''AlreadyExists''"
| "code_String CodePermissionDenied = ''PermissionDenied''"
| "code_String CodeFailedPrecondition = ''FailedPrecondition''"
| "code_String CodeUnavailable = ''Unavailable''"
| "code_String (CodeOther n) = ''Code('' @ Itoa n @ '')''"

text \<open>\<open>status.Error\<close> as the client receives it.\<close>

definition status_Error :: "grpc_code \<Rightarrow> string \<Rightarrow> go_error" where
  "status_Error c msg = StatusError c (''rpc error: code = '' @ code_String c @ '' desc = '' @ msg)"

record 'd fakePubSub =
  fk_topics :: "string \<Rightarrow> 'd pb_Topic option"
  fk_subs :: "string \<Rightarrow> 'd pb_Subscription option"
  fk_unsupportedPaths :: "string set"
  fk_listErr :: "go_error option"
  fk_appliedMasks :: "string list list"

definition startFakePubSub :: "'d fakePubSub" where
  "startFakePubSub = \<lparr>fk_topics = (\<lambda>n. None), fk_subs = (\<lambda>n. None), fk_unsupportedPaths = {},
     fk_listErr = None, fk_appliedMasks = []\<rparr>"

definition fake_ListTopics :: "'d fakePubSub \<Rightarrow> go_error option \<times> 'd fakePubSub" where
  "fake_ListTopics f = (fk_listErr f, f)"

definition fake_CreateTopic :: "'d pb_Topic \<Rightarrow> 'd fakePubSub \<Rightarrow> go_error option \<times> 'd fakePubSub" where
  "fake_CreateTopic t f =
     (case fk_topics f (pt_Name t) of
        Some _ \<Rightarrow> (Some (status_Error CodeAlreadyExists ''topic already exists''), f)
      | None \<Rightarrow> (None, f\<lparr>fk_topics := (fk_topics f)(pt_Name t := Some t)\<rparr>))"

definition fake_GetTopic :: "string \<Rightarrow> 'd fakePubSub \<Rightarrow> (go_error + 'd pb_Topic) \<times> 'd fakePubSub" where
  "fake_GetTopic n f =
     (case fk_topics f n of
        None \<Rightarrow> (Inl (status_Error CodeNotFound ''topic not found''), f)
      | Some t \<Rightarrow> (Inr t, f))"

definition fake_topic_field :: "'d pb_Topic \<Rightarrow> string \<Rightarrow> 'd pb_Topic \<Rightarrow> 'd pb_Topic" where
  "fake_topic_field req p existing =
     (if p = ''labels'' then existing\<lparr>pt_Labels := pt_Labels req\<rparr>
      else if p = ''message_retention_duration''
      then existing\<lparr>pt_MessageRetentionDuration := pt_MessageRetentionDuration req\<rparr>
      else existing)"

definition unknown_field :: "string \<Rightarrow> string \<Rightarrow> string \<Rightarrow> go_error" where
  "unknown_field request kind p = status_Error CodeInvalidArgument
     (''Invalid update_mask provided in the '' @ request @ '': '' @ p @ '' is not a known '' @ kind @ '' field.'')"

definition fake_UpdateTopic ::
    "'d pb_Topic \<Rightarrow> string list \<Rightarrow> 'd fakePubSub \<Rightarrow> go_error option \<times> 'd fakePubSub" where
  "fake_UpdateTopic req paths f0 =
     (let f = f0\<lparr>fk_appliedMasks := fk_appliedMasks f0 @ [paths]\<rparr> in
      case find (\<lambda>p. p \<in> fk_unsupportedPaths f) paths of
        Some p \<Rightarrow> (Some (unknown_field ''UpdateTopicRequest'' ''Topic'' p), f)
      | None \<Rightarrow>
          (case fk_topics f (pt_Name req) of
             None \<Rightarrow> (Some (status_Error CodeNotFound ''topic not found''), f)
           | Some existing \<Rightarrow>
               (None, f\<lparr>fk_topics := (fk_topics f)(pt_Name req := Some (fold (fake_topic_field req) paths existing))\<rparr>)))"

definition fake_CreateSubscription ::
    "'d pb_Subscription \<Rightarrow> 'd fakePubSub \<Rightarrow> go_error option \<times> 'd fakePubSub" where
  "fake_CreateSubscription s f =
     (case fk_subs f (pq_Name s) of
        Some _ \<Rightarrow> (Some (status_Error CodeAlreadyExists ''subscription already exists''), f)
      | None \<Rightarrow> (None, f\<lparr>fk_subs := (fk_subs f)(pq_Name s := Some s)\<rparr>))"

definition fake_GetSubscription ::
    "string \<Rightarrow> 'd fakePubSub \<Rightarrow> (go_error + 'd pb_Subscription) \<times> 'd fakePubSub" where
  "fake_GetSubscription n f =
     (case fk_subs f n of
        None \<Rightarrow> (Inl (status_Error CodeNotFound ''subscription not found''), f)
      | Some s \<Rightarrow> (Inr s, f))"

definition fake_subscription_field ::
    "'d pb_Subscription \<Rightarrow> string \<Rightarrow> 'd pb_Subscription \<Rightarrow> 'd pb_Subscription" where
  "fake_subscription_field req p existing =
     (if p = ''ack_deadline_seconds'' then existing\<lparr>pq_AckDeadlineSeconds := pq_AckDeadlineSeconds req\<rparr>
      else if p = ''message_retention_duration''
      then existing\<lparr>pq_MessageRetentionDuration := pq_MessageRetentionDuration req\<rparr>
      else if p = ''retain_acked_messages'' then existing\<lparr>pq_RetainAckedMessages := pq_RetainAckedMessages req\<rparr>
      else if p = ''enable_exactly_once_delivery''
      then existing\<lparr>pq_EnableExactlyOnceDelivery := pq_EnableExactlyOnceDelivery req\<rparr>
      else if p = ''expiration_policy'' then existing\<lparr>pq_ExpirationPolicy := pq_ExpirationPolicy req\<rparr>
      else if p = ''labels'' then existing\<lparr>pq_Labels := pq_Labels req\<rparr>
      else if p = ''push_config'' then existing\<lparr>pq_PushConfig := pq_PushConfig req\<rparr>
      else if p = ''dead_letter_policy'' then existing\<lparr>pq_DeadLetterPolicy := pq_DeadLetterPolicy req\<rparr>
      else if p = ''retry_policy'' then existing\<lparr>pq_RetryPolicy := pq_RetryPolicy req\<rparr>
      else existing)"

definition fake_UpdateSubscription ::
    "'d pb_Subscription \<Rightarrow> string list \<Rightarrow> 'd fakePubSub \<Rightarrow> go_error option \<times> 'd fakePubSub" where
  "fake_UpdateSubscription req paths f0 =
     (let f = f0\<lparr>fk_appliedMasks := fk_appliedMasks f0 @ [paths]\<rparr> in
      case find (\<lambda>p. p \<in> fk_unsupportedPaths f) paths of
        Some p \<Rightarrow> (Some (unknown_field ''UpdateSubscriptionRequest'' ''Subscription'' p), f)
      | None \<Rightarrow>
          (case fk_subs f (pq_Name req) of
             None \<Rightarrow> (Some (status_Error CodeNotFound ''subscription not found''), f)
           | Some existing \<Rightarrow>
               (None, f\<lparr>fk_subs := (fk_subs f)(pq_Name req := Some (fold (fake_subscription_field req) paths existing))\<rparr>)))"

definition fake_api :: "('d fakePubSub, 'd) pubsub_api" where
  "fake_api =
     \<lparr>api_GetTopic = fake_GetTopic, api_CreateTopic = fake_CreateTopic, api_UpdateTopic = fake_UpdateTopic,
      api_GetSubscription = fake_GetSubscription, api_CreateSubscription = fake_CreateSubscription,
      api_UpdateSubscription = fake_UpdateSubscription\<rparr>"

definition fake_client :: "string \<Rightarrow> (pb_Duration fakePubSub, pb_Duration) PubSubClient" where
  "fake_client projectID = \<lparr>c_projectID = projectID, c_api = fake_api, c_pb = seconds_pb\<rparr>"

lemma fake_client_simps [simp]:
  "c_projectID (fake_client pid) = pid" "c_api (fake_client pid) = fake_api" "c_pb (fake_client pid) = seconds_pb"
  "api_GetTopic fake_api = fake_GetTopic" "api_CreateTopic fake_api = fake_CreateTopic"
  "api_UpdateTopic fake_api = fake_UpdateTopic" "api_GetSubscription fake_api = fake_GetSubscription"
  "api_CreateSubscription fake_api = fake_CreateSubscription"
  "api_UpdateSubscription fake_api = fake_UpdateSubscription"
  by (simp_all add: fake_client_def fake_api_def)

section \<open>What the client sees of it\<close>

definition fake_topics :: "string \<Rightarrow> pb_Duration fakePubSub \<Rightarrow> string \<Rightarrow> Topic option" where
  "fake_topics pid f n = map_option (fromProtoTopic seconds_pb) (fk_topics f (TopicPath pid n))"

definition fake_subs :: "string \<Rightarrow> pb_Duration fakePubSub \<Rightarrow> string \<Rightarrow> Subscription option" where
  "fake_subs pid f n = map_option (fromProtoSubscription seconds_pb) (fk_subs f (SubscriptionPath pid n))"

definition fake_supported :: "pb_Duration fakePubSub \<Rightarrow> string \<Rightarrow> bool" where
  "fake_supported f p \<longleftrightarrow> p \<notin> fk_unsupportedPaths f"

definition fake_ok :: "pb_Duration fakePubSub \<Rightarrow> bool" where
  "fake_ok f \<longleftrightarrow>
     (\<forall>n t. fk_topics f n = Some t \<longrightarrow> wf_map (pt_Labels t))
     \<and> (\<forall>n s. fk_subs f n = Some s \<longrightarrow> wf_subscription (fromProtoSubscription seconds_pb s))"

lemma fake_ok_start [simp]: "fake_ok startFakePubSub"
  by (simp add: fake_ok_def startFakePubSub_def)

section \<open>It meets the contract\<close>

lemma status_Code_status_Error [simp]: "status_Code (status_Error c m) = c"
  by (simp add: status_Error_def)

lemma unknown_field_unsupported: "IsUnsupportedField (unknown_field r k p)"
proof -
  have "Contains (a @ ''is not a known'' @ b) ''is not a known''" for a b
    unfolding Contains_iff by blast
  from this[of "''rpc error: code = InvalidArgument desc = Invalid update_mask provided in the '' @ r @ '': '' @ p @ '' ''" "'' '' @ k @ '' field.''"]
  show ?thesis by (simp add: IsUnsupportedField_def unknown_field_def status_Error_def)
qed

lemma fromProto_topic_field:
  "fromProtoTopic pb (fold (fake_topic_field req) ps e) = fold (put_topic (fromProtoTopic pb req)) ps (fromProtoTopic pb e)"
  by (induction ps arbitrary: e)
     (simp_all add: fake_topic_field_def put_topic_def fromProtoTopic_def pathTopicLabels_def pathTopicMessageRetention_def)

lemma fromProto_subscription_field:
  "fromProtoSubscription pb (fold (fake_subscription_field req) ps e)
     = fold (put_subscription (fromProtoSubscription pb req)) ps (fromProtoSubscription pb e)"
proof (induction ps arbitrary: e)
  case (Cons p ps)
  have "fromProtoSubscription pb (fake_subscription_field req p e)
     = put_subscription (fromProtoSubscription pb req) p (fromProtoSubscription pb e)"
    by (simp add: fake_subscription_field_def put_subscription_def fromProtoSubscription_def sub_path_defs)
  then show ?case using Cons by simp
qed simp

lemma wf_echo: "wf_subscription s \<Longrightarrow> wf_subscription (echo_subscription s)"
  by (auto simp: wf_subscription_def echo_subscription_def echo_push_def split: option.splits)

lemma wf_fold_put: "wf_subscription m \<Longrightarrow> wf_subscription s \<Longrightarrow> wf_subscription (fold (put_subscription m) ps s)"
  by (induction ps arbitrary: s) (auto simp: wf_subscription_def put_subscription_def)

lemma find_unsupported:
  "(find (\<lambda>p. p \<in> fk_unsupportedPaths f) msk = None) = list_all (fake_supported f) msk"
  by (auto simp: find_None_iff list_all_iff fake_supported_def)

text \<open>What the client's operations do to the two tables.\<close>

lemma fake_create_topic:
  assumes "fake_ok f" "sendable_topic t" "fake_topics pid f (t_Name t) = None"
    "client_CreateTopic (fake_client pid) t f = (r, f')"
  shows "r = None \<and> fake_ok f' \<and> fake_supported f' = fake_supported f
    \<and> fake_topics pid f' = (fake_topics pid f)(t_Name t \<mapsto> t) \<and> fake_subs pid f' = fake_subs pid f"
proof -
  have "fromProtoTopic seconds_pb (toProtoTopic seconds_pb pid t) = t"
    using assms(2) by (intro seconds.topic_roundtrip) (simp_all add: sendable_topic_def)
  moreover have "f' = f\<lparr>fk_topics := (fk_topics f)(TopicPath pid (t_Name t) := Some (toProtoTopic seconds_pb pid t))\<rparr>" "r = None"
    using assms(3,4)
    by (auto simp: client_CreateTopic_def fake_CreateTopic_def toProtoTopic_def
        fake_topics_def split: option.splits)
  ultimately show ?thesis
    using assms(1,2)
    by (auto simp: fake_ok_def fake_supported_def fake_topics_def fake_subs_def fun_eq_iff sendable_topic_def toProtoTopic_def)
qed

lemma fake_update_topic:
  assumes "fake_ok f" "sendable_topic t" "fake_topics pid f (t_Name t) = Some cur" "list_all (fake_supported f) msk"
    "client_UpdateTopic (fake_client pid) t msk f = (r, f')"
  shows "r = None \<and> fake_ok f' \<and> fake_supported f' = fake_supported f
    \<and> fake_topics pid f' = (fake_topics pid f)(t_Name t \<mapsto> fold (put_topic t) msk cur) \<and> fake_subs pid f' = fake_subs pid f"
proof (cases "msk = []")
  case True
  then show ?thesis using assms by (auto simp: client_UpdateTopic_def)
next
  case False
  let ?req = "toProtoTopic seconds_pb pid t"
  obtain e where e: "fk_topics f (TopicPath pid (t_Name t)) = Some e" "cur = fromProtoTopic seconds_pb e"
    using assms(3) by (auto simp: fake_topics_def)
  have req: "fromProtoTopic seconds_pb ?req = t" "pt_Name ?req = TopicPath pid (t_Name t)" "pt_Labels ?req = t_Labels t"
    using assms(2) seconds.topic_roundtrip by (simp_all add: sendable_topic_def toProtoTopic_def)
  have f': "r = None" "f' = f\<lparr>fk_appliedMasks := fk_appliedMasks f @ [msk],
      fk_topics := (fk_topics f)(TopicPath pid (t_Name t) := Some (fold (fake_topic_field ?req) msk e))\<rparr>"
    using assms(5) False e req(2) find_unsupported[THEN iffD2, OF assms(4)]
    by (auto simp: client_UpdateTopic_def fake_UpdateTopic_def)
  have "wf_map (pt_Labels (fold (fake_topic_field ?req) ps x))" if "wf_map (pt_Labels x)" for ps x
    using that assms(2) req(3) by (induction ps arbitrary: x) (simp_all add: fake_topic_field_def sendable_topic_def)
  then show ?thesis
    using assms(1) e f' fromProto_topic_field[of seconds_pb ?req msk e] req(1)
    by (auto simp: fake_ok_def fake_supported_def fake_topics_def fake_subs_def fun_eq_iff)
qed

lemma fake_refuse_topic:
  assumes "fake_ok f" "\<not> list_all (fake_supported f) msk" "client_UpdateTopic (fake_client pid) t msk f = (r, f')"
  shows "(\<exists>e. r = Some e \<and> IsUnsupportedField e) \<and> fake_ok f' \<and> fake_supported f' = fake_supported f
    \<and> fake_topics pid f' = fake_topics pid f \<and> fake_subs pid f' = fake_subs pid f"
proof -
  obtain p where "find (\<lambda>p. p \<in> fk_unsupportedPaths f) msk = Some p"
    using assms(2) find_unsupported[of f msk] by auto
  moreover have "msk \<noteq> []" using assms(2) by auto
  ultimately have "f' = f\<lparr>fk_appliedMasks := fk_appliedMasks f @ [msk]\<rparr>" "\<exists>e. r = Some e \<and> IsUnsupportedField e"
    using assms(3) IsUnsupportedField_Wrapped[OF unknown_field_unsupported]
    by (auto simp: client_UpdateTopic_def fake_UpdateTopic_def)
  then show ?thesis
    using assms(1) by (auto simp: fake_ok_def fake_supported_def fake_topics_def fake_subs_def fun_eq_iff)
qed

lemma fake_create_subscription:
  assumes "fake_ok f" "sendable s" "wf_subscription s" "fake_subs pid f (s_Name s) = None"
    "client_CreateSubscription (fake_client pid) s f = (r, f')"
  shows "r = None \<and> fake_ok f' \<and> fake_supported f' = fake_supported f
    \<and> fake_topics pid f' = fake_topics pid f \<and> fake_subs pid f' = (fake_subs pid f)(s_Name s \<mapsto> echo_subscription s)"
proof -
  let ?q = "toProtoSubscription seconds_pb pid s"
  have rt: "fromProtoSubscription seconds_pb ?q = echo_subscription s"
    using assms(2) by (rule seconds.subscription_roundtrip)
  have "pq_Name ?q = SubscriptionPath pid (s_Name s)" by (simp add: toProtoSubscription_def)
  then have "f' = f\<lparr>fk_subs := (fk_subs f)(SubscriptionPath pid (s_Name s) := Some ?q)\<rparr>" "r = None"
    using assms(4,5)
    by (auto simp: client_CreateSubscription_def fake_CreateSubscription_def fake_subs_def split: option.splits)
  then show ?thesis
    using assms(1,3) rt wf_echo
    by (auto simp: fake_ok_def fake_supported_def fake_topics_def fake_subs_def fun_eq_iff)
qed

lemma fake_update_subscription:
  assumes "fake_ok f" "sendable s" "wf_subscription s" "fake_subs pid f (s_Name s) = Some live"
    "list_all (fake_supported f) msk" "client_UpdateSubscription (fake_client pid) s msk f = (r, f')"
  shows "r = None \<and> fake_ok f' \<and> fake_supported f' = fake_supported f \<and> fake_topics pid f' = fake_topics pid f
    \<and> fake_subs pid f' = (fake_subs pid f)(s_Name s \<mapsto> fold (put_subscription (echo_subscription s)) msk live)"
proof (cases "msk = []")
  case True
  then show ?thesis using assms by (auto simp: client_UpdateSubscription_def)
next
  case False
  let ?q = "toProtoSubscription seconds_pb pid s"
  obtain e where e: "fk_subs f (SubscriptionPath pid (s_Name s)) = Some e" "live = fromProtoSubscription seconds_pb e"
    using assms(4) by (auto simp: fake_subs_def)
  have rt: "fromProtoSubscription seconds_pb ?q = echo_subscription s" "pq_Name ?q = SubscriptionPath pid (s_Name s)"
    using seconds.subscription_roundtrip[OF assms(2)] by (simp_all add: toProtoSubscription_def)
  have f': "r = None" "f' = f\<lparr>fk_appliedMasks := fk_appliedMasks f @ [msk],
      fk_subs := (fk_subs f)(SubscriptionPath pid (s_Name s) := Some (fold (fake_subscription_field ?q) msk e))\<rparr>"
    using assms(6) False e rt(2) find_unsupported[THEN iffD2, OF assms(5)]
    by (auto simp: client_UpdateSubscription_def fake_UpdateSubscription_def)
  have new: "fromProtoSubscription seconds_pb (fold (fake_subscription_field ?q) msk e)
      = fold (put_subscription (echo_subscription s)) msk live"
    using fromProto_subscription_field[of seconds_pb ?q msk e] rt(1) e(2) by simp
  have "wf_subscription (fold (put_subscription (echo_subscription s)) msk live)"
    using assms(1,3) e wf_fold_put[OF wf_echo] by (auto simp: fake_ok_def)
  then show ?thesis
    using assms(1) f' new by (auto simp: fake_ok_def fake_supported_def fake_topics_def fake_subs_def fun_eq_iff)
qed

lemma fake_refuse_subscription:
  assumes "fake_ok f" "\<not> list_all (fake_supported f) msk" "client_UpdateSubscription (fake_client pid) s msk f = (r, f')"
  shows "(\<exists>e. r = Some e \<and> IsUnsupportedField e) \<and> fake_ok f' \<and> fake_supported f' = fake_supported f
    \<and> fake_topics pid f' = fake_topics pid f \<and> fake_subs pid f' = fake_subs pid f"
proof -
  obtain p where "find (\<lambda>p. p \<in> fk_unsupportedPaths f) msk = Some p"
    using assms(2) find_unsupported[of f msk] by auto
  moreover have "msk \<noteq> []" using assms(2) by auto
  ultimately have "f' = f\<lparr>fk_appliedMasks := fk_appliedMasks f @ [msk]\<rparr>" "\<exists>e. r = Some e \<and> IsUnsupportedField e"
    using assms(3) IsUnsupportedField_Wrapped[OF unknown_field_unsupported]
    by (auto simp: client_UpdateSubscription_def fake_UpdateSubscription_def)
  then show ?thesis
    using assms(1) by (auto simp: fake_ok_def fake_supported_def fake_topics_def fake_subs_def fun_eq_iff)
qed

lemma client_admin_simps [simp]:
  "GetTopic (client_admin c) = client_GetTopic c" "CreateTopic (client_admin c) = client_CreateTopic c"
  "UpdateTopic (client_admin c) = client_UpdateTopic c" "GetSubscription (client_admin c) = client_GetSubscription c"
  "CreateSubscription (client_admin c) = client_CreateSubscription c"
  "UpdateSubscription (client_admin c) = client_UpdateSubscription c"
  by (simp_all add: client_admin_def)

lemma fake_labels:
  "fake_ok f \<Longrightarrow> fake_topics pid f n = Some t \<Longrightarrow> wf_map (t_Labels t)"
  "fake_ok f \<Longrightarrow> fake_subs pid f n = Some s \<Longrightarrow> wf_subscription s"
  by (auto simp: fake_ok_def fake_topics_def fake_subs_def fromProtoTopic_def)

interpretation fake: pubsub_endpoint "client_admin (fake_client pid)" fake_ok fake_supported "fake_topics pid" "fake_subs pid"
  for pid
proof (unfold_locales, goal_cases)
  case 1
  then show ?case by (simp add: client_GetTopic_def fake_GetTopic_def fake_topics_def split: option.splits)
next
  case 2
  then show ?case by (simp add: client_GetSubscription_def fake_GetSubscription_def fake_subs_def split: option.splits)
next
  case 3
  then show ?case by (rule fake_labels)
next
  case 4
  then show ?case by (rule fake_labels)
next
  case 5
  then show ?case unfolding client_admin_simps by (rule fake_create_topic)
next
  case 6
  then show ?case unfolding client_admin_simps by (rule fake_update_topic)
next
  case 7
  then show ?case unfolding client_admin_simps by (rule fake_refuse_topic)
next
  case 8
  from fake_create_subscription[OF 8(1-4) 8(6)[unfolded client_admin_simps]] show ?case
    by (simp add: filled_in_echo)
next
  case 9
  then show ?case unfolding client_admin_simps by (rule fake_update_subscription)
next
  case 10
  then show ?case unfolding client_admin_simps by (rule fake_refuse_subscription)
qed

end
