(* ===== verification/Sample_Config.thy ===== *)
theory Sample_Config
  imports Config_Spec
begin

text \<open>
  A configuration the concrete instances are run on: a topic whose subscription dead-letters
  to a topic declared after it, a push subscription, a versioned bucket and a key file.
\<close>

definition sample_pull :: SubscriptionCfg where
  "sample_pull =
     \<lparr>sc_Name = ''orders-worker'', sc_Strategy = [], sc_AckDeadline = ''30s'', sc_MessageRetention = ''7d'',
      sc_RetainAckedMessages = Some True, sc_EnableMessageOrdering = None,
      sc_EnableExactlyOnceDelivery = None, sc_Filter = [], sc_ExpirationTTL = ''never'',
      sc_Labels = [(''team'', ''shop'')], sc_PushEndpoint = [], sc_PushAttributes = [],
      sc_PushOIDCToken = None, sc_PushWrapper = [], sc_PushWriteMetadata = False,
      sc_DeadLetter = Some \<lparr>dc_Topic = ''orders-dead'', dc_MaxDeliveryAttempts = 5\<rparr>,
      sc_Retry = Some \<lparr>rc_MinimumBackoff = ''10s'', rc_MaximumBackoff = ''600s''\<rparr>\<rparr>"

definition sample_push :: SubscriptionCfg where
  "sample_push =
     \<lparr>sc_Name = ''orders-push'', sc_Strategy = ''create'', sc_AckDeadline = [], sc_MessageRetention = [],
      sc_RetainAckedMessages = None, sc_EnableMessageOrdering = None,
      sc_EnableExactlyOnceDelivery = None, sc_Filter = [], sc_ExpirationTTL = [],
      sc_Labels = [], sc_PushEndpoint = ''http://shop/push'', sc_PushAttributes = [(''x-version'', ''v1'')],
      sc_PushOIDCToken = None, sc_PushWrapper = ''none'', sc_PushWriteMetadata = True,
      sc_DeadLetter = None, sc_Retry = None\<rparr>"

definition sample_topics :: "TopicCfg list" where
  "sample_topics =
     [\<lparr>tc_Name = ''orders'', tc_Strategy = [], tc_Labels = [(''env'', ''dev'')], tc_MessageRetention = ''1h'',
       tc_Subscriptions = [sample_pull, sample_push]\<rparr>,
      \<lparr>tc_Name = ''orders-dead'', tc_Strategy = [], tc_Labels = [], tc_MessageRetention = [], tc_Subscriptions = []\<rparr>]"

definition sample_bucket :: BucketCfg where
  "sample_bucket = \<lparr>bc_Name = ''shop-assets'', bc_Strategy = [], bc_Versioning = Some True,
     bc_Location = ''EU'', bc_StorageClass = ''nearline''\<rparr>"

definition sample_credential :: Credential where
  "sample_credential = \<lparr>cr_Path = ''keys/sa.json'', cr_Strategy = [], cr_Account = [], cr_TokenURI = ''http://stub:8099/token''\<rparr>"

definition sample_config :: Config where
  "sample_config =
     \<lparr>cfg_Strategy = [], cfg_ProjectID = ''local-dev'', cfg_PubSub = \<lparr>ps_Topics = sample_topics\<rparr>,
      cfg_Storage = \<lparr>st_Buckets = [sample_bucket]\<rparr>, cfg_Credentials = [sample_credential]\<rparr>"

definition sample_url :: url_parser where
  "sample_url s = (if s = ''http://stub:8099/token'' then Some (''http'', ''stub:8099'') else None)"

lemma sample_config_valid: "valid_config sample_url sample_config"
  by code_simp

lemma sample_config_maps: "list_all wf_map (config_maps sample_config)"
  by code_simp

end
