(* ===== verification/PubSub_Properties.thy ===== *)
theory PubSub_Properties
  imports Fake_PubSub Provisioner Sample_Config
begin

text \<open>
  What the Pub/Sub section guarantees. The statements on an endpoint hold for every
  \<open>PubSubAdmin\<close> that meets \<open>pubsub_endpoint\<close>; the witnesses run the repository's client against
  its fake server.
\<close>

definition sample_world :: "(pb_Duration fakePubSub, unit, unit) world" where
  "sample_world = \<lparr>pubsub_state = startFakePubSub, storage_state = (), files = (), trace = []\<rparr>"

definition sample_admin :: "pb_Duration fakePubSub PubSubAdmin" where
  "sample_admin = client_admin (fake_client ''local-dev'')"

lemma sample_endpoint:
  "pubsub_endpoint sample_admin fake_ok fake_supported (fake_topics ''local-dev'') (fake_subs ''local-dev'')"
  unfolding sample_admin_def by (rule fake.pubsub_endpoint_axioms)

lemma sample_world_ok: "fake_ok (pubsub_state sample_world)"
  by (simp add: sample_world_def)

lemma valid_pubsub_config: "valid_config u cfg \<Longrightarrow> list_all wf_map (config_maps cfg) \<Longrightarrow> pubsub_config_ok cfg"
  by (simp add: valid_config_def pubsub_config_ok_def)

section \<open>Convergence\<close>



text \<open>C3: after a run with a valid configuration, a second run of the section with the same
  configuration returns no error, creates nothing and leaves every topic and subscription as it
  is. The only writes it attempts are updates naming nothing but fields the endpoint does not
  support, which the endpoint refuses again; when it supports every field, the run makes no
  mutating call at all and leaves the endpoint's state alone. This is for endpoints that store
  the dead-letter and retry policies as sent; the missing attempts of a server that fills them
  in are asked for again on every run.\<close>
theorem pubsub_section_idempotent:
  assumes ep: "pubsub_endpoint ps ok supported topics subs" and "ok (pubsub_state w)" "\<not> DryRun opts"
    "valid_config u cfg" "list_all wf_map (config_maps cfg)"
    and first: "ProvisionPubSub ps opts cfg w = (r, w1)"
    and second: "pubsub_state w2 = pubsub_state w1" "ProvisionPubSub ps opts2 cfg w2 = (r', w3)"
  shows "r' = None
    \<and> topics (pubsub_state w3) = topics (pubsub_state w2) \<and> subs (pubsub_state w3) = subs (pubsub_state w2)
    \<and> (\<exists>es. trace w3 = trace w2 @ es \<and> list_all (only_refused (supported (pubsub_state w))) es)
    \<and> ((\<forall>p \<in> set (topic_fields @ subscription_fields). supported (pubsub_state w) p) \<longrightarrow>
        pubsub_state w3 = pubsub_state w2
        \<and> (\<exists>es. trace w3 = trace w2 @ es \<and> list_all (\<lambda>e. \<not> mutating e) es))"
proof -
  note eff = pubsub_endpoint.provision_effect[OF assms(1,2,3) valid_pubsub_config[OF assms(4,5)] first]
  have w2: "ok (pubsub_state w2)" and sup: "supported (pubsub_state w2) = supported (pubsub_state w)"
    and settled: "pubsub_settled (supported (pubsub_state w2)) cfg (topics (pubsub_state w2)) (subs (pubsub_state w2))"
    using eff second(1) by simp_all
  from pubsub_endpoint.provision_settled[OF ep w2 settled second(2)] show ?thesis
    unfolding pubsub_endpoint.undisturbed_def[OF ep] emits_def sup by blast
qed

text \<open>An endpoint refusing \<open>labels\<close> and \<open>expiration_policy\<close>, as the emulator does, that
  already has the topic \<open>orders\<close> without labels.\<close>

definition emulator_world :: "(pb_Duration fakePubSub, unit, unit) world" where
  "emulator_world = sample_world\<lparr>pubsub_state := startFakePubSub
     \<lparr>fk_topics := [TopicPath ''local-dev'' ''orders'' \<mapsto>
        toProtoTopic seconds_pb ''local-dev'' \<lparr>t_Name = ''orders'', t_Labels = [], t_MessageRetention = 0\<rparr>],
      fk_unsupportedPaths := {''labels'', ''expiration_policy''}\<rparr>\<rparr>"

theorem pubsub_section_idempotent_witness:
  "\<exists>r w1 r' w3. ProvisionPubSub sample_admin DefaultOptions sample_config emulator_world = (r, w1)
    \<and> ProvisionPubSub sample_admin DefaultOptions sample_config w1 = (r', w3) \<and> r' = None
    \<and> fake_topics ''local-dev'' (pubsub_state w3) = fake_topics ''local-dev'' (pubsub_state w1)
    \<and> fake_subs ''local-dev'' (pubsub_state w3) = fake_subs ''local-dev'' (pubsub_state w1)
    \<and> (\<exists>es. trace w3 = trace w1 @ es \<and> list_all (only_refused (fake_supported (pubsub_state emulator_world))) es)"
proof -
  obtain r w1 where run: "ProvisionPubSub sample_admin DefaultOptions sample_config emulator_world = (r, w1)" by fastforce
  obtain r' w3 where run2: "ProvisionPubSub sample_admin DefaultOptions sample_config w1 = (r', w3)" by fastforce
  have d: "\<not> DryRun DefaultOptions" by (simp add: DefaultOptions_def)
  have ok: "fake_ok (pubsub_state emulator_world)"
    by (simp add: emulator_world_def fake_ok_def startFakePubSub_def toProtoTopic_def)
  from pubsub_section_idempotent[OF sample_endpoint ok d sample_config_valid sample_config_maps run refl run2]
    run run2 show ?thesis by blast
qed

section \<open>Ordering\<close>

text \<open>C16: the topic pass is over before the subscription pass begins: the calls of a run are
  topic calls followed by subscription calls, whatever the endpoint answers.\<close>
theorem topics_before_subscriptions:
  assumes "ProvisionPubSub ps opts cfg w = (r, w')"
  shows "\<exists>ts ss. trace w' = trace w @ ts @ ss \<and> list_all topic_event ts \<and> list_all subscription_event ss"
proof -
  obtain v where "emits topic_event w v" "emits subscription_event v w'"
    using ProvisionPubSub_passes[OF assms, of topic_event subscription_event] by auto
  then show ?thesis unfolding emits_def by (metis append_assoc)
qed

theorem topics_before_subscriptions_witness:
  "\<exists>r w' ts ss. ProvisionPubSub sample_admin DefaultOptions sample_config sample_world = (r, w')
    \<and> trace w' = trace sample_world @ ts @ ss \<and> list_all topic_event ts \<and> list_all subscription_event ss"
  using topics_before_subscriptions[of sample_admin DefaultOptions sample_config sample_world]
  by (metis surj_pair)

section \<open>Update masks\<close>

text \<open>C17: an update of a subscription whose mask names fields the server does not know applies
  exactly the supported ones, reports success, and warns once for each of the others, in order.\<close>
theorem applyPaths_applies_the_supported:
  assumes "fake_ok (pubsub_state w)" "sendable m" "wf_subscription m"
    "fake_subs pid (pubsub_state w) (s_Name m) = Some live" "paths \<noteq> []"
    "applyPaths paths (updateSubscription_mask (client_admin (fake_client pid)) m)
       (warnSubscription_unsupported (s_Name m)) w = (r, w')"
  shows "r = None
    \<and> fake_subs pid (pubsub_state w') (s_Name m)
        = Some (fold (put_subscription (echo_subscription m)) (filter (fake_supported (pubsub_state w)) paths) live)
    \<and> warned_fields subscription_warning w'
        = warned_fields subscription_warning w @ filter (\<lambda>p. \<not> fake_supported (pubsub_state w) p) paths"
proof -
  have rdy: "fake.subscription_ready pid m m (fake_topics pid (pubsub_state w)) (fake_subs pid (pubsub_state w)) w"
    using assms(1-4) subscription_message_self[OF assms(3)]
    by (simp add: fake.subscription_ready_def)
  from fake.subscription_mask.applyPaths_effect[OF rdy assms(5,6)] assms(4)
  show ?thesis by (auto simp: fake.subscription_ready_def)
qed

definition sample_sub :: Subscription where
  "sample_sub =
     \<lparr>s_Name = ''orders-worker'', s_Topic = ''orders'', s_AckDeadline = 30 * Second, s_MessageRetention = 0,
      s_RetainAckedMessages = None, s_EnableMessageOrdering = Some True, s_EnableExactlyOnceDelivery = None,
      s_Filter = [], s_ExpirationSet = False, s_ExpirationTTL = 0, s_Labels = [(''team'', ''shop'')],
      s_Push = None, s_DeadLetter = None, s_Retry = None\<rparr>"

definition sample_update :: Subscription where
  "sample_update = sample_sub\<lparr>s_AckDeadline := 60 * Second, s_Labels := [(''team'', ''web'')]\<rparr>"

text \<open>The fake server with that subscription, refusing \<open>labels\<close> as the emulator does.\<close>

definition busy_server :: "pb_Duration fakePubSub" where
  "busy_server = startFakePubSub
     \<lparr>fk_subs := [SubscriptionPath ''local-dev'' ''orders-worker'' \<mapsto> toProtoSubscription seconds_pb ''local-dev'' sample_sub],
      fk_unsupportedPaths := {''labels''}\<rparr>"

definition busy_world :: "(pb_Duration fakePubSub, unit, unit) world" where
  "busy_world = sample_world\<lparr>pubsub_state := busy_server\<rparr>"

lemma sample_sub_sendable:
  "sendable sample_sub" "wf_subscription sample_sub" "sendable sample_update" "wf_subscription sample_update"
  by (simp_all add: sample_sub_def sample_update_def sendable_def duration_fits_def wf_subscription_def wf_map_def)

lemma busy_live: "fake_subs ''local-dev'' busy_server ''orders-worker'' = Some (echo_subscription sample_sub)"
  using seconds.subscription_roundtrip[OF sample_sub_sendable(1), of "''local-dev''"]
  by (simp add: fake_subs_def busy_server_def)

lemma busy_ok: "fake_ok busy_server"
  using seconds.subscription_roundtrip[OF sample_sub_sendable(1), of "''local-dev''"] wf_echo[OF sample_sub_sendable(2)]
  by (auto simp: fake_ok_def busy_server_def startFakePubSub_def split: if_splits)

theorem applyPaths_applies_the_supported_witness:
  "\<exists>r w'. applyPaths [pathSubAckDeadline, pathSubLabels]
       (updateSubscription_mask (client_admin (fake_client ''local-dev'')) sample_update)
       (warnSubscription_unsupported ''orders-worker'') busy_world = (r, w')
     \<and> r = None \<and> fake_subs ''local-dev'' (pubsub_state w') ''orders-worker''
         = Some ((echo_subscription sample_sub)\<lparr>s_AckDeadline := 60 * Second\<rparr>)
     \<and> warned_fields subscription_warning w' = [''labels'']"
proof -
  obtain r w' where run: "applyPaths [pathSubAckDeadline, pathSubLabels]
       (updateSubscription_mask (client_admin (fake_client ''local-dev'')) sample_update)
       (warnSubscription_unsupported (s_Name sample_update)) busy_world = (r, w')" by fastforce
  have live: "fake_subs ''local-dev'' (pubsub_state busy_world) (s_Name sample_update) = Some (echo_subscription sample_sub)"
    using busy_live by (simp add: busy_world_def sample_update_def sample_sub_def)
  have ok: "fake_ok (pubsub_state busy_world)" using busy_ok by (simp add: busy_world_def)
  have sup: "fake_supported (pubsub_state busy_world) pathSubAckDeadline" "\<not> fake_supported (pubsub_state busy_world) pathSubLabels"
    by (simp_all add: busy_world_def busy_server_def fake_supported_def pathSubAckDeadline_def pathSubLabels_def startFakePubSub_def)
  have none: "warned_fields subscription_warning busy_world = []"
    by (simp add: busy_world_def sample_world_def warned_fields_def)
  from applyPaths_applies_the_supported[OF ok sample_sub_sendable(3,4) live _ run] run sup none
  show ?thesis
    by (simp add: put_subscription_def sample_update_def sample_sub_def echo_subscription_def pathSubLabels_def)
qed

section \<open>Strategies and dry runs\<close>

text \<open>C20: under strategy \<open>create\<close>, for the whole configuration or for each resource, no run of the
  Pub/Sub section sends an update.\<close>
theorem create_strategy_sends_no_update:
  assumes "ProvisionPubSub ps opts cfg w = (r, w')"
    and "list_all (\<lambda>t. EffectiveStrategy [tc_Strategy t, cfg_Strategy cfg] = ''create'') (ps_Topics (cfg_PubSub cfg))"
    and "list_all (\<lambda>s. EffectiveStrategy [sc_Strategy s, cfg_Strategy cfg] = ''create'')
          (all_subscriptions (ps_Topics (cfg_PubSub cfg)))"
  shows "\<exists>es. trace w' = trace w @ es \<and> list_all (\<lambda>e. \<not> updates e) es"
proof -
  obtain v where "emits (\<lambda>e. \<not> updates e) w v" "emits (\<lambda>e. \<not> updates e) v w'"
    using ProvisionPubSub_passes[OF assms(1), of "\<lambda>e. \<not> updates e" "\<lambda>e. \<not> updates e"] assms(2,3)
    by (auto simp: list_all_iff)
  then have "emits (\<lambda>e. \<not> updates e) w w'" by (rule emits_trans)
  then show ?thesis by (simp add: emits_def)
qed

definition create_config :: Config where
  "create_config = sample_config\<lparr>cfg_Strategy := ''create''\<rparr>"

theorem create_strategy_sends_no_update_witness:
  "\<exists>r w' es. ProvisionPubSub sample_admin DefaultOptions create_config busy_world = (r, w')
    \<and> trace w' = trace busy_world @ es \<and> list_all (\<lambda>e. \<not> updates e) es"
proof -
  obtain r w' where run: "ProvisionPubSub sample_admin DefaultOptions create_config busy_world = (r, w')" by fastforce
  have "list_all (\<lambda>t. EffectiveStrategy [tc_Strategy t, cfg_Strategy create_config] = ''create'') (ps_Topics (cfg_PubSub create_config))"
    "list_all (\<lambda>s. EffectiveStrategy [sc_Strategy s, cfg_Strategy create_config] = ''create'')
       (all_subscriptions (ps_Topics (cfg_PubSub create_config)))"
    by code_simp+
  from create_strategy_sends_no_update[OF run this] run show ?thesis by blast
qed

end
