(* ===== verification/Fake_Host.thy ===== *)
theory Fake_Host
  imports Key_Files
begin

text \<open>
  A host with its files in memory, on which the contract of the key files is met: entries are
  kept under their cleaned paths, directories are made one prefix after the other, a write
  needs its directory and never replaces one. Key generation counts up a seed.
\<close>

record mem_fs =
  mem_nodes :: "string \<rightharpoonup> fs_entry"
  mem_seed :: nat

definition mem_Stat :: "string \<Rightarrow> mem_fs \<Rightarrow> stat_result \<times> mem_fs" where
  "mem_Stat p f = (case mem_nodes f (filepath_Clean p) of None \<Rightarrow> Absent | Some e \<Rightarrow> Present, f)"

definition mem_prefixes :: "string \<Rightarrow> string list" where
  "mem_prefixes d =
     (let cs = split_slash (filepath_Clean d) in
      filter (\<lambda>p. p \<noteq> []) (map (\<lambda>k. join ''/'' (take (Suc k) cs)) [0..<length cs]))"

definition mem_mkdir1 :: "string \<Rightarrow> mem_fs \<Rightarrow> go_error option \<times> mem_fs" where
  "mem_mkdir1 p f =
     (case mem_nodes f p of
        None \<Rightarrow> (None, f\<lparr>mem_nodes := (mem_nodes f)(p \<mapsto> Dir)\<rparr>)
      | Some Dir \<Rightarrow> (None, f)
      | Some (File s) \<Rightarrow> (Some (ErrorText (''mkdir '' @ p @ '': not a directory'')), f))"

definition mem_MkdirAll :: "string \<Rightarrow> nat \<Rightarrow> mem_fs \<Rightarrow> go_error option \<times> mem_fs" where
  "mem_MkdirAll d mode f = for_each mem_mkdir1 (mem_prefixes d) f"

definition mem_WriteFile :: "string \<Rightarrow> string \<Rightarrow> nat \<Rightarrow> mem_fs \<Rightarrow> go_error option \<times> mem_fs" where
  "mem_WriteFile p s mode f =
     (let n = filepath_Clean p; d = filepath_Dir p in
      if mem_nodes f n = Some Dir then (Some (ErrorText (''open '' @ p @ '': is a directory'')), f)
      else if d \<noteq> ''.'' \<and> d \<noteq> ''/'' \<and> mem_nodes f d \<noteq> Some Dir then
        (Some (ErrorText (''open '' @ p @ '': no such file or directory'')), f)
      else (None, f\<lparr>mem_nodes := (mem_nodes f)(n \<mapsto> File s)\<rparr>))"

definition mem_host :: "(mem_fs, nat) host_ops" where
  "mem_host =
     \<lparr>os_Stat = mem_Stat, os_MkdirAll = mem_MkdirAll, os_WriteFile = mem_WriteFile,
      rsa_GenerateKey = (\<lambda>bits f. (Inr (mem_seed f), f\<lparr>mem_seed := mem_seed f + 1\<rparr>)),
      x509_MarshalPKCS8PrivateKey = (\<lambda>k. Inr (''key '' @ Itoa k))\<rparr>"

lemma mem_host_simps [simp]:
  "os_Stat mem_host = mem_Stat" "os_MkdirAll mem_host = mem_MkdirAll" "os_WriteFile mem_host = mem_WriteFile"
  "rsa_GenerateKey mem_host bits f = (Inr (mem_seed f), f\<lparr>mem_seed := mem_seed f + 1\<rparr>)"
  by (simp_all add: mem_host_def)

lemma mem_mkdir1_keeps: "mem_mkdir1 p f = (r, f') \<Longrightarrow> mem_nodes f n = Some e \<Longrightarrow> mem_nodes f' n = Some e"
  by (auto simp: mem_mkdir1_def split: option.splits fs_entry.splits)

lemma mem_MkdirAll_keeps:
  assumes "mem_MkdirAll d m f = (r, f')" "mem_nodes f n = Some e"
  shows "mem_nodes f' n = Some e"
  using assms unfolding mem_MkdirAll_def
  by (rule for_each_invariant[where I = "\<lambda>g. mem_nodes g n = Some e"]) (rule mem_mkdir1_keeps)

interpretation mem: key_store mem_host filepath_Clean mem_nodes
proof
  fix d :: string and m f r f' n e
  assume "os_MkdirAll mem_host d m f = (r, f')" "mem_nodes f n = Some e"
  then show "mem_nodes f' n = Some e" by (simp add: mem_MkdirAll_keeps)
qed (auto simp: mem_Stat_def mem_WriteFile_def Let_def split: if_splits)

lemma mem_key_store: "key_store mem_host filepath_Clean mem_nodes"
  by (rule mem.key_store_axioms)

end
