(* ===== verification/Json_Reader.thy ===== *)
theory Json_Reader
  imports Key_Files
begin

text \<open>
  A reader of flat JSON objects, the reference the two writers are checked against: the indented
  object of a key file and the compact object of a token response.
\<close>

section \<open>Reading\<close>

datatype json_scalar = JString string | JNumber int

definition json_blank :: "char \<Rightarrow> bool" where
  "json_blank c \<longleftrightarrow> c \<in> {CHR '' '', CHR 0x09, CHR 0x0A, CHR 0x0D}"

definition skip_blank :: "string \<Rightarrow> string" where
  "skip_blank s = dropWhile json_blank s"

definition number_char :: "char \<Rightarrow> bool" where
  "number_char c \<longleftrightarrow> is_digit c \<or> c = CHR ''-''"

definition read_scalar :: "string \<Rightarrow> (json_scalar \<times> string) option" where
  "read_scalar s =
     (case skip_blank s of
        [] \<Rightarrow> None
      | c # t \<Rightarrow>
          if c = CHR 0x22 then map_option (apfst JString) (json_unquote t)
          else map_option (\<lambda>n. (JNumber n, dropWhile number_char (c # t))) (Atoi (takeWhile number_char (c # t))))"

definition read_member :: "string \<Rightarrow> ((string \<times> json_scalar) \<times> string) option" where
  "read_member s =
     (case read_scalar s of
        Some (JString k, s1) \<Rightarrow>
          (case skip_blank s1 of
             c # s2 \<Rightarrow> if c = CHR '':'' then map_option (apfst (Pair k)) (read_scalar s2) else None
           | [] \<Rightarrow> None)
      | _ \<Rightarrow> None)"

fun read_members :: "nat \<Rightarrow> string \<Rightarrow> ((string \<times> json_scalar) list \<times> string) option" where
  "read_members 0 s = None"
| "read_members (Suc n) s =
     (case read_member s of
        None \<Rightarrow> None
      | Some (m, s1) \<Rightarrow>
          (case skip_blank s1 of
             [] \<Rightarrow> None
           | c # s2 \<Rightarrow>
               if c = CHR '','' then map_option (apfst ((#) m)) (read_members n s2)
               else if c = CHR ''}'' then Some ([m], s2) else None))"

text \<open>A member takes at least one byte, so the length of the text is fuel enough.\<close>

definition json_read :: "string \<Rightarrow> (string \<times> json_scalar) list option" where
  "json_read s =
     (case skip_blank s of
        [] \<Rightarrow> None
      | c # s1 \<Rightarrow>
          if c = CHR ''{'' then
            (case read_members (length s) s1 of
               Some (ms, rest) \<Rightarrow> if skip_blank rest = [] then Some ms else None
             | None \<Rightarrow> None)
          else None)"

section \<open>Writing\<close>

fun json_scalar_text :: "json_scalar \<Rightarrow> string" where
  "json_scalar_text (JString s) = json_string s"
| "json_scalar_text (JNumber n) = (if n < 0 then CHR ''-'' # Itoa (nat (- n)) else Itoa (nat n))"

text \<open>The value fits in a Go \<open>int\<close>.\<close>

fun json_fits :: "json_scalar \<Rightarrow> bool" where
  "json_fits (JString s) = True"
| "json_fits (JNumber n) = (- (2 ^ 63) \<le> n \<and> n < 2 ^ 63)"

text \<open>A member with the blanks the writer puts before it and after the colon.\<close>

definition member_text :: "string \<Rightarrow> string \<Rightarrow> string \<times> json_scalar \<Rightarrow> string" where
  "member_text pre mid m = pre @ json_string (fst m) @ CHR '':'' # mid @ json_scalar_text (snd m)"

section \<open>What is written is read back\<close>

lemma skip_blanks [simp]: "list_all json_blank w \<Longrightarrow> skip_blank (w @ s) = skip_blank s"
  by (induction w) (simp_all add: skip_blank_def)

lemma skip_blank_stop [simp]: "\<not> json_blank c \<Longrightarrow> skip_blank (c # s) = c # s"
  by (simp add: skip_blank_def)

lemma digit_not_blank: "is_digit c \<Longrightarrow> \<not> json_blank c \<and> c \<noteq> CHR 0x22"
  by (auto simp: json_blank_def is_digit_def)

lemma blank_not_number: "json_blank c \<Longrightarrow> \<not> number_char c"
  by (elim disjE insertE | simp add: json_blank_def number_char_def is_digit_def)+

lemma not_blank [simp]:
  "\<not> json_blank (CHR 0x22)" "\<not> json_blank (CHR '':'')" "\<not> json_blank (CHR ''-'')" "\<not> json_blank (CHR '','')"
  "\<not> json_blank (CHR ''}'')" "\<not> json_blank (CHR ''{'')"
  by (simp_all add: json_blank_def)

lemma json_string_cons: "json_string s @ t = CHR 0x22 # tl (json_string s) @ t"
  by (simp add: json_string_def)

lemma Atoi_neg: "n < 0 \<Longrightarrow> - (2 ^ 63) \<le> n \<Longrightarrow> Atoi (CHR ''-'' # Itoa (nat (- n))) = Some n"
  using Itoa_digits[of "nat (- n)"] by (simp add: Atoi_digits_def list_all_iff)

lemma number_text:
  assumes "json_fits (JNumber n)"
  shows "Atoi (json_scalar_text (JNumber n)) = Some n" "list_all number_char (json_scalar_text (JNumber n))"
    "json_scalar_text (JNumber n) \<noteq> []" "hd (json_scalar_text (JNumber n)) \<noteq> CHR 0x22"
    "\<not> json_blank (hd (json_scalar_text (JNumber n)))"
proof -
  have hd: "hd (Itoa m) \<noteq> CHR 0x22" "\<not> json_blank (hd (Itoa m))" for m
    using digit_not_blank[of "hd (Itoa m)"] Itoa_digits[of m] by simp_all
  show "Atoi (json_scalar_text (JNumber n)) = Some n"
    using assms Atoi_neg[of n] Atoi_Itoa[of "nat n"] by (auto simp del: Atoi.simps)
  show "list_all number_char (json_scalar_text (JNumber n))"
    using Itoa_digits by (auto simp: list_all_iff number_char_def)
  show "json_scalar_text (JNumber n) \<noteq> []" "hd (json_scalar_text (JNumber n)) \<noteq> CHR 0x22"
    "\<not> json_blank (hd (json_scalar_text (JNumber n)))"
    using hd by auto
qed

lemma read_scalar_text:
  assumes "list_all json_blank w" "json_fits v" "t = [] \<or> \<not> number_char (hd t)"
  shows "read_scalar (w @ json_scalar_text v @ t) = Some (v, t)"
proof (cases v)
  case (JString s)
  then show ?thesis using assms(1) by (simp add: read_scalar_def json_string_cons json_string_unquote)
next
  case (JNumber n)
  note num = number_text[OF assms(2)[unfolded JNumber]]
  define d where "d = json_scalar_text (JNumber n)"
  obtain c cs where c: "d = c # cs" using num(3) by (cases d) (auto simp: d_def)
  have "takeWhile number_char (d @ t) = d" "dropWhile number_char (d @ t) = t"
    using num(2) assms(3) by (cases t, auto simp: d_def list_all_iff takeWhile_append dropWhile_append)+
  moreover have "\<not> json_blank c" "c \<noteq> CHR 0x22" using num(4,5) c unfolding d_def[symmetric] by auto
  moreover have "Atoi d = Some n" using num(1) by (simp only: d_def)
  moreover have "skip_blank (w @ d @ t) = d @ t" using assms(1) calculation c by simp
  ultimately show ?thesis
    using c by (simp add: JNumber read_scalar_def d_def[symmetric] del: json_scalar_text.simps Atoi.simps)
qed

lemma read_member_text:
  assumes "list_all json_blank pre" "list_all json_blank mid" "json_fits (snd m)" "t = [] \<or> \<not> number_char (hd t)"
  shows "read_member (member_text pre mid m @ t) = Some (m, t)"
proof -
  have key: "read_scalar (pre @ json_string (fst m) @ CHR '':'' # u) = Some (JString (fst m), CHR '':'' # u)" for u
    using read_scalar_text[OF assms(1), of "JString (fst m)" "CHR '':'' # u"] by (simp add: number_char_def is_digit_def)
  show ?thesis
    using read_scalar_text[OF assms(2,3,4)]
    by (simp add: read_member_def member_text_def key)
qed

lemma read_members_text:
  assumes "ms \<noteq> []" "length ms \<le> n" "list_all json_blank pre" "list_all json_blank mid" "list_all json_blank post"
    and "list_all (json_fits \<circ> snd) ms"
  shows "read_members n (join [CHR '',''] (map (member_text pre mid) ms) @ post @ CHR ''}'' # t) = Some (ms, t)"
  using assms(1,2,6)
proof (induction ms arbitrary: n)
  case Nil
  then show ?case by simp
next
  case (Cons m ms)
  then obtain k where n: "n = Suc k" by (cases n) auto
  have end_ok: "\<not> number_char (hd (post @ CHR ''}'' # t))"
    using assms(5) blank_not_number by (cases post) (simp_all add: number_char_def is_digit_def)
  show ?case
  proof (cases ms)
    case Nil
    have "read_member (member_text pre mid m @ post @ CHR ''}'' # t) = Some (m, post @ CHR ''}'' # t)"
      by (rule read_member_text) (use Cons.prems(3) end_ok assms in simp_all)
    then show ?thesis using Nil n assms(5) by simp
  next
    case (Cons m2 ms2)
    let ?rest = "join [CHR '',''] (map (member_text pre mid) ms) @ post @ CHR ''}'' # t"
    have "read_member (member_text pre mid m @ CHR '','' # ?rest) = Some (m, CHR '','' # ?rest)"
      by (rule read_member_text) (use Cons.prems(3) assms in \<open>simp_all add: number_char_def is_digit_def\<close>)
    moreover have "read_members k ?rest = Some (ms, t)" using Cons.prems n Cons by (intro Cons.IH) auto
    ultimately show ?thesis using n Cons by simp
  qed
qed

lemma member_text_nonempty: "member_text pre mid m \<noteq> []"
  by (simp add: member_text_def)

lemma length_join_members: "length ms \<le> length (join [CHR '',''] (map (member_text pre mid) ms))"
proof (induction ms)
  case (Cons m ms)
  have "Suc 0 \<le> length (member_text pre mid m)" by (simp add: member_text_def)
  then show ?case using Cons by (cases ms) auto
qed simp

lemma json_read_text:
  assumes "ms \<noteq> []" "list_all json_blank pre" "list_all json_blank mid" "list_all json_blank post"
    and "list_all json_blank post2" "list_all (json_fits \<circ> snd) ms"
  shows "json_read (CHR ''{'' # join [CHR '',''] (map (member_text pre mid) ms) @ post @ CHR ''}'' # post2) = Some ms"
proof -
  let ?s = "CHR ''{'' # join [CHR '',''] (map (member_text pre mid) ms) @ post @ CHR ''}'' # post2"
  have "length ms \<le> length ?s" using length_join_members[of ms pre mid] by simp
  from read_members_text[OF assms(1) this assms(2,3,4,6)] skip_blanks[OF assms(5), of "[]"]
  show ?thesis by (simp add: json_read_def skip_blank_def)
qed

text \<open>The text of a key file is its fields, in the order of the struct.\<close>

lemma json_MarshalIndent_members:
  assumes "fs \<noteq> []"
  shows "json_MarshalIndent fs =
    CHR ''{'' # join [CHR '',''] (map (member_text [CHR 0x0A, CHR '' '', CHR '' ''] [CHR '' ''])
      (map (apsnd JString) fs)) @ [CHR 0x0A, CHR ''}'']"
proof -
  have "CHR 0x0A # join [CHR '','', CHR 0x0A] (map (\<lambda>(k, v). ''  '' @ json_string k @ '': '' @ json_string v) fs)
      = join [CHR '',''] (map (member_text [CHR 0x0A, CHR '' '', CHR '' ''] [CHR '' '']) (map (apsnd JString) fs))"
    using assms
  proof (induction fs)
    case (Cons f fs)
    then show ?case by (cases fs) (auto simp: member_text_def split: prod.splits)
  qed simp
  then show ?thesis by (simp add: json_MarshalIndent_def)
qed

lemma key_text_read: "json_read (key_text k) = Some (map (apsnd JString) (key_fields k))"
proof -
  have ne: "key_fields k \<noteq> []" by (simp add: key_fields_def)
  have txt_eq: "key_text k = CHR ''{'' # join [CHR '',''] (map (member_text [CHR 0x0A, CHR '' '', CHR '' ''] [CHR '' ''])
      (map (apsnd JString) (key_fields k))) @ [CHR 0x0A] @ CHR ''}'' # [CHR 0x0A]"
    unfolding key_text_def json_MarshalIndent_members[OF ne] by simp
  show ?thesis
    unfolding txt_eq using ne by (intro json_read_text) (auto simp: json_blank_def list_all_iff)
qed

end
