(* ===== verification/Key_Properties.thy ===== *)
theory Key_Properties
  imports Fake_Host Json_Reader Sample_Config
begin

text \<open>
  What the credentials section guarantees on any host that meets \<open>key_store\<close>; the witnesses run
  on the host in memory.
\<close>

section \<open>A written key\<close>

lemma key_fields_map_of:
  "map_of (map (apsnd JString) (key_fields k)) ''type'' = Some (JString (k_Type k))"
  "map_of (map (apsnd JString) (key_fields k)) ''project_id'' = Some (JString (k_ProjectID k))"
  "map_of (map (apsnd JString) (key_fields k)) ''client_email'' = Some (JString (k_ClientEmail k))"
  "map_of (map (apsnd JString) (key_fields k)) ''auth_uri'' = Some (JString (k_AuthURI k))"
  "map_of (map (apsnd JString) (key_fields k)) ''token_uri'' = Some (JString (k_TokenURI k))"
  "map_of (map (apsnd JString) (key_fields k)) ''auth_provider_x509_cert_url'' = Some (JString (k_AuthProviderX509CertURL k))"
  "map_of (map (apsnd JString) (key_fields k)) ''client_x509_cert_url'' = Some (JString (k_ClientX509CertURL k))"
  by (simp_all add: key_fields_def)

text \<open>What a reader of a key file for a credential finds in it.\<close>

definition key_file_for :: "string \<Rightarrow> Credential \<Rightarrow> string \<Rightarrow> bool" where
  "key_file_for pid c s \<longleftrightarrow>
     (case json_read s of
        None \<Rightarrow> False
      | Some ms \<Rightarrow>
          map_of ms ''type'' = Some (JString ''service_account'')
          \<and> map_of ms ''project_id'' = Some (JString pid)
          \<and> map_of ms ''client_email'' =
              Some (JString (Email pid (if cr_Account c = [] then DefaultAccount else cr_Account c)))
          \<and> map_of ms ''token_uri'' = Some (JString (if cr_TokenURI c = [] then googleTokenURI else cr_TokenURI c))
          \<and> (cr_TokenURI c \<noteq> [] \<longrightarrow>
              list_all (\<lambda>k. map_of ms k = Some (JString (cr_TokenURI c)))
                [''auth_uri'', ''auth_provider_x509_cert_url'', ''client_x509_cert_url'']))"

lemma Generate_key_file:
  assumes "Generate h pid (if cr_Account c = [] then DefaultAccount else cr_Account c) (cr_TokenURI c) f = (Inr k, f')"
  shows "key_file_for pid c (key_text k)"
proof -
  have acc: "(if (if a = [] then DefaultAccount else a) = [] then DefaultAccount else if a = [] then DefaultAccount else a)
      = (if a = [] then DefaultAccount else a)" for a by simp
  show ?thesis
    using Generate_fields[OF assms]
    by (cases "cr_TokenURI c = []") (simp_all add: key_file_for_def key_text_read key_fields_map_of acc)
qed

text \<open>C11: when a credential's file is missing, or its strategy is \<open>update\<close>, provisioning it leaves a
  file that reads back as a service account key of the project and the account, whose token URI
  is the configured one; when one is configured, every other URL of the key points there too.\<close>
theorem provisionCredential_writes_a_readable_key:
  assumes store: "key_store h resolve entry" and "\<not> DryRun opts"
    and "EffectiveCredentialStrategy (cr_Strategy c) = ''update'' \<or> entry (files w) (resolve (cr_Path c)) = None"
    and "provisionCredential h opts pid c w = (None, w')"
  shows "\<exists>s. entry (files w') (resolve (cr_Path c)) = Some (File s) \<and> key_file_for pid c s"
proof -
  define acc where "acc = (if cr_Account c = [] then DefaultAccount else cr_Account c)"
  have run: "ensureCredential h opts pid c (EffectiveCredentialStrategy (cr_Strategy c)) w = (None, w')"
    using assms(4) unfolding provisionCredential_def by (elim wrap_result_elim) auto
  define w1 where "w1 = (emit (CallStat (cr_Path c)) w)\<lparr>files := files w\<rparr>"
  have fw: "files w1 = files w" by (simp add: w1_def)
  obtain g f' where g: "Generate h pid acc (cr_TokenURI c) (files w) = (g, f')" by fastforce
  note step = ensureCredential_def Let_def fileExists_eq key_store.stat[OF store] w1_def[symmetric] acc_def[symmetric] fw g
  obtain k where k: "g = Inr k"
    using run assms(2,3) by (cases g) (auto simp: step split: option.splits if_splits)
  obtain r w2 where wr: "Write h (cr_Path c) k (w1\<lparr>files := f'\<rparr>) = (r, w2)" by fastforce
  have "r = None" "files w' = files w2"
    using run assms(2,3) k wr by (auto simp: step split: option.splits if_splits)
  with g k wr have "Generate h pid acc (cr_TokenURI c) (files w) = (Inr k, f')"
    "Write h (cr_Path c) k (w1\<lparr>files := f'\<rparr>) = (None, w2)" "files w' = files w2" by simp_all
  then show ?thesis using key_store.Write_entry[OF store] Generate_key_file unfolding acc_def by metis
qed

definition mem_world :: "(unit, unit, mem_fs) world" where
  "mem_world = \<lparr>pubsub_state = (), storage_state = (), files = \<lparr>mem_nodes = Map.empty, mem_seed = 0\<rparr>, trace = []\<rparr>"

definition key_credential :: Credential where
  "key_credential = \<lparr>cr_Path = ''keys//sa.json'', cr_Strategy = [], cr_Account = [], cr_TokenURI = ''http://localhost:8099/token''\<rparr>"

lemma key_credential_run: "fst (provisionCredential mem_host DefaultOptions ''local-dev'' key_credential mem_world) = None"
  by code_simp

theorem provisionCredential_writes_a_readable_key_witness:
  "\<exists>w' s. provisionCredential mem_host DefaultOptions ''local-dev'' key_credential mem_world = (None, w')
    \<and> mem_nodes (files w') ''keys/sa.json'' = Some (File s) \<and> key_file_for ''local-dev'' key_credential s"
proof -
  obtain w' where run: "provisionCredential mem_host DefaultOptions ''local-dev'' key_credential mem_world = (None, w')"
    using key_credential_run by (metis prod.collapse)
  have p: "filepath_Clean (cr_Path key_credential) = ''keys/sa.json''" by code_simp
  have "\<not> DryRun DefaultOptions" by (simp add: DefaultOptions_def)
  from provisionCredential_writes_a_readable_key[OF mem_key_store this _ run] run
  show ?thesis by (simp add: p mem_world_def)
qed

section \<open>The whole section\<close>

text \<open>C10: no run of the section, successful or not, touches a byte of a file that is already there,
  unless a credential with strategy \<open>update\<close> names it.\<close>
theorem existing_key_files_are_kept:
  assumes "key_store h resolve entry" "ProvisionCredentials h opts cfg w = (r, w')" "entry (files w) n = Some e"
    and "\<forall>c \<in> set (cfg_Credentials cfg). resolve (cr_Path c) = n \<longrightarrow> EffectiveCredentialStrategy (cr_Strategy c) \<noteq> ''update''"
  shows "entry (files w') n = Some e"
  using key_store.credentials_keep[OF assms(1-3)] assms(4) by blast

text \<open>C9: after a run that returns no error every configured key file is there, and the next run,
  when no credential has strategy \<open>update\<close>, succeeds, writes nothing and leaves every file alone.\<close>
theorem credentials_converge_and_settle:
  assumes store: "key_store h resolve entry" and "\<not> DryRun opts"
    and first: "ProvisionCredentials h opts cfg w = (None, w1)"
    and second: "files w2 = files w1" "ProvisionCredentials h opts2 cfg w2 = (r, w3)"
  shows "(\<forall>c \<in> set (cfg_Credentials cfg). entry (files w1) (resolve (cr_Path c)) \<noteq> None)
    \<and> (list_all (\<lambda>c. EffectiveCredentialStrategy (cr_Strategy c) \<noteq> ''update'') (cfg_Credentials cfg) \<longrightarrow>
        r = None \<and> files w3 = files w1 \<and> (\<exists>es. trace w3 = trace w2 @ es \<and> list_all (\<lambda>e. \<not> mutating e) es))"
proof -
  have present: "entry (files w1) (resolve (cr_Path c)) \<noteq> None" if "c \<in> set (cfg_Credentials cfg)" for c
    using key_store.credentials_present[OF store first assms(2) that] .
  have "r = None \<and> files w3 = files w2 \<and> emits (\<lambda>e. \<not> mutating e) w2 w3"
    if "list_all (\<lambda>c. EffectiveCredentialStrategy (cr_Strategy c) \<noteq> ''update'') (cfg_Credentials cfg)"
    by (rule key_store.credentials_idle[OF store _ second(2)])
       (use that present second(1) in \<open>auto simp: list_all_iff\<close>)
  with present second(1) show ?thesis by (auto simp: emits_def)
qed

definition key_config :: Config where
  "key_config = sample_config\<lparr>cfg_Credentials := [key_credential]\<rparr>"

lemma key_config_run: "fst (ProvisionCredentials mem_host DefaultOptions key_config mem_world) = None"
  by code_simp

theorem credentials_converge_and_settle_witness:
  "\<exists>w1 r w3. ProvisionCredentials mem_host DefaultOptions key_config mem_world = (None, w1)
    \<and> mem_nodes (files w1) ''keys/sa.json'' \<noteq> None
    \<and> ProvisionCredentials mem_host DefaultOptions key_config w1 = (r, w3) \<and> r = None \<and> files w3 = files w1"
proof -
  obtain w1 where run: "ProvisionCredentials mem_host DefaultOptions key_config mem_world = (None, w1)"
    using key_config_run by (metis prod.collapse)
  obtain r w3 where run2: "ProvisionCredentials mem_host DefaultOptions key_config w1 = (r, w3)" by fastforce
  have d: "\<not> DryRun DefaultOptions" by (simp add: DefaultOptions_def)
  have p: "filepath_Clean (cr_Path key_credential) = ''keys/sa.json''" by code_simp
  have u: "list_all (\<lambda>c. EffectiveCredentialStrategy (cr_Strategy c) \<noteq> ''update'') (cfg_Credentials key_config)" by code_simp
  have c: "cfg_Credentials key_config = [key_credential]" by (simp add: key_config_def)
  from credentials_converge_and_settle[OF mem_key_store d run refl run2] u p c run run2 show ?thesis by auto
qed

definition kept_world :: "(unit, unit, mem_fs) world" where
  "kept_world = mem_world\<lparr>files := \<lparr>mem_nodes = [''keys/sa.json'' \<mapsto> File ''mine'', ''keys'' \<mapsto> Dir], mem_seed = 0\<rparr>\<rparr>"

theorem existing_key_files_are_kept_witness:
  "\<exists>r w'. ProvisionCredentials mem_host DefaultOptions key_config kept_world = (r, w')
    \<and> mem_nodes (files w') ''keys/sa.json'' = Some (File ''mine'')"
proof -
  obtain r w' where run: "ProvisionCredentials mem_host DefaultOptions key_config kept_world = (r, w')" by fastforce
  have e: "mem_nodes (files kept_world) ''keys/sa.json'' = Some (File ''mine'')" by (simp add: kept_world_def)
  have u: "list_all (\<lambda>c. EffectiveCredentialStrategy (cr_Strategy c) \<noteq> ''update'') (cfg_Credentials key_config)" by code_simp
  from existing_key_files_are_kept[OF mem_key_store, OF run e] u run show ?thesis by (auto simp: list_all_iff)
qed

end
