(* ===== verification/Fake_Storage.thy ===== *)
theory Fake_Storage
  imports Buckets
begin

text \<open>
  A Cloud Storage library over a server that answers as \<open>fakeGCS\<close> of
  \<open>internal/client/storage_test.go\<close> does: one table of buckets, an existing name is a 409, a
  missing one a 404, and the location and storage class of a new bucket are made up. With the
  \<open>StorageClient\<close> of \<open>internal/client\<close> it satisfies the contract \<open>bucket_endpoint\<close>.
\<close>

type_synonym fakeGCS = "string \<Rightarrow> BucketAttrs option"

definition gcs_missing :: go_error where
  "gcs_missing = StorageError True (Some 404) ''storage: bucket does not exist''"

definition gcs_Attrs :: "string \<Rightarrow> fakeGCS \<Rightarrow> (go_error + BucketAttrs) \<times> fakeGCS" where
  "gcs_Attrs n f = (case f n of None \<Rightarrow> Inl gcs_missing | Some a \<Rightarrow> Inr a, f)"

definition gcs_Create :: "string \<Rightarrow> string \<Rightarrow> BucketAttrs \<Rightarrow> fakeGCS \<Rightarrow> go_error option \<times> fakeGCS" where
  "gcs_Create n projectID a f =
     (case f n of
        Some _ \<Rightarrow> (Some (StorageError False (Some 409) ''googleapi: Error 409: already exists''), f)
      | None \<Rightarrow> (None, f(n \<mapsto> a\<lparr>ba_Name := n, ba_Location := ''US-CENTRAL1'', ba_StorageClass := ''STANDARD''\<rparr>)))"

definition gcs_Update :: "string \<Rightarrow> bool \<Rightarrow> fakeGCS \<Rightarrow> go_error option \<times> fakeGCS" where
  "gcs_Update n v f =
     (case f n of
        None \<Rightarrow> (Some gcs_missing, f)
      | Some a \<Rightarrow> (None, f(n \<mapsto> a\<lparr>ba_VersioningEnabled := v\<rparr>)))"

definition gcs_api :: "fakeGCS storage_api" where
  "gcs_api = \<lparr>bucket_Attrs = gcs_Attrs, bucket_Create = gcs_Create, bucket_Update = gcs_Update\<rparr>"

definition gcs_client :: "string \<Rightarrow> fakeGCS StorageClient" where
  "gcs_client projectID = \<lparr>sc_projectID = projectID, sc_client = gcs_api\<rparr>"

definition gcs_buckets :: "fakeGCS \<Rightarrow> string \<Rightarrow> Bucket option" where
  "gcs_buckets f n = map_option (\<lambda>a. \<lparr>b_Name = ba_Name a, b_VersioningEnabled = ba_VersioningEnabled a,
     b_Location = ba_Location a, b_StorageClass = ba_StorageClass a\<rparr>) (f n)"

lemma gcs_client_simps [simp]:
  "sc_client (gcs_client pid) = gcs_api" "bucket_Attrs gcs_api = gcs_Attrs"
  "bucket_Create gcs_api = gcs_Create" "bucket_Update gcs_api = gcs_Update"
  by (simp_all add: gcs_client_def gcs_api_def)

interpretation gcs: bucket_endpoint "storage_admin (gcs_client pid)" "\<lambda>f. True" gcs_buckets for pid
proof (unfold_locales, goal_cases)
  case (1 f n)
  then show ?case
    by (simp add: client_GetBucket_def gcs_Attrs_def gcs_buckets_def gcs_missing_def split: option.splits)
next
  case (2 f b r f')
  then show ?case
    by (auto simp: client_CreateBucket_def gcs_Create_def gcs_buckets_def split: option.splits)
next
  case (3 f n live v r f')
  then show ?case
    by (auto simp: client_SetVersioning_def gcs_Update_def gcs_buckets_def split: option.splits intro!: ext)
qed

end
