(* ===== verification/Storage_Properties.thy ===== *)
theory Storage_Properties
  imports Fake_Storage Provisioner Sample_Config
begin

text \<open>
  What the Cloud Storage section guarantees on any endpoint that meets \<open>bucket_endpoint\<close>, and
  what the storage client does with a URL and with errors.
\<close>

definition gcs_world :: "(unit, fakeGCS, unit) world" where
  "gcs_world = \<lparr>pubsub_state = (), storage_state = Map.empty, files = (), trace = []\<rparr>"

lemma valid_bucket_names: "valid_config u cfg \<Longrightarrow> distinct (map bc_Name (st_Buckets (cfg_Storage cfg)))"
  by (simp add: valid_config_def)

section \<open>The section\<close>

text \<open>C6: on a valid configuration the Cloud Storage section returns no error; afterwards every
  configured bucket exists and, unless its strategy is \<open>create\<close> or it leaves versioning out, has
  the configured versioning; every other bucket is as before.\<close>
theorem storage_section_converges:
  assumes "bucket_endpoint sa ok buckets" "ok (storage_state w)" "\<not> DryRun opts" "valid_config u cfg"
    "ProvisionStorage sa opts cfg w = (r, w')"
  shows "r = None \<and> storage_settled cfg (buckets (storage_state w'))
    \<and> (\<forall>n. n \<notin> set (map bc_Name (st_Buckets (cfg_Storage cfg))) \<longrightarrow>
          buckets (storage_state w') n = buckets (storage_state w) n)"
  using bucket_endpoint.storage_effect[OF assms(1,2,3) valid_bucket_names[OF assms(4)] assms(5)] by simp

theorem storage_section_converges_witness:
  "\<exists>r w'. ProvisionStorage (storage_admin (gcs_client ''local-dev'')) DefaultOptions sample_config gcs_world = (r, w')
    \<and> r = None \<and> storage_settled sample_config (gcs_buckets (storage_state w'))"
proof -
  obtain r w' where run: "ProvisionStorage (storage_admin (gcs_client ''local-dev'')) DefaultOptions sample_config gcs_world = (r, w')"
    by fastforce
  have "\<not> DryRun DefaultOptions" by (simp add: DefaultOptions_def)
  from storage_section_converges[OF gcs.bucket_endpoint_axioms TrueI this sample_config_valid run] run
  show ?thesis by blast
qed

text \<open>C18: once a run has succeeded, the next one with the same configuration makes no mutating call
  and leaves the buckets alone, in whatever mode it is run.\<close>
theorem storage_section_idempotent:
  assumes ep: "bucket_endpoint sa ok buckets" and "ok (storage_state w)" "\<not> DryRun opts" "valid_config u cfg"
    and first: "ProvisionStorage sa opts cfg w = (r, w1)"
    and second: "storage_state w2 = storage_state w1" "ProvisionStorage sa opts2 cfg w2 = (r', w3)"
  shows "r' = None \<and> storage_state w3 = storage_state w2
    \<and> (\<exists>es. trace w3 = trace w2 @ es \<and> list_all (\<lambda>e. \<not> mutating e) es)"
proof -
  note eff = bucket_endpoint.storage_effect[OF assms(1,2,3) valid_bucket_names[OF assms(4)] first]
  have "ok (storage_state w2)" "storage_settled cfg (buckets (storage_state w2))" using eff second(1) by simp_all
  from bucket_endpoint.storage_idle[OF ep this second(2)] show ?thesis by (simp add: emits_def)
qed

theorem storage_section_idempotent_witness:
  "\<exists>r w1 r' w3. ProvisionStorage (storage_admin (gcs_client ''local-dev'')) DefaultOptions sample_config gcs_world = (r, w1)
    \<and> ProvisionStorage (storage_admin (gcs_client ''local-dev'')) DefaultOptions sample_config w1 = (r', w3)
    \<and> r' = None \<and> storage_state w3 = storage_state w1"
proof -
  obtain r w1 where run: "ProvisionStorage (storage_admin (gcs_client ''local-dev'')) DefaultOptions sample_config gcs_world = (r, w1)"
    by fastforce
  obtain r' w3 where run2: "ProvisionStorage (storage_admin (gcs_client ''local-dev'')) DefaultOptions sample_config w1 = (r', w3)"
    by fastforce
  have "\<not> DryRun DefaultOptions" by (simp add: DefaultOptions_def)
  from storage_section_idempotent[OF gcs.bucket_endpoint_axioms TrueI this sample_config_valid run refl run2] run run2
  show ?thesis by blast
qed

section \<open>Errors\<close>

text \<open>Enabling versioning of bucket \<open>b\<close> is refused with \<open>err\<close>: its creation, or the update of
  the existing bucket.\<close>

definition versioning_refused ::
    "'q StorageAdmin \<Rightarrow> string \<Rightarrow> BucketCfg \<Rightarrow> 'q \<Rightarrow> go_error \<Rightarrow> 'q \<Rightarrow> bool" where
  "versioning_refused sa strategy b st err st' \<longleftrightarrow>
     (case GetBucket sa (bc_Name b) st of
        (Inl e, st1) \<Rightarrow> e = ErrBucketNotFound \<and> CreateBucket sa (desiredBucket b) st1 = (Some err, st')
      | (Inr live, st1) \<Rightarrow> strategy \<noteq> ''create'' \<and> \<not> b_VersioningEnabled live
          \<and> SetVersioning sa (bc_Name b) True st1 = (Some err, st'))
     \<and> IsVersioningUnsupported (Some err)"

fun looks_only_at :: "string \<Rightarrow> event \<Rightarrow> bool" where
  "looks_only_at n (CallGetBucket m) \<longleftrightarrow> m = n"
| "looks_only_at n _ \<longleftrightarrow> True"

lemma provisionBucket_refused:
  assumes "bc_Versioning b = Some True" "\<not> DryRun opts"
    and refused: "versioning_refused sa (EffectiveStrategy [bc_Strategy b, g]) b (storage_state v) err st'"
  shows "\<exists>v'. provisionBucket sa opts g b v
      = (Some (Wrapped (''provisioning bucket '' @ quote (bc_Name b) @ '': '') (Wrapped [] err versioning_hint) []), v')
    \<and> storage_state v' = st' \<and> emits (looks_only_at (bc_Name b)) v v'"
proof -
  let ?P = "looks_only_at (bc_Name b)"
  obtain x st1 where get: "GetBucket sa (bc_Name b) (storage_state v) = (x, st1)" by fastforce
  define w1 where "w1 = (emit (CallGetBucket (bc_Name b)) v)\<lparr>storage_state := st1\<rparr>"
  have g: "on_storage (CallGetBucket (bc_Name b)) (GetBucket sa (bc_Name b)) v = (x, w1)"
    using get by (simp add: on_storage_eq w1_def)
  have w1: "storage_state w1 = st1" "emits ?P v w1" by (simp_all add: w1_def emits_def)
  have call: "\<exists>v'. annotated True (on_storage e f (slog l m a u)) = (Some (Wrapped [] err versioning_hint), v')
      \<and> storage_state v' = st' \<and> emits ?P v v'"
    if "f st1 = (Some err, st')" "storage_state u = st1" "emits ?P v u" "?P e" for e f l m a u
  proof -
    have "on_storage e f (slog l m a u) = (Some err, (emit e (slog l m a u))\<lparr>storage_state := st'\<rparr>)"
      using that(1,2) by (simp add: on_storage_eq)
    moreover have "emits ?P v ((emit e (slog l m a u))\<lparr>storage_state := st'\<rparr>)"
      by (rule emits_trans[of ?P v "slog l m a u"])
         (use that(3,4) in \<open>auto simp: emits_slog_after emits_def\<close>)
    ultimately show ?thesis
      using refused by (simp add: annotated_def annotateVersioningError_def versioning_refused_def)
  qed
  have versioning: "b_VersioningEnabled (desiredBucket b)" using assms(1) by (simp add: desiredBucket_def DerefBool_def)
  have "\<exists>v'. ensureBucket sa opts b (EffectiveStrategy [bc_Strategy b, g]) v
      = (Some (Wrapped [] err versioning_hint), v') \<and> storage_state v' = st' \<and> emits ?P v v'"
  proof (cases x)
    case (Inl e)
    then show ?thesis
      using refused get call[of "CreateBucket sa (desiredBucket b)" w1] w1 versioning assms(2)
      by (simp add: ensureBucket_def Let_def g versioning_refused_def)
  next
    case (Inr cur)
    let ?u = "let w2 = slog Debug ''Bucket already exists'' [(''bucket'', AStr (bc_Name b))] w1 in
       if CompareCreateOnlyBucketAttrs opts then fold (warnCreateOnly (bc_Name b)) (createOnlyDrift b cur) w2 else w2"
    have "storage_state ?u = st1" "emits ?P v ?u"
      using w1 by (auto simp: Let_def intro!: emits_warnCreateOnly emits_slog_after)
    then show ?thesis
      using Inr refused get call[of "SetVersioning sa (bc_Name b) True" ?u] assms
      by (simp add: ensureBucket_def ensureVersioning_def Let_def g versioning_refused_def)
  qed
  then show ?thesis by (auto simp: provisionBucket_def wrap_result_def)
qed

text \<open>C29: when the backend refuses to enable versioning of any configured bucket, be it at its
  creation or on the existing bucket, the section stops there with an error that still carries
  the backend's own, codes included, followed by the remedy; no later bucket is looked at.\<close>
theorem versioning_refusal_is_explained:
  assumes "st_Buckets (cfg_Storage cfg) = bs1 @ b # bs2" "bc_Versioning b = Some True" "\<not> DryRun opts"
    and before: "for_each (provisionBucket sa opts (cfg_Strategy cfg)) bs1
      (slog Info ''Provisioning Cloud Storage'' [(''buckets'', AInt (int (length (bs1 @ b # bs2))))] w) = (None, v)"
    and refused: "versioning_refused sa (EffectiveStrategy [bc_Strategy b, cfg_Strategy cfg]) b (storage_state v) err st'"
    and run: "ProvisionStorage sa opts cfg w = (r, w')"
  shows "\<exists>e es. r = Some e \<and> storage_state w' = st'
    \<and> err_Error e = ''provisioning bucket '' @ quote (bc_Name b) @ '': '' @ err_Error err @ versioning_hint
    \<and> http_code e = http_code err \<and> status_Code e = status_Code err
    \<and> trace w' = trace v @ es \<and> list_all (looks_only_at (bc_Name b)) es"
proof -
  let ?e = "Wrapped (''provisioning bucket '' @ quote (bc_Name b) @ '': '') (Wrapped [] err versioning_hint) []"
  obtain v' where v': "provisionBucket sa opts (cfg_Strategy cfg) b v = (Some ?e, v')" "storage_state v' = st'"
    "emits (looks_only_at (bc_Name b)) v v'"
    using provisionBucket_refused[OF assms(2,3) refused] by blast
  have "r = Some ?e \<and> w' = v'"
    using run v'(1) before unfolding ProvisionStorage_def Let_def assms(1) by (simp add: for_each_append)
  then show ?thesis using v'(2,3) by (auto simp: emits_def)
qed

text \<open>A server on its filesystem backend: it has no buckets and refuses versioning.\<close>

definition disk_error :: go_error where
  "disk_error = StorageError False (Some 500) ''googleapi: Error 500: not implemented: fs storage type does not support versioning''"

definition disk_api :: "unit storage_api" where
  "disk_api =
     \<lparr>bucket_Attrs = (\<lambda>n st. (Inl gcs_missing, st)), bucket_Create = (\<lambda>n p a st. (Some disk_error, st)),
      bucket_Update = (\<lambda>n v st. (Some disk_error, st))\<rparr>"

definition disk_admin :: "unit StorageAdmin" where
  "disk_admin = storage_admin \<lparr>sc_projectID = ''local-dev'', sc_client = disk_api\<rparr>"

definition disk_world :: "(unit, unit, unit) world" where
  "disk_world = \<lparr>pubsub_state = (), storage_state = (), files = (), trace = []\<rparr>"

theorem versioning_refusal_is_explained_witness:
  "\<exists>r w' e. ProvisionStorage disk_admin DefaultOptions sample_config disk_world = (r, w') \<and> r = Some e \<and> http_code e = Some 500"
proof -
  obtain r w' where run: "ProvisionStorage disk_admin DefaultOptions sample_config disk_world = (r, w')" by fastforce
  let ?err = "Wrapped (''creating bucket '' @ quote (bc_Name sample_bucket) @ '': '') disk_error []"
  have b: "st_Buckets (cfg_Storage sample_config) = [] @ sample_bucket # []" "bc_Versioning sample_bucket = Some True"
    by (simp_all add: sample_config_def sample_bucket_def)
  have d: "\<not> DryRun DefaultOptions" by (simp add: DefaultOptions_def)
  have g: "GetBucket disk_admin (bc_Name sample_bucket) () = (Inl ErrBucketNotFound, ())"
    by (simp add: disk_admin_def client_GetBucket_def disk_api_def gcs_missing_def)
  have ne: "\<not> isBucketExistsError disk_error" by code_simp
  have c: "CreateBucket disk_admin (desiredBucket sample_bucket) () = (Some ?err, ())"
    using ne by (simp add: disk_admin_def client_CreateBucket_def disk_api_def desiredBucket_def)
  have "IsVersioningUnsupported (Some ?err)" by code_simp
  then have v: "versioning_refused disk_admin s sample_bucket st ?err ()" for s st
    using g c by (simp add: versioning_refused_def)
  have "http_code ?err = Some 500" by (simp add: disk_error_def)
  with versioning_refusal_is_explained[OF b d for_each.simps(1) v run] run show ?thesis by auto
qed

text \<open>C40: a failed creation whose error text contains 409 anywhere is taken for an existing bucket:
  the client reports success although the server's state is whatever the failure left.\<close>
theorem create_error_mentioning_409_is_lost:
  assumes "\<And>n p a. bucket_Create (sc_client c) n p a st = (Some e, st')" "Contains (err_Error e) ''409''"
  shows "client_CreateBucket c b st = (None, st')"
  using assms by (simp add: client_CreateBucket_def isBucketExistsError_def)

theorem create_error_mentioning_409_is_lost_witness:
  "client_CreateBucket \<lparr>sc_projectID = ''local-dev'',
       sc_client = disk_api\<lparr>bucket_Create := \<lambda>n p a st. (Some (ErrorText ''dial tcp 127.0.0.1:4090: connect: connection refused''), st)\<rparr>\<rparr>
     (desiredBucket sample_bucket) () = (None, ())"
proof (rule create_error_mentioning_409_is_lost)
  show "Contains (err_Error (ErrorText ''dial tcp 127.0.0.1:4090: connect: connection refused'')) ''409''" by code_simp
qed simp

section \<open>The endpoint URL\<close>

text \<open>C33: whatever form the emulator host is given in, the endpoint URL has a scheme and ends in
  the API path exactly once: giving it the result again changes nothing.\<close>
theorem storageEndpoint_is_normal:
  "Contains (storageEndpoint host) ''://'' \<and> HasSuffix (storageEndpoint host) ''/storage/v1/''
   \<and> storageEndpoint (storageEndpoint host) = storageEndpoint host"
  using storageEndpoint_scheme storageEndpoint_suffix storageEndpoint_idem by blast

end
