(* ===== verification/Config_Properties.thy ===== *)
theory Config_Properties
  imports Sample_Config
begin

text \<open>What \<open>internal/config\<close> guarantees: loading, environment references, durations and validation.\<close>

section \<open>Validation\<close>

text \<open>C4: \<open>validate\<close> returns no error exactly on the configurations the declarative
  specification allows: well-formed and unique names, parseable durations in Google Cloud's
  ranges, push settings only with an endpoint, every dead letter topic declared.\<close>
theorem validate_accepts_exactly_the_valid:
  "validate url_parse cfg = None \<longleftrightarrow> valid_config url_parse cfg"
  by (rule validate_ok)

lemma Load_cases:
  assumes "Load read_file unmarshal env url_parse path = Inr cfg"
  obtains data raw where "read_file path = Inr data" "unmarshal data = Inr raw" "cfg = expandConfig env raw"
    "validate url_parse cfg = None"
  using assms by (auto simp: Load_def Let_def split: sum.splits option.splits)

lemma Load_valid:
  assumes "Load read_file unmarshal env url_parse path = Inr cfg"
  shows "valid_config url_parse cfg" "list_all wf_map (config_maps cfg)"
proof -
  obtain raw where cfg: "cfg = expandConfig env raw" "validate url_parse cfg = None"
    using assms by (rule Load_cases)
  show "valid_config url_parse cfg" using cfg(2) by (simp add: validate_ok)
  show "list_all wf_map (config_maps cfg)" by (simp add: cfg(1) expandConfig_maps list_all_iff wf_expandMap)
qed


definition sample_read :: "string \<Rightarrow> string + string" where
  "sample_read path = (if path = ''config.yaml'' then Inr ''doc'' else Inl ''no such file'')"

definition sample_unmarshal :: "string \<Rightarrow> string + Config" where
  "sample_unmarshal data = Inr (sample_config\<lparr>cfg_ProjectID := ''${PROJECT}''\<rparr>)"

definition sample_env :: environ where
  "sample_env = [''PROJECT'' \<mapsto> ''local-dev'']"

lemma sample_load: "Load sample_read sample_unmarshal sample_env sample_url ''config.yaml'' = Inr sample_config"
proof -
  have "expandConfig sample_env (sample_config\<lparr>cfg_ProjectID := ''${PROJECT}''\<rparr>) = sample_config" by code_simp
  then show ?thesis
    using sample_config_valid by (simp add: Load_def sample_read_def sample_unmarshal_def validate_ok[symmetric])
qed


section \<open>Environment references\<close>

text \<open>C26: expansion computes exactly what its specification relates to the text: every
  reference (a non-empty name without closing brace between \<open>${\<close> and \<open>}\<close>) is replaced, left to
  right, by its variable's value or, if that is unset, by its own text; every other byte is
  copied, and a value that contains a reference is not expanded again.\<close>
theorem expandEnvVars_meets_spec:
  "env_expansion env s t \<longleftrightarrow> t = expandEnvVars env s"
  using expandEnvVars_expansion env_expansion_expandEnvVars by blast

text \<open>C27: every string field of every struct is expanded, and every label and attribute map, key
  and value.\<close>
theorem expandConfig_reaches_every_string:
  "config_strings (expandConfig env cfg) = map (expandEnvVars env) (config_strings cfg)
   \<and> config_maps (expandConfig env cfg) = map (expandMap env) (config_maps cfg)"
  using expandConfig_strings expandConfig_maps by blast

section \<open>Durations\<close>

text \<open>C34: day notation means twenty-four hours a day as long as the nanoseconds fit a signed
  64-bit integer, which they do up to 106751 days.\<close>
theorem ParseDuration_of_days:
  "n \<le> 106751 \<Longrightarrow> ParseDuration (Itoa n @ ''d'') = Some (int n * 24 * Hour)"
  by (rule ParseDuration_days)

theorem ParseDuration_of_days_witness: "ParseDuration (Itoa 31 @ ''d'') = Some (int 31 * 24 * Hour)"
  by (rule ParseDuration_of_days) simp

text \<open>C35: a count with a unit parses to its value in nanoseconds when that fits a signed 64-bit
  integer and is rejected otherwise, for every unit \<open>time.ParseDuration\<close> knows (the two byte
  lists are the micro sign and the Greek mu before an \<open>s\<close>).\<close>
theorem ParseDuration_of_units:
  assumes "(u, k) \<in> set [(''ns'', 1), (''us'', 10 ^ 3), ([CHR 0xC2, CHR 0xB5, CHR ''s''], 10 ^ 3),
      ([CHR 0xCE, CHR 0xBC, CHR ''s''], 10 ^ 3), (''ms'', 10 ^ 6), (''s'', 10 ^ 9), (''m'', 60 * 10 ^ 9),
      (''h'', 3600 * 10 ^ 9)]"
  shows "ParseDuration (Itoa n @ u) = (if n * k < 2 ^ 63 then Some (int (n * k)) else None)"
  using assms by (intro ParseDuration_unit) (auto simp: unitMap_def num_char_def is_digit_def)

theorem ParseDuration_of_units_witness:
  "ParseDuration ''90m'' = Some (int (90 * (60 * 10 ^ 9))) \<and> ParseDuration ''2562048h'' = None"
proof -
  have "Itoa 90 = ''90''" "Itoa 2562048 = ''2562048''" by code_simp+
  then show ?thesis
    using ParseDuration_of_units[of "''m''" "60 * 10 ^ 9" 90] ParseDuration_of_units[of "''h''" "3600 * 10 ^ 9" 2562048]
    by simp
qed

text \<open>C36: a day count beyond 106751 that still is an \<open>int64\<close> is not rejected: its nanoseconds wrap
  around, so the parsed duration is never the one written, and a topic may be given it as its
  retention exactly when the wrapped value happens to be between 10 minutes and 31 days.\<close>
theorem ParseDuration_day_overflow:
  assumes "106751 < n" "int n < 2 ^ 63"
  shows "\<exists>d. ParseDuration (Itoa n @ ''d'') = Some d
    \<and> d = (int n * 24 * Hour + 2 ^ 63) mod 2 ^ 64 - 2 ^ 63 \<and> d \<noteq> int n * 24 * Hour
    \<and> (duration_ok minMessageRetention maxMessageRetention (Itoa n @ ''d'') \<longleftrightarrow>
        10 * Minute \<le> d \<and> d \<le> 31 * 24 * Hour)"
proof (intro exI conjI)
  have "int64 (int64 (int n * 24) * Hour) = int64 (int n * 24 * Hour)" by (rule int64_mult)
  then show parsed: "ParseDuration (Itoa n @ ''d'') = Some (int64 (int n * 24 * Hour))"
    using ParseDuration_day_count[OF assms(2)] by simp
  show "int64 (int n * 24 * Hour) = (int n * 24 * Hour + 2 ^ 63) mod 2 ^ 64 - 2 ^ 63" by (rule int64_eq)
  have "2 ^ 63 \<le> int n * 24 * Hour" using assms(1) by simp
  then show "int64 (int n * 24 * Hour) \<noteq> int n * 24 * Hour" using int64_range(2)[of "int n * 24 * Hour"] by linarith
  have "\<not> containsNullByte (Itoa n @ ''d'')"
    using Itoa_digits[of n] by (auto simp: containsNullByte_def is_digit_def)
  then show "duration_ok minMessageRetention maxMessageRetention (Itoa n @ ''d'') \<longleftrightarrow>
      10 * Minute \<le> int64 (int n * 24 * Hour) \<and> int64 (int n * 24 * Hour) \<le> 31 * 24 * Hour"
    by (auto simp: duration_ok_def parsed minMessageRetention_def maxMessageRetention_def)
qed

theorem ParseDuration_day_overflow_witness:
  "ParseDuration ''213504d'' = Some (213504 * 24 * Hour - 2 ^ 64)
   \<and> duration_ok minMessageRetention maxMessageRetention ''213504d''"
proof -
  have "Itoa 213504 = ''213504''" by code_simp
  then show ?thesis using ParseDuration_day_overflow[of 213504] by simp
qed

end
