(* ===== verification/Program_Properties.thy ===== *)
theory Program_Properties
  imports Program PubSub_Properties Key_Properties Storage_Properties Config_Properties
begin

text \<open>
  What a whole invocation of the provisioner guarantees, from the flags and the environment to
  the exit code: the composition of loading, connecting, the sections and closing.
\<close>

section \<open>A platform to run on\<close>

text \<open>The repository's fake Pub/Sub server, the storage server of the client tests and a host in
  memory, behind an SDK whose dials and probes succeed. A handle is a number.\<close>

definition easy_sdk :: "(nat, nat) sdk" where
  "easy_sdk =
     \<lparr>NewTopicAdminClient = (\<lambda>os e. (Inr e, e + 1)), NewSubscriptionAdminClient = (\<lambda>os e. (Inr e, e + 1)),
      NewStorageClient = (\<lambda>os e. (Inr e, e + 1)),
      ListTopics_Next = (\<lambda>h p n c x. (IteratorDone, x)), Buckets_Next = (\<lambda>h p c x. (IteratorDone, x))\<rparr>"

definition easy_platform :: "(pb_Duration fakePubSub, fakeGCS, mem_fs, nat, pb_Duration, nat, nat) platform" where
  "easy_platform =
     \<lparr>pl_environ = [''PROJECT'' \<mapsto> ''local-dev'', ''GCP_CONFIG_PATH'' \<mapsto> ''config.yaml''],
      pl_ReadFile = sample_read, pl_Unmarshal = sample_unmarshal, pl_url_Parse = sample_url, pl_host = mem_host,
      pl_sdk = easy_sdk, pl_tie = True, pl_context = \<lparr>ctx_Done = None, ctx_Cause = ErrorText ''context canceled''\<rparr>,
      pl_pubsub_api = (\<lambda>t u. c_api (fake_client ''local-dev'')), pl_durationpb = seconds_pb,
      pl_storage_api = (\<lambda>h. gcs_api), pl_CloseErr = (\<lambda>h e. None)\<rparr>"

definition easy_start :: "(pb_Duration fakePubSub, fakeGCS, mem_fs, nat, nat) prog" where
  "easy_start =
     \<lparr>pr_world = \<lparr>pubsub_state = startFakePubSub, storage_state = Map.empty,
        files = \<lparr>mem_nodes = Map.empty, mem_seed = 0\<rparr>, trace = []\<rparr>,
      pr_net = \<lparr>clock = 0, open_handles = [], net_trace = [], net_env = 0\<rparr>\<rparr>"

definition plain_flags :: flags where
  "plain_flags = \<lparr>fl_section = [], fl_dry_run = False, fl_dry_run_set = False, fl_version = False\<rparr>"

section \<open>What the sections of a prepared provisioner do\<close>

lemma prepared_config:
  assumes "prepared pl sect opts p"
  shows "pubsub_config_ok (pv_cfg p)" "distinct (map bc_Name (st_Buckets (cfg_Storage (pv_cfg p))))"
    "DryRun (pv_opts p) = DryRun opts"
proof -
  obtain cfg0 pid path where load: "Load (pl_ReadFile pl) (pl_Unmarshal pl) (pl_environ pl) (pl_url_Parse pl) path = Inr cfg0"
      and cfg: "pv_cfg p = cfg0\<lparr>cfg_ProjectID := pid\<rparr>" and dry: "DryRun (pv_opts p) = DryRun opts"
    using assms by (auto simp: prepared_def)
  show "pubsub_config_ok (pv_cfg p)" "distinct (map bc_Name (st_Buckets (cfg_Storage (pv_cfg p))))"
    using Load_valid[OF load] by (simp_all add: cfg pubsub_config_ok_def valid_config_def config_maps_def)
  show "DryRun (pv_opts p) = DryRun opts" by (fact dry)
qed

lemma prepared_pubsub_effect:
  assumes ep: "\<And>pid t u. pubsub_endpoint (pubsub_admin_of pl pid t u) ok supported (topics pid) (subs pid)"
    and prep: "prepared pl sect opts p" "wants sect sectionPubSub" "\<not> DryRun opts"
    and "ok (pubsub_state w)" "p_ProvisionPubSub p w = (r, w')"
  defines "pid \<equiv> cfg_ProjectID (pv_cfg p)"
  shows "r = Returned None
    \<and> pubsub_settled (supported (pubsub_state w)) (pv_cfg p) (topics pid (pubsub_state w')) (subs pid (pubsub_state w'))"
proof -
  obtain t u where f: "pv_pubsub p = pubsub_for pl sect (pv_cfg p) t u" using prep(1) by (auto simp: prepared_def)
  show ?thesis
  proof (cases "ps_Topics (cfg_PubSub (pv_cfg p)) = []")
    case True
    then show ?thesis using assms(6) f
      by (auto simp: p_ProvisionPubSub_def pubsub_for_def pubsub_settled_def subscription_pairs_def)
  next
    case False
    then have some: "pv_pubsub p = Some (pubsub_admin_of pl pid t u)" using f prep(2) by (simp add: pubsub_for_def pid_def)
    then obtain r' where "ProvisionPubSub (pubsub_admin_of pl pid t u) (pv_opts p) (pv_cfg p) w = (r', w')" "r = Returned r'"
      using assms(6) by (auto simp: p_ProvisionPubSub_def apfst_def map_prod_def split: prod.splits)
    with pubsub_endpoint.provision_effect[OF ep assms(5), of "pv_opts p" "pv_cfg p"] prep(3) prepared_config[OF prep(1)]
    show ?thesis by simp
  qed
qed

lemma prepared_storage_effect:
  assumes ep: "\<And>pid h. bucket_endpoint (storage_admin_of pl pid h) ok buckets"
    and prep: "prepared pl sect opts p" "wants sect sectionStorage" "\<not> DryRun opts"
    and "ok (storage_state w)" "p_ProvisionStorage p w = (r, w')"
  shows "r = Returned None \<and> storage_settled (pv_cfg p) (buckets (storage_state w'))"
proof -
  obtain h where f: "pv_storage p = storage_for pl sect (pv_cfg p) h" using prep(1) by (auto simp: prepared_def)
  show ?thesis
  proof (cases "st_Buckets (cfg_Storage (pv_cfg p)) = []")
    case True
    then show ?thesis using assms(6) f by (auto simp: p_ProvisionStorage_def storage_for_def storage_settled_def)
  next
    case False
    let ?sa = "storage_admin_of pl (cfg_ProjectID (pv_cfg p)) h"
    have "pv_storage p = Some ?sa" using False f prep(2) by (simp add: storage_for_def)
    then obtain r' where "ProvisionStorage ?sa (pv_opts p) (pv_cfg p) w = (r', w')" "r = Returned r'"
      using assms(6) by (auto simp: p_ProvisionStorage_def apfst_def map_prod_def split: prod.splits)
    with bucket_endpoint.storage_effect[OF ep assms(5), of "pv_opts p" "pv_cfg p"] prep(3) prepared_config[OF prep(1)]
    show ?thesis by simp
  qed
qed

text \<open>All sections: what they leave behind when they succeed, and that only a key file can make
  them fail.\<close>

definition key_files_present :: "(string \<Rightarrow> 'n) \<Rightarrow> ('n \<Rightarrow> fs_entry option) \<Rightarrow> Config \<Rightarrow> bool" where
  "key_files_present resolve entry cfg \<longleftrightarrow> list_all (\<lambda>c. entry (resolve (cr_Path c)) \<noteq> None) (cfg_Credentials cfg)"

lemma prepared_Run_effect:
  assumes ps: "\<And>pid t u. pubsub_endpoint (pubsub_admin_of pl pid t u) ok supported (topics pid) (subs pid)"
    and st: "\<And>pid h. bucket_endpoint (storage_admin_of pl pid h) ok' buckets"
    and ks: "key_store (pl_host pl) resolve entry"
    and prep: "prepared pl sectionAll opts p" "\<not> DryRun opts"
    and oks: "ok (pubsub_state w)" "ok' (storage_state w)" and run: "Run (pl_host pl) p w = (r, w')"
  defines "pid \<equiv> cfg_ProjectID (pv_cfg p)"
  shows "(r = Returned None \<longrightarrow>
      pubsub_settled (supported (pubsub_state w)) (pv_cfg p) (topics pid (pubsub_state w')) (subs pid (pubsub_state w'))
      \<and> storage_settled (pv_cfg p) (buckets (storage_state w')) \<and> key_files_present resolve (entry (files w')) (pv_cfg p))
    \<and> (fst (ProvisionCredentials (pl_host pl) (pv_opts p) (pv_cfg p) (slog Info ''Starting provisioning'' [] w)) = None
        \<longrightarrow> r = Returned None)"
proof -
  have all: "wants sectionAll sect" for sect by (simp add: wants_def)
  note pubsub = prepared_pubsub_effect[where topics = topics and subs = subs, OF ps prep(1) all prep(2)]
  note storage = prepared_storage_effect[where buckets = buckets, OF st prep(1) all prep(2)]
  have cred: "r1 = Returned (fst (ProvisionCredentials (pl_host pl) (pv_opts p) (pv_cfg p) v))
      \<and> (r1 = Returned None \<longrightarrow> key_files_present resolve (entry (files v')) (pv_cfg p))"
    if "p_ProvisionCredentials (pl_host pl) p v = (r1, v')" for v r1 v'
    using that key_store.credentials_present[OF ks] prepared_config(3)[OF prep(1)] prep(2)
    by (auto simp: p_ProvisionCredentials_def key_files_present_def list_all_iff apfst_def map_prod_def split: prod.splits)
  from run show ?thesis
  proof (rule Run_sections, goal_cases)
    case (1 r1 w1)
    then show ?case using cred[OF 1(1)] by auto
  next
    case (2 w1 r2 w2)
    then show ?case using pubsub[OF _ 2(2)] p_sections_only(3)[OF 2(1)] oks by simp
  next
    case (3 w1 w2 r3 w3)
    have "ok (pubsub_state w1)" "ok' (storage_state w2)"
      using oks p_sections_only(3)[OF 3(1)] p_sections_only(1)[OF 3(2)] by simp_all
    then show ?case
      using 3 pubsub[OF _ 3(2)] storage[OF _ 3(3)] cred[OF 3(1)] p_sections_only(3)[OF 3(1)] p_sections_only(1)[OF 3(2)]
        p_sections_only(2)[OF 3(3)] by (simp add: pid_def)
  qed
qed

section \<open>Every invocation\<close>

text \<open>C8: no invocation ends in a panic, whatever the flags, the environment and the endpoints do:
  the exit code is 0 or 1. The sections that call an interface always have one.\<close>
theorem main_never_panics:
  assumes "main pl fl s = (code, s')"
  shows "code = 0 \<or> code = 1"
  using assms
proof (rule main_run)
  fix x :: run_result and dry s1 s2
  assume v: "main_section (pl_environ pl) fl \<in> validSections" and code: "code = exit_code x"
    and "run pl (main_section (pl_environ pl) fl) (DefaultOptions\<lparr>DryRun := dry\<rparr>) s1 = (x, s2)"
  then have "x \<noteq> Finished Panicked" by (intro run_no_panic) auto
  then show ?thesis using code by (auto simp: exit_code_def split: run_result.splits outcome.splits option.splits)
qed auto

theorem main_never_panics_witness:
  "\<exists>code s'. main easy_platform plain_flags easy_start = (code, s') \<and> (code = 0 \<or> code = 1)"
  using main_never_panics[of easy_platform plain_flags easy_start] by (metis surj_pair)

text \<open>C7: a dry run, by the flag or by \<open>DRY_RUN\<close>, makes no mutating call in any section.\<close>
theorem dry_run_changes_nothing:
  assumes "main pl fl s = (code, s')"
    and "resolveDryRun (pl_environ pl) (fl_dry_run fl) (fl_dry_run_set fl) = Inr True"
  shows "\<exists>es. trace (pr_world s') = trace (pr_world s) @ es \<and> list_all (\<lambda>e. \<not> mutating e) es"
proof -
  have dry: "emits (\<lambda>e. \<not> mutating e) (pr_world v) (pr_world v')"
    if "run pl (main_section (pl_environ pl) fl) (DefaultOptions\<lparr>DryRun := True\<rparr>) v = (x, v')" for v x v'
    using that by (rule run_dry_run) simp
  from assms(1) have "emits (\<lambda>e. \<not> mutating e) (pr_world s) (pr_world s')"
    by (rule main_run)
       (use assms(2) in \<open>auto simp: same_states_def dest!: dry intro: emits_trans emits_trans[OF emits_trans]\<close>)
  then show ?thesis by (simp add: emits_def)
qed

definition dry_flags :: flags where
  "dry_flags = plain_flags\<lparr>fl_dry_run := True, fl_dry_run_set := True\<rparr>"

theorem dry_run_changes_nothing_witness:
  "\<exists>code s' es. main easy_platform dry_flags easy_start = (code, s')
    \<and> trace (pr_world s') = trace (pr_world easy_start) @ es \<and> list_all (\<lambda>e. \<not> mutating e) es"
proof -
  obtain code s' where main: "main easy_platform dry_flags easy_start = (code, s')" by fastforce
  have "resolveDryRun (pl_environ easy_platform) (fl_dry_run dry_flags) (fl_dry_run_set dry_flags) = Inr True"
    by (simp add: resolveDryRun_def dry_flags_def)
  from dry_run_changes_nothing[OF main this] main show ?thesis by blast
qed

text \<open>C13: every connection an invocation opens is closed when it ends, on every path: the failed
  connection, the failed section and the success.\<close>
theorem main_closes_every_connection:
  assumes "main pl fl s = (code, s')"
  shows "mset (open_handles (pr_net s')) = mset (open_handles (pr_net s))"
  using assms by (rule main_run) (auto dest!: run_handles)

theorem main_closes_every_connection_witness:
  "\<exists>code s'. main easy_platform plain_flags easy_start = (code, s') \<and> open_handles (pr_net s') = []"
proof -
  obtain code s' where main: "main easy_platform plain_flags easy_start = (code, s')" by fastforce
  from main_closes_every_connection[OF main] main show ?thesis by (simp add: easy_start_def)
qed

text \<open>C12: an invocation for one section leaves the other sections' part of the world as it was, and
  one for the credentials does not touch the network at all.\<close>
theorem sections_are_isolated:
  assumes "main pl fl s = (code, s')" "main_section (pl_environ pl) fl = sect"
  shows "(sect \<noteq> ''all'' \<and> sect \<noteq> ''pubsub'' \<longrightarrow> pubsub_state (pr_world s') = pubsub_state (pr_world s))
    \<and> (sect \<noteq> ''all'' \<and> sect \<noteq> ''storage'' \<longrightarrow> storage_state (pr_world s') = storage_state (pr_world s))
    \<and> (sect \<noteq> ''all'' \<and> sect \<noteq> ''credentials'' \<longrightarrow> files (pr_world s') = files (pr_world s))
    \<and> (sect = ''credentials'' \<longrightarrow> pr_net s' = pr_net s)"
proof -
  have net: "pr_net s2 = pr_net s1" if "run pl sect opts s1 = (x, s2)" "sect = ''credentials''" for opts s1 x s2
    using run_credentials_net[of pl opts s1 x s2] that by (simp add: sectionCredentials_def)
  from assms(1) have "untouched sect (pr_world s) (pr_world s') \<and> (sect = ''credentials'' \<longrightarrow> pr_net s' = pr_net s)"
  proof (rule main_run, goal_cases)
    case 1
    then show ?case by (simp add: untouched_same_states)
  next
    case (2 dry s1 x s2)
    then have "untouched sect (pr_world s1) (pr_world s2)" using assms(2) by (intro run_untouched) auto
    from untouched_same_states(2)[OF untouched_same_states(1)[OF 2(3) this] 2(6)]
    have "untouched sect (pr_world s) (pr_world s')" .
    moreover have "pr_net s' = pr_net s" if "sect = ''credentials''"
      using net[OF 2(5)[unfolded assms(2)] that] 2(4,7) by simp
    ultimately show ?case by blast
  qed
  then show ?thesis by (simp add: untouched_def wants_def section_defs)
qed

theorem sections_are_isolated_witness:
  "\<exists>code s'. main easy_platform (plain_flags\<lparr>fl_section := ''credentials''\<rparr>) easy_start = (code, s')
    \<and> pubsub_state (pr_world s') = pubsub_state (pr_world easy_start)
    \<and> storage_state (pr_world s') = storage_state (pr_world easy_start) \<and> pr_net s' = pr_net easy_start"
proof -
  obtain code s' where main: "main easy_platform (plain_flags\<lparr>fl_section := ''credentials''\<rparr>) easy_start = (code, s')" by fastforce
  have "main_section (pl_environ easy_platform) (plain_flags\<lparr>fl_section := ''credentials''\<rparr>) = ''credentials''"
    by (simp add: main_section_def)
  from sections_are_isolated[OF main this] main show ?thesis by simp
qed

section \<open>What is reported\<close>

text \<open>C14: every invocation that exits with 1 ends its output with an error record, at every
  \<open>LOG_LEVEL\<close>; one that exits with 0, other than for its version, ends its trace with the record
  of success, which is in the output unless \<open>LOG_LEVEL\<close> is \<open>warn\<close> or \<open>error\<close>.\<close>
theorem every_failure_is_reported:
  assumes "main pl fl s = (code, s')"
  shows "(code = 1 \<longrightarrow> (\<exists>es m a. log_output (pl_environ pl) (trace (pr_world s')) = es @ [Log Error m a]))
    \<and> (code = 0 \<and> \<not> fl_version fl \<longrightarrow>
        (\<exists>es. trace (pr_world s') = es @ [Log Info ''gcp-emulator-provisioner finished successfully'' []])
        \<and> (Getenv (pl_environ pl) ''LOG_LEVEL'' \<notin> {''warn'', ''error''} \<longrightarrow>
            (\<exists>es. log_output (pl_environ pl) (trace (pr_world s')) =
               es @ [Log Info ''gcp-emulator-provisioner finished successfully'' []])))"
proof -
  have err: "\<exists>es m' a'. log_output env (trace (slog Error m a w)) = es @ [Log Error m' a']" for env m a w
    by (simp add: log_output_def)
  have "log_threshold env \<le> Info" if "Getenv env ''LOG_LEVEL'' \<notin> {''warn'', ''error''}" for env
    using that by (auto simp: log_threshold_def envOrDefault_def Let_def less_eq_log_level_def)
  then have ok: "\<exists>es. log_output env (trace (slog Info m a w)) = es @ [Log Info m a]"
    if "Getenv env ''LOG_LEVEL'' \<notin> {''warn'', ''error''}" for env m a w
    using that by (simp add: log_output_def)
  show ?thesis
  proof (cases "fl_version fl")
    case True
    then show ?thesis using assms by (simp add: main_def)
  next
    case False
    from main_ends[OF assms this] show ?thesis
    proof (elim disjE exE conjE)
      fix v m a
      assume "code = 1" "pr_world s' = slog Error m a v"
      then show ?thesis using err by simp
    next
      fix v
      assume "code = 0" "pr_world s' = slog Info ''gcp-emulator-provisioner finished successfully'' [] v"
      then show ?thesis using ok[of "pl_environ pl" "''gcp-emulator-provisioner finished successfully''" "[]" v] by simp
    qed simp
  qed
qed

theorem every_failure_is_reported_witness:
  "\<exists>code s' es m a. main easy_platform (plain_flags\<lparr>fl_section := ''topics''\<rparr>) easy_start = (code, s') \<and> code = 1
    \<and> log_output (pl_environ easy_platform) (trace (pr_world s')) = es @ [Log Error m a]"
proof -
  obtain code s' where main: "main easy_platform (plain_flags\<lparr>fl_section := ''topics''\<rparr>) easy_start = (code, s')" by fastforce
  then have "code = 1" by (auto simp: main_def plain_flags_def validSections_def section_defs Let_def)
  with every_failure_is_reported[OF main] main show ?thesis by blast
qed

section \<open>A full run\<close>

text \<open>C1: a full run against endpoints that keep their contracts. Exit code 0 means that every
  topic, subscription and bucket of the loaded configuration is settled in the resolved project
  and that every key file is there; and when the endpoints can be reached and the key files can
  be written, the exit code is 0.\<close>
theorem full_run_provisions_everything:
  assumes ps: "\<And>pid t u. pubsub_endpoint (pubsub_admin_of pl pid t u) ok supported (topics pid) (subs pid)"
    and st: "\<And>pid h. bucket_endpoint (storage_admin_of pl pid h) ok' buckets"
    and ks: "key_store (pl_host pl) resolve entry"
    and oks: "ok (pubsub_state (pr_world s))" "ok' (storage_state (pr_world s))"
    and load: "Load (pl_ReadFile pl) (pl_Unmarshal pl) (pl_environ pl) (pl_url_Parse pl)
      (envOrDefault (pl_environ pl) ''GCP_CONFIG_PATH'' ''./config.yaml'') = Inr cfg0"
    and pid: "resolveProjectID (pl_environ pl) cfg0 = Inr pid" and cfg: "cfg = cfg0\<lparr>cfg_ProjectID := pid\<rparr>"
    and flags: "\<not> fl_version fl" "main_section (pl_environ pl) fl = ''all''"
      "resolveDryRun (pl_environ pl) (fl_dry_run fl) (fl_dry_run_set fl) = Inr False"
    and main: "main pl fl s = (code, s')"
  shows "(code = 0 \<longrightarrow>
      pubsub_settled (supported (pubsub_state (pr_world s))) cfg
        (topics pid (pubsub_state (pr_world s'))) (subs pid (pubsub_state (pr_world s')))
      \<and> storage_settled cfg (buckets (storage_state (pr_world s')))
      \<and> key_files_present resolve (entry (files (pr_world s'))) cfg)
    \<and> (\<not> unreachable pl pid
        \<and> (\<forall>opts es. fst (ProvisionCredentials (pl_host pl) opts cfg ((pr_world s)\<lparr>trace := es\<rparr>)) = None)
        \<longrightarrow> code = 0)"
  using main
proof (rule main_run, goal_cases)
  case 1
  then show ?case using flags by (simp add: validSections_def section_defs)
next
  case (2 dry s1 x s2)
  have dry: "\<not> DryRun (DefaultOptions\<lparr>DryRun := dry\<rparr>)" using 2(2) flags(3) by simp
  have all: "main_section (pl_environ pl) fl = sectionAll" using flags(2) by (simp add: sectionAll_def)
  have starts: "cannot_start pl \<longleftrightarrow> unreachable pl pid" using load pid by (simp add: cannot_start_def)
  from run_dispatch[OF 2(5)[unfolded all]] show ?case
  proof (elim disjE conjE exE, goal_cases)
    case 1
    then show ?case using 2(8) starts by (auto simp: gave_up_def exit_code_def split: run_result.splits outcome.splits option.splits)
  next
    case (2 p s3 o1 s4)
    have p: "pv_cfg p = cfg" using 2(1) load pid cfg by (auto simp: prepared_def)
    have world: "pubsub_state (pr_world s3) = pubsub_state (pr_world s)" "storage_state (pr_world s3) = storage_state (pr_world s)"
        "files (pr_world s3) = files (pr_world s)" "pubsub_state (pr_world s') = pubsub_state (pr_world s4)"
        "storage_state (pr_world s') = storage_state (pr_world s4)" "files (pr_world s') = files (pr_world s4)"
      using 2(2,5) \<open>same_states (pr_world s) (pr_world s1)\<close> \<open>same_states (pr_world s2) (pr_world s')\<close>
      by (simp_all add: same_states_def)
    have "Run (pl_host pl) p (pr_world s3) = (o1, pr_world s4)"
      using 2(3) by (auto simp: dispatch_def on_world_def section_defs split: prod.splits)
    moreover have "fst (ProvisionCredentials (pl_host pl) (pv_opts p) cfg (slog Info ''Starting provisioning'' [] (pr_world s3))) = None"
      if "\<forall>opts es. fst (ProvisionCredentials (pl_host pl) opts cfg ((pr_world s)\<lparr>trace := es\<rparr>)) = None"
    proof -
      let ?v = "slog Info ''Starting provisioning'' [] (pr_world s3)"
      have "?v = (pr_world s)\<lparr>trace := trace ?v\<rparr>" using world(1-3) by (intro world.equality) simp_all
      then show ?thesis using that by metis
    qed
    ultimately show ?case
      using prepared_Run_effect[where topics = topics and subs = subs and buckets = buckets, OF ps st ks 2(1) dry, of "pr_world s3" o1 "pr_world s4"]
        oks \<open>code = exit_code x\<close> 2(4) world cfg
      by (simp add: p exit_code_def split: outcome.splits option.splits)
  qed
qed

definition kept_start :: "(pb_Duration fakePubSub, fakeGCS, mem_fs, nat, nat) prog" where
  "kept_start = easy_start\<lparr>pr_world := (pr_world easy_start)\<lparr>files :=
     \<lparr>mem_nodes = [''keys/sa.json'' \<mapsto> File ''mine'', ''keys'' \<mapsto> Dir], mem_seed = 0\<rparr>\<rparr>\<rparr>"

lemma easy_admins:
  "pubsub_admin_of easy_platform pid t u = client_admin (fake_client pid)"
  "storage_admin_of easy_platform pid h = storage_admin (gcs_client pid)"
  by (simp_all add: pubsub_admin_of_def storage_admin_of_def easy_platform_def fake_client_def gcs_client_def)

lemma easy_reachable: "\<not> unreachable easy_platform pid"
proof -
  have "\<exists>c. fst (connectPubSub easy_platform pid v) = Inr c" "\<exists>h. fst (connectStorage easy_platform pid v) = Inr h" for v
    by (simp_all add: connectPubSub_def connectStorage_def easy_platform_def easy_sdk_def on_net_def ConnectPubSub_def
        ConnectStorage_def dial_def retryUntilReady_def list_probe_def next_error_def Let_def upt_conv_Cons del: upt_Suc)
  then show ?thesis unfolding unreachable_def by (metis Inl_Inr_False)
qed

lemma easy_load: "Load (pl_ReadFile easy_platform) (pl_Unmarshal easy_platform) (pl_environ easy_platform) (pl_url_Parse easy_platform)
    (envOrDefault (pl_environ easy_platform) ''GCP_CONFIG_PATH'' ''./config.yaml'') = Inr sample_config"
proof -
  have "expandConfig (pl_environ easy_platform) (sample_config\<lparr>cfg_ProjectID := ''${PROJECT}''\<rparr>) = sample_config" by code_simp
  then show ?thesis
    using sample_config_valid
    by (simp add: Load_def sample_read_def sample_unmarshal_def validate_ok[symmetric] envOrDefault_def Getenv_def easy_platform_def)
qed

lemma kept_credentials: "fst (ProvisionCredentials mem_host opts sample_config ((pr_world kept_start)\<lparr>trace := es\<rparr>)) = None"
proof -
  obtain r w' where run: "ProvisionCredentials mem_host opts sample_config ((pr_world kept_start)\<lparr>trace := es\<rparr>) = (r, w')" by fastforce
  have p: "filepath_Clean (cr_Path sample_credential) = ''keys/sa.json''"
    "EffectiveCredentialStrategy (cr_Strategy sample_credential) \<noteq> ''update''" by code_simp+
  have "r = None" using mem.credentials_idle[OF _ run] p
    by (simp add: sample_config_def kept_start_def)
  then show ?thesis using run by simp
qed

theorem full_run_provisions_everything_witness:
  "\<exists>s'. main easy_platform plain_flags kept_start = (0, s')
    \<and> pubsub_settled (fake_supported startFakePubSub) sample_config
        (fake_topics ''local-dev'' (pubsub_state (pr_world s'))) (fake_subs ''local-dev'' (pubsub_state (pr_world s')))
    \<and> storage_settled sample_config (gcs_buckets (storage_state (pr_world s')))
    \<and> key_files_present filepath_Clean (mem_nodes (files (pr_world s'))) sample_config"
proof -
  obtain code s' where main: "main easy_platform plain_flags kept_start = (code, s')" by fastforce
  have ps: "pubsub_endpoint (pubsub_admin_of easy_platform pid t u) fake_ok fake_supported (fake_topics pid) (fake_subs pid)" for pid t u
    unfolding easy_admins by (rule fake.pubsub_endpoint_axioms)
  have st: "bucket_endpoint (storage_admin_of easy_platform pid h) (\<lambda>f. True) gcs_buckets" for pid h
    unfolding easy_admins by (rule gcs.bucket_endpoint_axioms)
  have host: "pl_host easy_platform = mem_host" by (simp add: easy_platform_def)
  have ks: "key_store (pl_host easy_platform) filepath_Clean mem_nodes" unfolding host by (rule mem_key_store)
  have ok: "fake_ok (pubsub_state (pr_world kept_start))"
    using sample_world_ok by (simp add: kept_start_def easy_start_def sample_world_def)
  have pid: "resolveProjectID (pl_environ easy_platform) sample_config = Inr ''local-dev''"
    "sample_config = sample_config\<lparr>cfg_ProjectID := ''local-dev''\<rparr>" by code_simp+
  have fl: "\<not> fl_version plain_flags" "main_section (pl_environ easy_platform) plain_flags = ''all''"
    "resolveDryRun (pl_environ easy_platform) (fl_dry_run plain_flags) (fl_dry_run_set plain_flags) = Inr False"
    by code_simp+
  have world: "pubsub_state (pr_world kept_start) = startFakePubSub" by (simp add: kept_start_def easy_start_def)
  from full_run_provisions_everything[OF ps st ks ok TrueI easy_load pid fl main] easy_reachable kept_credentials
  show ?thesis unfolding host world using main by auto
qed

end
