(* ===== verification/Resource_Properties.thy ===== *)
theory Resource_Properties
  imports PubSub_Properties
begin

text \<open>
  What the Pub/Sub section does to one resource: what it keeps of a live one, what goes over
  the wire, and which errors end it. The last part states where the comparison of a live
  resource with the configuration departs from what its comments say.
\<close>

section \<open>A live subscription\<close>


lemma sample_pair: "(sample_topics ! 0, sample_pull) \<in> set (subscription_pairs (ps_Topics (cfg_PubSub sample_config)))"
  by (simp add: subscription_pairs_def sample_config_def sample_topics_def)


section \<open>The wire\<close>

text \<open>C19: a subscription of a valid configuration is built without an error, and what it reads back
  as after the conversion to a Pub/Sub message and from it has no drift against the
  configuration: the conversion loses no configured setting.\<close>
theorem valid_subscription_survives_the_wire:
  assumes pb: "duration_message pb" and cfg: "valid_config u cfg" "list_all wf_map (config_maps cfg)"
    and mem: "(t, s) \<in> set (subscription_pairs (ps_Topics (cfg_PubSub cfg)))"
  shows "\<exists>d. buildSubscription (tc_Name t) s = Inr d
    \<and> fromProtoSubscription pb (toProtoSubscription pb pid d) = echo_subscription d
    \<and> diffSubscription (fromProtoSubscription pb (toProtoSubscription pb pid d)) d = []
    \<and> immutableDrift (fromProtoSubscription pb (toProtoSubscription pb pid d)) d = []"
proof -
  obtain d where d: "buildSubscription (tc_Name t) s = Inr d" "sendable d" "wf_subscription d"
    using pubsub_config_subscription[OF valid_pubsub_config[OF cfg] mem] by metis
  have "immutableDrift (echo_subscription d) d = []"
    by (auto simp: immutableDrift_def echo_subscription_def DerefBool_def split: option.splits)
  then show ?thesis
    using d(1) duration_message.subscription_roundtrip[OF pb d(2)] diffSubscription_echo[OF d(3)] by simp
qed

theorem valid_subscription_survives_the_wire_witness:
  "\<exists>d. buildSubscription (tc_Name (sample_topics ! 0)) sample_pull = Inr d
    \<and> fromProtoSubscription seconds_pb (toProtoSubscription seconds_pb ''local-dev'' d) = echo_subscription d"
  using valid_subscription_survives_the_wire[OF seconds.duration_message_axioms sample_config_valid sample_config_maps sample_pair]
  by blast

text \<open>C28: a topic that appears between the check and the creation, because another run created it, is
  no error; any other refusal of the creation ends in an error with the gRPC code of the
  server's, through all the wrapping.\<close>
theorem concurrent_creation_is_not_an_error:
  assumes "\<not> DryRun opts" "buildTopic t = Inr d"
    and "api_GetTopic (c_api c) (TopicPath (c_projectID c) (tc_Name t)) (pubsub_state w) = (Inl e1, st1)"
      "status_Code e1 = CodeNotFound"
    and "api_CreateTopic (c_api c) (toProtoTopic (c_pb c) (c_projectID c) d) st1 = (Some e2, st2)"
    and "provisionTopic (client_admin c) opts g t w = (r, w')"
  shows "pubsub_state w' = st2
    \<and> (if status_Code e2 = CodeAlreadyExists then r = None else \<exists>e. r = Some e \<and> status_Code e = status_Code e2)"
  using assms
  by (auto simp: provisionTopic_def ensureTopic_def Let_def on_pubsub_eq client_GetTopic_def client_CreateTopic_def wrap_result_def)

definition racing_api :: "(unit, pb_Duration) pubsub_api" where
  "racing_api =
     \<lparr>api_GetTopic = (\<lambda>n st. (Inl (StatusError CodeNotFound ''not found''), st)),
      api_CreateTopic = (\<lambda>t st. (Some (StatusError CodeAlreadyExists ''already exists''), st)),
      api_UpdateTopic = (\<lambda>t m st. (None, st)),
      api_GetSubscription = (\<lambda>n st. (Inl (StatusError CodeNotFound ''not found''), st)),
      api_CreateSubscription = (\<lambda>s st. (None, st)), api_UpdateSubscription = (\<lambda>s m st. (None, st))\<rparr>"

theorem concurrent_creation_is_not_an_error_witness:
  "\<exists>r w'. provisionTopic (client_admin \<lparr>c_projectID = ''local-dev'', c_api = racing_api, c_pb = seconds_pb\<rparr>) DefaultOptions []
      (sample_topics ! 1) \<lparr>pubsub_state = (), storage_state = (), files = (), trace = []\<rparr> = (r, w') \<and> r = None"
proof -
  let ?c = "\<lparr>c_projectID = ''local-dev'', c_api = racing_api, c_pb = seconds_pb\<rparr>"
  let ?w = "\<lparr>pubsub_state = (), storage_state = (), files = (), trace = []\<rparr>"
  obtain r w' where run: "provisionTopic (client_admin ?c) DefaultOptions [] (sample_topics ! 1) ?w = (r, w')" by fastforce
  have d: "\<not> DryRun DefaultOptions" by (simp add: DefaultOptions_def)
  have b: "buildTopic (sample_topics ! 1) = Inr \<lparr>t_Name = ''orders-dead'', t_Labels = [], t_MessageRetention = 0\<rparr>" by code_simp
  have g: "api_GetTopic (c_api ?c) (TopicPath (c_projectID ?c) (tc_Name (sample_topics ! 1))) (pubsub_state ?w)
      = (Inl (StatusError CodeNotFound ''not found''), ())"
    "status_Code (StatusError CodeNotFound ''not found'') = CodeNotFound" by (simp_all add: racing_api_def)
  have c: "api_CreateTopic (c_api ?c) (toProtoTopic (c_pb ?c) (c_projectID ?c)
      \<lparr>t_Name = ''orders-dead'', t_Labels = [], t_MessageRetention = 0\<rparr>) ()
      = (Some (StatusError CodeAlreadyExists ''already exists''), ())" by (simp add: racing_api_def)
  from concurrent_creation_is_not_an_error[OF d b g c run] run show ?thesis by simp
qed

section \<open>Where the comparison departs from its comments\<close>

text \<open>C39: a configured label with an empty value counts as present on an existing topic that has no
  such label, although the comment asks for the key to be there. As long as every other label
  is live with its value and the retention agrees, reconciling the topic, under any strategy,
  reads it and changes nothing: the missing labels stay missing.\<close>
theorem missing_empty_labels_are_no_drift:
  assumes "buildTopic t = Inr d" and get: "GetTopic ps (tc_Name t) (pubsub_state w) = (Inr cur, st)"
    and "t_MessageRetention d = 0 \<or> t_MessageRetention cur = t_MessageRetention d"
    and labels: "\<forall>(k, v) \<in> set (tc_Labels t). map_of (t_Labels cur) k = Some v \<or> (v = [] \<and> map_of (t_Labels cur) k = None)"
    and run: "ensureTopic ps opts t strategy w = (r, w')"
  shows "r = None \<and> pubsub_state w' = st \<and> (\<exists>es. trace w' = trace w @ es \<and> list_all (\<lambda>e. \<not> mutating e) es)"
proof -
  have "labelsSubset (t_Labels d) (t_Labels cur)"
    using labels buildTopic_Name[OF assms(1)] by (auto simp: labelsSubset_def list_all_iff map_get_def)
  then have diff: "diffTopic cur d = []" using assms(3) by (auto simp: diffTopic_empty_iff)
  have "on_pubsub (CallGetTopic (tc_Name t)) (GetTopic ps (tc_Name t)) w
      = (Inr cur, (emit (CallGetTopic (tc_Name t)) w)\<lparr>pubsub_state := st\<rparr>)"
    using get by (simp add: on_pubsub_eq)
  then show ?thesis using run assms(1) diff by (auto simp: ensureTopic_def Let_def split: if_splits)
qed

definition canary_topic :: TopicCfg where
  "canary_topic = \<lparr>tc_Name = ''orders'', tc_Strategy = [], tc_Labels = [(''canary'', []), (''env'', ''dev'')],
     tc_MessageRetention = ''1h'', tc_Subscriptions = []\<rparr>"

definition canary_api :: "(unit, pb_Duration) pubsub_api" where
  "canary_api = racing_api\<lparr>api_GetTopic := (\<lambda>n st. (Inr (toProtoTopic seconds_pb ''local-dev''
     \<lparr>t_Name = ''orders'', t_Labels = [(''env'', ''dev'')], t_MessageRetention = Hour\<rparr>), st))\<rparr>"

theorem missing_empty_labels_are_no_drift_witness:
  "\<exists>r w'. ensureTopic (client_admin \<lparr>c_projectID = ''local-dev'', c_api = canary_api, c_pb = seconds_pb\<rparr>) DefaultOptions
      canary_topic ''update'' \<lparr>pubsub_state = (), storage_state = (), files = (), trace = []\<rparr> = (r, w')
    \<and> r = None \<and> list_all (\<lambda>e. \<not> mutating e) (trace w')"
proof -
  let ?ps = "client_admin \<lparr>c_projectID = ''local-dev'', c_api = canary_api, c_pb = seconds_pb\<rparr>"
  let ?w = "\<lparr>pubsub_state = (), storage_state = (), files = (), trace = []\<rparr>"
  let ?cur = "\<lparr>t_Name = ''orders'', t_Labels = [(''env'', ''dev'')], t_MessageRetention = Hour\<rparr>"
  obtain r w' where run: "ensureTopic ?ps DefaultOptions canary_topic ''update'' ?w = (r, w')" by fastforce
  have b: "buildTopic canary_topic = Inr \<lparr>t_Name = ''orders'', t_Labels = [(''canary'', []), (''env'', ''dev'')], t_MessageRetention = Hour\<rparr>"
    by code_simp
  have "fromProtoTopic seconds_pb (toProtoTopic seconds_pb ''local-dev'' ?cur) = ?cur"
    by (intro seconds.topic_roundtrip) (simp_all add: duration_fits_def)
  then have g: "GetTopic ?ps (tc_Name canary_topic) (pubsub_state ?w) = (Inr ?cur, ())"
    by (simp add: client_GetTopic_def canary_api_def)
  have l: "\<forall>(k, v) \<in> set (tc_Labels canary_topic). map_of (t_Labels ?cur) k = Some v \<or> (v = [] \<and> map_of (t_Labels ?cur) k = None)"
    by (simp add: canary_topic_def)
  from missing_empty_labels_are_no_drift[OF b g _ l run] run show ?thesis by auto
qed

text \<open>C38: a dead letter policy whose attempts the configuration omits differs from every live policy
  with attempts, although omitted values are said not to be compared: an endpoint that fills in
  its default is sent the same update on every run.\<close>
theorem omitted_attempts_always_differ:
  assumes "s_DeadLetter d = Some \<lparr>d_Topic = x, d_MaxDeliveryAttempts = 0\<rparr>"
    and "s_DeadLetter cur = Some \<lparr>d_Topic = x, d_MaxDeliveryAttempts = n\<rparr>" "n \<noteq> 0"
  shows "pathSubDeadLetter \<in> set (diffSubscription cur d)"
  using assms by (simp add: diffSubscription_def)

theorem omitted_attempts_always_differ_witness:
  "pathSubDeadLetter \<in> set (diffSubscription (sample_sub\<lparr>s_DeadLetter := Some \<lparr>d_Topic = ''dead'', d_MaxDeliveryAttempts = 5\<rparr>\<rparr>)
     (sample_sub\<lparr>s_DeadLetter := Some \<lparr>d_Topic = ''dead'', d_MaxDeliveryAttempts = 0\<rparr>\<rparr>))"
  by (rule omitted_attempts_always_differ[where n = 5]) simp_all

text \<open>C37: when the push endpoint changes, the push settings sent in the update carry no OIDC token if
  the configuration declares none, although a declared-nothing token is said to leave the live
  one alone: the update, which replaces the whole push configuration, removes it.\<close>
theorem push_update_drops_the_live_token:
  assumes "s_Push d = Some dp" "s_Push cur = Some cp" "p_OIDCToken cp = Some tok" "p_OIDCToken dp = None"
    and "p_Endpoint dp \<noteq> []" "p_Endpoint cp \<noteq> p_Endpoint dp"
  shows "oidcEqual (p_OIDCToken cp) (p_OIDCToken dp) \<and> pathSubPushConfig \<in> set (diffSubscription cur d)
    \<and> (\<exists>sent. s_Push (put_subscription (echo_subscription (mergeSubscription cur d)) pathSubPushConfig cur) = Some sent
         \<and> p_OIDCToken sent = None)"
  using assms
  by (auto simp: oidcEqual_def diffSubscription_def pushConfigEqual_def put_subscription_def echo_subscription_def
      mergeSubscription_def echo_push_def sub_path_defs)

definition token_push :: PushConfig where
  "token_push = \<lparr>p_Endpoint = ''http://old/push'', p_Attributes = [],
     p_OIDCToken = Some \<lparr>o_ServiceAccountEmail = ''push@local-dev.iam.gserviceaccount.com'', o_Audience = []\<rparr>,
     p_Wrapper = WrapperUnset, p_WriteMetadata = False\<rparr>"

theorem push_update_drops_the_live_token_witness:
  "\<exists>sent. s_Push (put_subscription (echo_subscription (mergeSubscription (sample_sub\<lparr>s_Push := Some token_push\<rparr>)
       (sample_sub\<lparr>s_Push := Some (token_push\<lparr>p_Endpoint := ''http://new/push'', p_OIDCToken := None\<rparr>)\<rparr>)))
       pathSubPushConfig (sample_sub\<lparr>s_Push := Some token_push\<rparr>)) = Some sent \<and> p_OIDCToken sent = None"
proof -
  let ?dp = "token_push\<lparr>p_Endpoint := ''http://new/push'', p_OIDCToken := None\<rparr>"
  have s: "s_Push (sample_sub\<lparr>s_Push := Some ?dp\<rparr>) = Some ?dp" "s_Push (sample_sub\<lparr>s_Push := Some token_push\<rparr>) = Some token_push"
    by simp_all
  have t: "p_OIDCToken token_push = Some \<lparr>o_ServiceAccountEmail = ''push@local-dev.iam.gserviceaccount.com'', o_Audience = []\<rparr>"
    "p_OIDCToken ?dp = None" "p_Endpoint ?dp \<noteq> []" "p_Endpoint token_push \<noteq> p_Endpoint ?dp"
    by (simp_all add: token_push_def)
  from push_update_drops_the_live_token[OF s t] show ?thesis by blast
qed

end
