(* ===== verification/Connect_Properties.thy ===== *)
theory Connect_Properties
  imports Connect
begin

text \<open>What connecting guarantees: the backoff, the end of the retries and what a success means.\<close>

text \<open>A probe that never turns the clock back and logs nothing, as the list calls are; the refusing
  one takes no time.\<close>

definition steady :: "(Context \<Rightarrow> ('h, 'e) net \<Rightarrow> go_error option \<times> ('h, 'e) net) \<Rightarrow> bool" where
  "steady probe \<longleftrightarrow> (\<forall>c v. clock v \<le> clock (snd (probe c v)) \<and> net_trace (snd (probe c v)) = net_trace v)"

definition refusing :: "Context \<Rightarrow> ('h, 'e) net \<Rightarrow> go_error option \<times> ('h, 'e) net" where
  "refusing c v = (Some (ErrorText ''connection refused''), v)"

lemma refusing_steady: "steady refusing"
  by (simp add: steady_def refusing_def)

definition quiet_net :: "(nat, unit) net" where
  "quiet_net = \<lparr>clock = 0, open_handles = [], net_trace = [], net_env = ()\<rparr>"

definition background :: Context where
  "background = \<lparr>ctx_Done = None, ctx_Cause = ErrorText ''context canceled''\<rparr>"

text \<open>C21: retrying always ends, by a probe that succeeds or by the context, whose cause the error
  carries, after at most fourteen warnings: the five minutes are over before the sixteen
  attempts are, so the error about running out of attempts is never returned.\<close>
theorem retrying_ends_within_the_deadline:
  assumes "steady probe" "retryUntilReady tie ctx service probe s = (r, s')"
  shows "(r = None \<or> (\<exists>pre. r = Some (Wrapped pre (ctx_Cause (WithTimeout ctx (clock s) totalTimeout)) [])))
    \<and> length (net_trace s') \<le> length (net_trace s) + 14
    \<and> r \<noteq> Some (ErrorText (''failed to connect to '' @ service @ '' after '' @ Itoa (maxRetries + 1) @ '' attempts''))"
  using retryUntilReady_outcome[OF _ assms(2)] assms(1) by (auto simp: steady_def)

theorem retrying_ends_within_the_deadline_witness:
  "\<exists>r s'. retryUntilReady True background ''Pub/Sub'' refusing quiet_net = (r, s')
    \<and> (\<exists>pre. r = Some (Wrapped pre DeadlineExceeded [])) \<and> length (net_trace s') \<le> 14"
proof -
  obtain r s' where run: "retryUntilReady True background ''Pub/Sub'' refusing quiet_net = (r, s')" by fastforce
  have "r \<noteq> None"
  proof
    assume "r = None"
    then obtain v where "refusing (WithTimeout background (clock quiet_net) totalTimeout) v = (None, s')"
      using run retry_loop_ready[of True "WithTimeout background (clock quiet_net) totalTimeout" _ refusing]
      unfolding retryUntilReady_def by blast
    then show False by (simp add: refusing_def)
  qed
  moreover have "ctx_Cause (WithTimeout background (clock quiet_net) totalTimeout) = DeadlineExceeded"
    "net_trace quiet_net = []" by (simp_all add: background_def WithTimeout_def quiet_net_def)
  ultimately show ?thesis using retrying_ends_within_the_deadline[OF refusing_steady run] run by auto
qed

text \<open>C31: the delay computed in floating point is exactly one second doubled per attempt, capped at
  thirty, for every attempt the loop makes.\<close>
theorem backoff_is_capped_doubling:
  assumes "attempt \<le> maxRetries"
  shows "retryDelay attempt = min (30 * Second) (2 ^ attempt * Second)"
  using retryDelay_eq[OF assms] by (simp add: maxDelay_def mult.commute)

theorem backoff_is_capped_doubling_witness: "retryDelay 4 = 16 * Second"
  using backoff_is_capped_doubling[of 4] by (simp add: maxRetries_def)

text \<open>C32: a service is reported as ready only in the state a successful probe has just left.\<close>
theorem ready_means_a_probe_succeeded:
  assumes "retryUntilReady tie ctx service probe s = (None, s')"
  shows "\<exists>v. probe (WithTimeout ctx (clock s) totalTimeout) v = (None, s')"
  using assms retry_loop_ready unfolding retryUntilReady_def by blast

theorem ready_means_a_probe_succeeded_witness:
  "\<exists>s' v. retryUntilReady True background ''Pub/Sub'' (\<lambda>c v. (if clock v < Second then Some (ErrorText ''refused'') else None, v)) quiet_net
      = (None, s') \<and> (if clock v < Second then Some (ErrorText ''refused'') else None, v) = (None, s')"
proof -
  let ?p = "\<lambda>c v. (if clock v < Second then Some (ErrorText ''refused'') else None, v)"
  obtain r s' where run0: "retryUntilReady True background ''Pub/Sub'' ?p quiet_net = (r, s')" by (cases "retryUntilReady True background ''Pub/Sub'' ?p quiet_net")
  have "fst (retryUntilReady True background ''Pub/Sub'' ?p quiet_net) = None"
  proof -
    have "[0..<maxRetries + 1] = 0 # 1 # [2..<16]" by (simp add: maxRetries_def upt_rec)
    moreover have "retryDelay 0 = Second" using retryDelay_eq[of 0] by (simp add: maxDelay_def)
    ultimately show ?thesis
      by (simp add: retryUntilReady_def quiet_net_def background_def WithTimeout_def ctx_Err_def sleep_def Let_def totalTimeout_def
          del: upt_Suc)
  qed
  then have "r = None" unfolding run0 by simp
  note run = run0[unfolded this]
  obtain v where v: "(if clock v < Second then Some (ErrorText ''refused'') else None, v) = (None, s')"
    using ready_means_a_probe_succeeded[OF run] by (elim exE)
  show ?thesis by (rule exI[of _ s'], rule exI[of _ v], rule conjI, fact run, fact v)
qed

end
