(* ===== verification/Token_Stub.thy ===== *)
theory Token_Stub
  imports Program Json_Reader
begin

text \<open>
  \<open>cmd/gcp-token-stub/main.go\<close>: the static OAuth2 token endpoint. The handler is a function from
  a request to a response and the log records it leaves; \<open>run\<close>, whose serving goroutine, signal
  handler and \<open>select\<close> interleave, is a step relation. The HTTP client of the probe and what the
  listener and \<open>Shutdown\<close> return are parameters.
\<close>

section \<open>Constants and helpers\<close>

definition defaultAddr :: string where "defaultAddr = '':8099''"
definition defaultAccessToken :: string where "defaultAccessToken = ''local-emulator-token''"
definition defaultExpiresIn :: int where "defaultExpiresIn = 3600"

record tokenResponse =
  AccessToken :: string
  TokenType :: string
  ExpiresIn :: int

fun firstNonEmpty :: "string list \<Rightarrow> string" where
  "firstNonEmpty [] = []"
| "firstNonEmpty (v # values) = (if v \<noteq> [] then v else firstNonEmpty values)"

definition stub_log_threshold :: "environ \<Rightarrow> log_level" where
  "stub_log_threshold env =
     (let l = Getenv env ''LOG_LEVEL'' in
      if l = ''debug'' then Debug else if l = ''warn'' then Warn else if l = ''error'' then Error else Info)"

section \<open>The handler\<close>

record http_request =
  r_Method :: string
  r_RequestURI :: string
  r_Path :: string
  r_grant_type :: string

record http_response =
  rsp_Status :: nat
  rsp_ContentType :: string
  rsp_Body :: string

text \<open>\<open>json.Encoder.Encode\<close> of a flat object: no blanks, a newline at the end.\<close>

definition json_Encode :: "(string \<times> json_scalar) list \<Rightarrow> string" where
  "json_Encode fs =
     [CHR ''{''] @ join [CHR '',''] (map (\<lambda>(k, v). json_string k @ [CHR '':''] @ json_scalar_text v) fs)
     @ [CHR ''}'', CHR 0x0A]"

definition token_fields :: "tokenResponse \<Rightarrow> (string \<times> json_scalar) list" where
  "token_fields t =
     [(''access_token'', JString (AccessToken t)), (''token_type'', JString (TokenType t)),
      (''expires_in'', JNumber (ExpiresIn t))]"

text \<open>\<open>writeErr\<close> is what writing the body to the connection reports.\<close>

definition writeJSON :: "go_error option \<Rightarrow> nat \<Rightarrow> (string \<times> json_scalar) list \<Rightarrow> http_response \<times> event list" where
  "writeJSON writeErr status body =
     (\<lparr>rsp_Status = status, rsp_ContentType = ''application/json'', rsp_Body = json_Encode body\<rparr>,
      case writeErr of None \<Rightarrow> [] | Some e \<Rightarrow> [Log Warn ''Failed to write response'' [(''error'', AErr e)]])"

definition handleToken :: "string \<Rightarrow> int \<Rightarrow> go_error option \<Rightarrow> http_request \<Rightarrow> http_response \<times> event list" where
  "handleToken token expiresIn writeErr r =
     (if r_Method r \<noteq> ''POST'' \<and> r_Method r \<noteq> ''GET'' then
        writeJSON writeErr 405 [(''error'', JString ''invalid_request'')]
      else
        apsnd ((#) (Log Debug ''Issuing token'' [(''method'', AStr (r_Method r)), (''grant_type'', AStr (r_grant_type r))]))
          (writeJSON writeErr 200
             (token_fields \<lparr>AccessToken = token, TokenType = ''Bearer'', ExpiresIn = expiresIn\<rparr>)))"

definition handleRoot :: "go_error option \<Rightarrow> http_request \<Rightarrow> http_response \<times> event list" where
  "handleRoot writeErr r =
     apsnd ((#) (Log Debug ''Unhandled request'' [(''method'', AStr (r_Method r)), (''path'', AStr (r_Path r))]))
       (writeJSON writeErr 404 [(''error'', JString ''not_found'')])"

text \<open>
  \<open>http.ServeMux\<close>: the request for \<open>*\<close> is refused, a path that is not clean is redirected to its
  clean form unless the method is \<open>CONNECT\<close>, an exact pattern comes before the catch-all.
\<close>

definition mux_cleanPath :: "string \<Rightarrow> string" where
  "mux_cleanPath p =
     (if p = [] then ''/''
      else
        let p1 = (if HasPrefix p ''/'' then p else ''/'' @ p);
            np = filepath_Clean p1 in
        if HasSuffix p1 ''/'' \<and> np \<noteq> ''/'' then np @ ''/'' else np)"

datatype mux_answer = MuxBadRequest | MuxRedirect string | MuxServed http_response "event list"

definition newHandler :: "string \<Rightarrow> int \<Rightarrow> go_error option \<Rightarrow> http_request \<Rightarrow> mux_answer" where
  "newHandler token expiresIn writeErr r =
     (if r_RequestURI r = ''*'' then MuxBadRequest
      else if r_Method r \<noteq> ''CONNECT'' \<and> mux_cleanPath (r_Path r) \<noteq> r_Path r then MuxRedirect (mux_cleanPath (r_Path r))
      else case_prod MuxServed
             (if r_Path r = ''/token'' then handleToken token expiresIn writeErr r else handleRoot writeErr r))"

section \<open>The probe\<close>

definition probe_URL :: "string \<Rightarrow> string" where
  "probe_URL addr =
     (let host = (if HasPrefix addr '':'' then ''127.0.0.1'' @ addr else addr) in
      ''http://'' @ host @ ''/token'')"

text \<open>\<open>http_Get url\<close> is the status the client gets, or its error.\<close>

definition probe :: "(string \<Rightarrow> go_error + nat) \<Rightarrow> string \<Rightarrow> go_error option" where
  "probe http_Get addr =
     (case http_Get (probe_URL addr) of
        Inl err \<Rightarrow> Some err
      | Inr status \<Rightarrow>
          if status \<noteq> 200 then Some (ErrorText (''token endpoint returned '' @ Itoa status)) else None)"

section \<open>\<open>main\<close>\<close>

record stub_flags =
  sf_addr :: string
  sf_token :: string
  sf_ping :: bool
  sf_version :: bool

definition resolveExpiresIn :: "environ \<Rightarrow> int option" where
  "resolveExpiresIn env =
     (let raw = Getenv env ''TOKEN_STUB_EXPIRES_IN'' in
      if raw \<noteq> [] then
        (case Atoi raw of None \<Rightarrow> None | Some parsed \<Rightarrow> if parsed \<le> 0 then None else Some parsed)
      else Some defaultExpiresIn)"

text \<open>\<open>serve addr token expiresIn\<close> is what \<open>run\<close> returns; the exit code and the log.\<close>

definition stub_main ::
    "environ \<Rightarrow> (string \<Rightarrow> go_error + nat) \<Rightarrow> (string \<Rightarrow> string \<Rightarrow> int \<Rightarrow> go_error option) \<Rightarrow> stub_flags \<Rightarrow> nat \<times> event list" where
  "stub_main env http_Get serve fl =
     (if sf_version fl then (0, [])
      else
        let addr = firstNonEmpty [sf_addr fl, Getenv env ''TOKEN_STUB_ADDR'', defaultAddr];
            token = firstNonEmpty [sf_token fl, Getenv env ''TOKEN_STUB_ACCESS_TOKEN'', defaultAccessToken] in
        case resolveExpiresIn env of
          None \<Rightarrow>
            (1, [Log Error ''Invalid TOKEN_STUB_EXPIRES_IN, want a positive number of seconds''
                   [(''value'', AStr (Getenv env ''TOKEN_STUB_EXPIRES_IN''))]])
        | Some expiresIn \<Rightarrow>
            if sf_ping fl then
              (case probe http_Get addr of
                 Some err \<Rightarrow> (1, [Log Error ''Token stub is not answering'' [(''addr'', AStr addr), (''error'', AErr err)]])
               | None \<Rightarrow> (0, []))
            else
              (case serve addr token expiresIn of
                 Some err \<Rightarrow> (1, [Log Error ''Token stub failed'' [(''error'', AErr err)]])
               | None \<Rightarrow> (0, [])))"

section \<open>\<open>run\<close>: the server, the signal and the select\<close>

text \<open>
  The goroutine announces itself, serves until \<open>ListenAndServe\<close> returns and sends its result on a
  channel of capacity one; the main flow selects between that channel and the context, and on
  the context shuts the server down. \<open>ListenAndServe\<close> reports \<open>ErrServerClosed\<close> only once
  \<open>Shutdown\<close> was called, and \<open>Shutdown\<close> may run into its deadline.
\<close>

datatype serve_result = ErrServerClosed | ServeFailed go_error

datatype server_flow = Announcing | Serving | Sending "go_error option" | ServerExited

datatype main_flow = Selecting | ShuttingDown | RunReturned "go_error option"

record stub_state =
  ss_server :: server_flow
  ss_errs :: "go_error option list"
  ss_signalled :: bool
  ss_closing :: bool
  ss_main :: main_flow
  ss_log :: "event list"

definition errs_capacity :: nat where "errs_capacity = 1"

definition serve_outcome :: "serve_result \<Rightarrow> go_error option" where
  "serve_outcome x = (case x of ErrServerClosed \<Rightarrow> None | ServeFailed e \<Rightarrow> Some e)"

definition shutdown_outcome :: "go_error option \<Rightarrow> go_error option" where
  "shutdown_outcome x = map_option (\<lambda>e. Wrapped ''shutting down: '' e []) x"

definition stub_start :: stub_state where
  "stub_start =
     \<lparr>ss_server = Announcing, ss_errs = [], ss_signalled = False, ss_closing = False, ss_main = Selecting, ss_log = []\<rparr>"

definition serving_record :: "string \<Rightarrow> event" where
  "serving_record addr =
     Log Info ''Serving local OAuth2 token endpoint''
       [(''version'', AStr ''dev''), (''addr'', AStr addr), (''path'', AStr ''/token''),
        (''note'', AStr (''static token, assertions are not verified '' @ [CHR 0xE2, CHR 0x80, CHR 0x94]
           @ '' local development only''))]"

inductive stub_step :: "string \<Rightarrow> stub_state \<Rightarrow> stub_state \<Rightarrow> bool" for addr where
  announce: "ss_server s = Announcing
    \<Longrightarrow> stub_step addr s (s\<lparr>ss_server := Serving, ss_log := ss_log s @ [serving_record addr]\<rparr>)"
| listen_fails: "ss_server s = Serving
    \<Longrightarrow> stub_step addr s (s\<lparr>ss_server := Sending (serve_outcome (ServeFailed e))\<rparr>)"
| listen_closed: "\<lbrakk>ss_server s = Serving; ss_closing s\<rbrakk>
    \<Longrightarrow> stub_step addr s (s\<lparr>ss_server := Sending (serve_outcome ErrServerClosed)\<rparr>)"
| send: "\<lbrakk>ss_server s = Sending r; length (ss_errs s) < errs_capacity\<rbrakk>
    \<Longrightarrow> stub_step addr s (s\<lparr>ss_server := ServerExited, ss_errs := ss_errs s @ [r]\<rparr>)"
| signal: "stub_step addr s (s\<lparr>ss_signalled := True\<rparr>)"
| select_errs: "\<lbrakk>ss_main s = Selecting; ss_errs s = r # rest\<rbrakk>
    \<Longrightarrow> stub_step addr s (s\<lparr>ss_main := RunReturned r, ss_errs := rest\<rparr>)"
| select_done: "\<lbrakk>ss_main s = Selecting; ss_signalled s\<rbrakk>
    \<Longrightarrow> stub_step addr s (s\<lparr>ss_main := ShuttingDown, ss_closing := True, ss_log := ss_log s @ [Log Info ''Shutting down'' []]\<rparr>)"
| shutdown_returns: "ss_main s = ShuttingDown
    \<Longrightarrow> stub_step addr s (s\<lparr>ss_main := RunReturned (shutdown_outcome r)\<rparr>)"

inductive_cases stub_stepE: "stub_step addr s s'"

definition stub_reachable :: "string \<Rightarrow> stub_state \<Rightarrow> bool" where
  "stub_reachable addr s \<longleftrightarrow> (stub_step addr)\<^sup>*\<^sup>* stub_start s"

section \<open>Facts on the handler\<close>

lemma json_Encode_members:
  "json_Encode fs = CHR ''{'' # join [CHR '',''] (map (member_text [] []) fs) @ [] @ CHR ''}'' # [CHR 0x0A]"
  by (simp add: json_Encode_def member_text_def[abs_def] case_prod_unfold)

lemma json_Encode_read:
  "fs \<noteq> [] \<Longrightarrow> list_all (json_fits \<circ> snd) fs \<Longrightarrow> json_read (json_Encode fs) = Some fs"
  unfolding json_Encode_members by (rule json_read_text) (simp_all add: json_blank_def)

lemma token_path_clean: "mux_cleanPath ''/token'' = ''/token''"
  by code_simp

lemma resolveExpiresIn_range: "resolveExpiresIn env = Some n \<Longrightarrow> 0 < n \<and> n < 2 ^ 63"
  using Atoi_range by (fastforce simp: resolveExpiresIn_def defaultExpiresIn_def Let_def split: if_splits option.splits)

section \<open>Facts on the serving machine\<close>

text \<open>Who may still hold a result: the goroutine before it sends, then the channel.\<close>

definition stub_inv :: "stub_state \<Rightarrow> bool" where
  "stub_inv s \<longleftrightarrow>
     (ss_server s \<noteq> ServerExited \<longrightarrow> ss_errs s = [])
     \<and> (ss_server s = ServerExited \<longrightarrow> ss_errs s \<noteq> [] \<or> (\<exists>r. ss_main s = RunReturned r))
     \<and> (ss_closing s \<longrightarrow> ss_signalled s \<and> ss_main s \<noteq> Selecting \<and> Log Info ''Shutting down'' [] \<in> set (ss_log s))
     \<and> (ss_main s = ShuttingDown \<longrightarrow> ss_closing s)
     \<and> (ss_server s = Sending None \<or> None \<in> set (ss_errs s) \<or> ss_main s = RunReturned None \<longrightarrow> ss_closing s)"

lemma stub_inv_start: "stub_inv stub_start"
  by (simp add: stub_inv_def stub_start_def)

lemma stub_inv_step: "stub_step addr s s' \<Longrightarrow> stub_inv s \<Longrightarrow> stub_inv s'"
  by (induction rule: stub_step.induct)
     (auto simp: stub_inv_def serve_outcome_def shutdown_outcome_def not_None_eq[symmetric] simp del: not_None_eq)

lemma stub_reachable_inv: "stub_reachable addr s \<Longrightarrow> stub_inv s"
  unfolding stub_reachable_def
  by (induction rule: rtranclp_induct) (auto intro: stub_inv_start stub_inv_step)

lemma stub_reachable_step: "stub_reachable addr s \<Longrightarrow> stub_step addr s s' \<Longrightarrow> stub_reachable addr s'"
  unfolding stub_reachable_def by (rule rtranclp.rtrancl_into_rtrancl)

text \<open>What \<open>run\<close> returned stands.\<close>

lemma stub_returned_final:
  assumes "(stub_step addr)\<^sup>*\<^sup>* s s'" "ss_main s = RunReturned r"
  shows "ss_main s' = RunReturned r"
  using assms by (induction rule: rtranclp_induct) (auto elim: stub_stepE)

end
