(* ===== verification/Token_Properties.thy ===== *)
theory Token_Properties
  imports Token_Stub
begin

text \<open>What the token stub guarantees: its answers, its health check, its settings and its shutdown.\<close>

section \<open>Answers\<close>

text \<open>C24: \<open>/token\<close> answers \<open>GET\<close> and \<open>POST\<close> with status 200 and a JSON body that reads back as the
  configured token, \<open>Bearer\<close> and the lifetime, whatever the grant says; any other method gets
  405 and any other clean path 404, both with a JSON error.\<close>
theorem token_endpoint_answers:
  assumes "r_RequestURI r \<noteq> ''*''" "mux_cleanPath (r_Path r) = r_Path r" "- (2 ^ 63) \<le> n" "n < 2 ^ 63"
  shows "\<exists>rsp es. newHandler token n we r = MuxServed rsp es
    \<and> rsp_ContentType rsp = ''application/json''
    \<and> (rsp_Status rsp, json_read (rsp_Body rsp)) =
        (if r_Path r \<noteq> ''/token'' then (404, Some [(''error'', JString ''not_found'')])
         else if r_Method r \<notin> {''GET'', ''POST''} then (405, Some [(''error'', JString ''invalid_request'')])
         else (200, Some [(''access_token'', JString token), (''token_type'', JString ''Bearer''), (''expires_in'', JNumber n)]))"
proof -
  have "json_read (json_Encode [(k, JString v)]) = Some [(k, JString v)]" for k v
    by (rule json_Encode_read) simp_all
  moreover have "json_read (json_Encode [(''access_token'', JString a), (''token_type'', JString b), (''expires_in'', JNumber n)])
      = Some [(''access_token'', JString a), (''token_type'', JString b), (''expires_in'', JNumber n)]" for a b
    by (rule json_Encode_read) (use assms(3,4) in simp_all)
  ultimately show ?thesis
    using assms(1,2) by (auto simp: newHandler_def handleToken_def handleRoot_def writeJSON_def token_fields_def)
qed

theorem token_endpoint_answers_witness:
  "\<exists>rsp es. newHandler ''abc'' 60 None
      \<lparr>r_Method = ''POST'', r_RequestURI = ''/token'', r_Path = ''/token'', r_grant_type = []\<rparr> = MuxServed rsp es
    \<and> rsp_ContentType rsp = ''application/json'' \<and> rsp_Status rsp = 200
    \<and> json_read (rsp_Body rsp) =
        Some [(''access_token'', JString ''abc''), (''token_type'', JString ''Bearer''), (''expires_in'', JNumber 60)]"
  using token_endpoint_answers[of "\<lparr>r_Method = ''POST'', r_RequestURI = ''/token'', r_Path = ''/token'', r_grant_type = []\<rparr>"
      60 "''abc''" None] token_path_clean
  by simp

section \<open>Health check and settings\<close>

text \<open>
  The network a probe goes through. An \<open>http\<close> URL needs a host (RFC 9110); a listener on an empty
  host takes connections to the loopback address, a listener on a host those to that host; the
  port has to be the listener's. Whoever reaches the stub is answered by its handler, a redirect
  being followed; anybody else is refused.
\<close>

definition http_url_parts :: "string \<Rightarrow> (string \<times> string \<times> string) option" where
  "http_url_parts url =
     (let rest = drop 7 url;
          authority = takeWhile (\<lambda>c. c \<noteq> CHR ''/'') rest;
          host = takeWhile (\<lambda>c. c \<noteq> CHR '':'') authority
      in if HasPrefix url ''http://'' \<and> host \<noteq> [] \<and> host \<noteq> authority
         then Some (host, drop (Suc (length host)) authority, drop (length authority) rest)
         else None)"

definition tcp_reaches :: "string \<Rightarrow> string \<Rightarrow> string \<Rightarrow> bool" where
  "tcp_reaches listening host port \<longleftrightarrow>
     (let listen_host = takeWhile (\<lambda>c. c \<noteq> CHR '':'') listening
      in port = drop (Suc (length listen_host)) listening
         \<and> host = (if listen_host = [] then ''127.0.0.1'' else listen_host))"

fun answered_status :: "mux_answer \<Rightarrow> nat" where
  "answered_status MuxBadRequest = 400"
| "answered_status (MuxRedirect p) = 301"
| "answered_status (MuxServed rsp es) = rsp_Status rsp"

definition stub_network :: "string \<Rightarrow> string \<Rightarrow> int \<Rightarrow> string \<Rightarrow> go_error + nat" where
  "stub_network listening token n url =
     (let ask = (\<lambda>path. newHandler token n None
        \<lparr>r_Method = ''GET'', r_RequestURI = path, r_Path = path, r_grant_type = []\<rparr>)
      in case http_url_parts url of
           None \<Rightarrow> Inl (ErrorText ''no Host in request URL'')
         | Some (host, port, path) \<Rightarrow>
             if \<not> tcp_reaches listening host port then Inl (ErrorText ''connection refused'')
             else Inr (case ask path of MuxRedirect p \<Rightarrow> answered_status (ask p) | a \<Rightarrow> answered_status a))"

lemma takeWhile_until: "x \<notin> set a \<Longrightarrow> takeWhile (\<lambda>c. c \<noteq> x) (a @ x # b) = a"
  by (simp add: takeWhile_append)

lemma http_url_parts_URL:
  assumes "h \<noteq> []" "CHR '':'' \<notin> set h" "CHR ''/'' \<notin> set (h @ p)"
  shows "http_url_parts (''http://'' @ h @ '':'' @ p @ ''/'' @ path) = Some (h, p, ''/'' @ path)"
proof -
  have "takeWhile (\<lambda>c. c \<noteq> CHR ''/'') (h @ '':'' @ p @ ''/'' @ path) = h @ '':'' @ p"
    using takeWhile_until[of "CHR ''/''" "h @ '':'' @ p" path] assms(3) by simp
  moreover have "takeWhile (\<lambda>c. c \<noteq> CHR '':'') (h @ '':'' @ p) = h"
    using takeWhile_until[of "CHR '':''" h p] assms(2) by simp
  ultimately show ?thesis using assms(1) by (simp add: http_url_parts_def Let_def HasPrefix_def)
qed

text \<open>The status the stub at \<open>listening\<close> gives to the probe of address \<open>h:p\<close>.\<close>

lemma stub_network_probe:
  assumes "CHR '':'' \<notin> set h" "CHR ''/'' \<notin> set (h @ p)"
  shows "stub_network listening token n (probe_URL (h @ '':'' @ p)) =
     (if tcp_reaches listening (if h = [] then ''127.0.0.1'' else h) p then Inr 200
      else Inl (ErrorText ''connection refused''))"
proof -
  let ?h = "if h = [] then ''127.0.0.1'' else h"
  have "probe_URL (h @ '':'' @ p) = ''http://'' @ ?h @ '':'' @ p @ ''/'' @ ''token''"
    using assms(1) by (cases h) (auto simp: probe_URL_def HasPrefix_def)
  moreover have "http_url_parts (''http://'' @ ?h @ '':'' @ p @ ''/'' @ ''token'') = Some (?h, p, ''/'' @ ''token'')"
    by (rule http_url_parts_URL) (use assms in auto)
  ultimately have "http_url_parts (probe_URL (h @ '':'' @ p)) = Some (?h, p, ''/token'')" by simp
  then show ?thesis using token_path_clean
    by (simp add: stub_network_def newHandler_def handleToken_def writeJSON_def)
qed

lemma tcp_reaches_self:
  "CHR '':'' \<notin> set h \<Longrightarrow> tcp_reaches (h @ '':'' @ p) (if h = [] then ''127.0.0.1'' else h) p"
  using takeWhile_until[of "CHR '':''" h p] by (simp add: tcp_reaches_def)

lemma stub_main_ping:
  assumes "\<not> sf_version fl" "sf_ping fl"
    and started: "stub_main env get (\<lambda>a t k. if a = A then None else Some e) (fl\<lparr>sf_ping := False\<rparr>) = (0, [])"
  shows "fst (stub_main env http_Get serve fl) = (if probe http_Get A = None then 0 else 1)"
    and "probe http_Get A = None \<Longrightarrow> snd (stub_main env http_Get serve fl) = []"
proof -
  let ?a = "firstNonEmpty [sf_addr fl, Getenv env ''TOKEN_STUB_ADDR'', defaultAddr]"
  obtain k where k: "resolveExpiresIn env = Some k" and a: "?a = A"
    using started assms(1)
    by (auto simp: stub_main_def Let_def split: option.splits if_splits simp del: firstNonEmpty.simps)
  show "fst (stub_main env http_Get serve fl) = (if probe http_Get A = None then 0 else 1)"
    and "probe http_Get A = None \<Longrightarrow> snd (stub_main env http_Get serve fl) = []"
    using assms(1,2) k unfolding stub_main_def Let_def a by (auto split: option.split)
qed



text \<open>C30: whatever the environment and the flags, the server is only ever started with an address,
  a token and a lifetime that are not empty and not zero, the lifetime within an \<open>int\<close>: \<open>main\<close>
  does not depend on what serving anything else would do.\<close>
theorem stub_serves_only_sane_settings:
  assumes "\<And>a t n. a \<noteq> [] \<Longrightarrow> t \<noteq> [] \<Longrightarrow> 0 < n \<Longrightarrow> n < 2 ^ 63 \<Longrightarrow> serve a t n = serve' a t n"
  shows "stub_main env http_Get serve fl = stub_main env http_Get serve' fl"
proof (cases "resolveExpiresIn env")
  case None
  then show ?thesis by (simp add: stub_main_def)
next
  case (Some n)
  let ?a = "firstNonEmpty [sf_addr fl, Getenv env ''TOKEN_STUB_ADDR'', defaultAddr]"
  let ?t = "firstNonEmpty [sf_token fl, Getenv env ''TOKEN_STUB_ACCESS_TOKEN'', defaultAccessToken]"
  have "?a \<noteq> []" "?t \<noteq> []" by (simp_all add: defaultAddr_def defaultAccessToken_def)
  then have "serve ?a ?t n = serve' ?a ?t n" using assms resolveExpiresIn_range[OF Some] by blast
  then show ?thesis by (simp only: stub_main_def Let_def Some option.case)
qed

theorem stub_serves_only_sane_settings_witness:
  "stub_main Map.empty (\<lambda>u. Inr 200) (\<lambda>a t n. if n \<le> 0 then Some (ErrorText ''bad'') else None)
      \<lparr>sf_addr = [], sf_token = [], sf_ping = False, sf_version = False\<rparr>
    = stub_main Map.empty (\<lambda>u. Inr 200) (\<lambda>a t n. None) \<lparr>sf_addr = [], sf_token = [], sf_ping = False, sf_version = False\<rparr>"
  by (rule stub_serves_only_sane_settings) simp

section \<open>Serving and shutting down\<close>

text \<open>C23: \<open>run\<close> returns without an error only after a signal, and only through the shutdown path:
  a server that stops by itself is always reported as a failure. What it returned stands.\<close>
theorem run_is_clean_only_after_a_signal:
  assumes "stub_reachable addr s" "ss_main s = RunReturned None"
  shows "ss_signalled s \<and> Log Info ''Shutting down'' [] \<in> set (ss_log s)
    \<and> (\<forall>s'. (stub_step addr)\<^sup>*\<^sup>* s s' \<longrightarrow> ss_main s' = RunReturned None)"
  using stub_reachable_inv[OF assms(1)] assms(2) stub_returned_final by (auto simp: stub_inv_def)

definition stopped_stub :: stub_state where
  "stopped_stub = stub_start\<lparr>ss_signalled := True, ss_main := RunReturned None, ss_closing := True,
     ss_log := [Log Info ''Shutting down'' []]\<rparr>"

lemma stopped_reachable: "stub_reachable '':8099'' stopped_stub"
proof -
  let ?s1 = "stub_start\<lparr>ss_signalled := True\<rparr>"
  let ?s2 = "?s1\<lparr>ss_main := ShuttingDown, ss_closing := True, ss_log := ss_log ?s1 @ [Log Info ''Shutting down'' []]\<rparr>"
  have "stub_step '':8099'' stub_start ?s1" "stub_step '':8099'' ?s1 ?s2"
    by (rule stub_step.signal) (rule stub_step.select_done, simp_all add: stub_start_def)
  moreover have "stub_step '':8099'' ?s2 (?s2\<lparr>ss_main := RunReturned (shutdown_outcome None)\<rparr>)"
    by (rule stub_step.shutdown_returns) simp
  ultimately have "stub_reachable '':8099'' (?s2\<lparr>ss_main := RunReturned (shutdown_outcome None)\<rparr>)"
    by (auto simp: stub_reachable_def)
  then show ?thesis by (simp add: stopped_stub_def stub_start_def shutdown_outcome_def)
qed

theorem run_is_clean_only_after_a_signal_witness:
  "ss_main stopped_stub = RunReturned None \<and> ss_signalled stopped_stub
    \<and> Log Info ''Shutting down'' [] \<in> set (ss_log stopped_stub)"
  using run_is_clean_only_after_a_signal[OF stopped_reachable] by (simp add: stopped_stub_def)

text \<open>C22: the goroutine never blocks on its channel, and \<open>run\<close> cannot get stuck: wherever it has
  got to, once a signal has come or the goroutine has ended, it can go on to return.\<close>
theorem run_never_stuck:
  assumes "stub_reachable addr s"
  shows "(ss_server s = Sending r \<longrightarrow> (\<exists>s'. stub_step addr s s' \<and> ss_server s' = ServerExited))
    \<and> (ss_signalled s \<or> ss_server s = ServerExited \<longrightarrow>
        (\<exists>s' x. (stub_step addr)\<^sup>*\<^sup>* s s' \<and> ss_main s' = RunReturned x))"
proof -
  note inv = stub_reachable_inv[OF assms]
  have send: "\<exists>s'. stub_step addr s s' \<and> ss_server s' = ServerExited" if "ss_server s = Sending r"
    using stub_step.send[OF that, of addr] inv that by (auto simp: stub_inv_def errs_capacity_def)
  have shut: "\<exists>s' x. (stub_step addr)\<^sup>*\<^sup>* v s' \<and> ss_main s' = RunReturned x" if "ss_main v = ShuttingDown" for v
    using r_into_rtranclp[of "stub_step addr", OF stub_step.shutdown_returns[OF that, of addr None]]
    by (intro exI[of _ "v\<lparr>ss_main := RunReturned (shutdown_outcome None)\<rparr>"]) auto
  have "\<exists>s' x. (stub_step addr)\<^sup>*\<^sup>* s s' \<and> ss_main s' = RunReturned x" if live: "ss_signalled s \<or> ss_server s = ServerExited"
  proof (cases "ss_main s")
    case (RunReturned x)
    then show ?thesis by blast
  next
    case ShuttingDown
    then show ?thesis by (rule shut)
  next
    case Selecting
    show ?thesis
    proof (cases "ss_signalled s")
      case True
      from shut[of "s\<lparr>ss_main := ShuttingDown, ss_closing := True, ss_log := ss_log s @ [Log Info ''Shutting down'' []]\<rparr>"]
      show ?thesis using stub_step.select_done[OF Selecting True, of addr] by (auto intro: converse_rtranclp_into_rtranclp)
    next
      case False
      then obtain x rest where "ss_errs s = x # rest"
        using live inv Selecting by (cases "ss_errs s") (auto simp: stub_inv_def)
      from r_into_rtranclp[of "stub_step addr", OF stub_step.select_errs[OF Selecting this, of addr]] show ?thesis
        by (intro exI[of _ "s\<lparr>ss_main := RunReturned x, ss_errs := rest\<rparr>"]) auto
    qed
  qed
  with send show ?thesis by blast
qed

theorem run_never_stuck_witness:
  "stub_reachable '':8099'' (stub_start\<lparr>ss_signalled := True\<rparr>)
    \<and> (\<exists>s' x. (stub_step '':8099'')\<^sup>*\<^sup>* (stub_start\<lparr>ss_signalled := True\<rparr>) s' \<and> ss_main s' = RunReturned x)"
proof -
  have r: "stub_reachable '':8099'' (stub_start\<lparr>ss_signalled := True\<rparr>)"
    unfolding stub_reachable_def by (intro r_into_rtranclp stub_step.signal)
  from run_never_stuck[OF r] r show ?thesis by auto
qed

end
