(* ===== verification/Spec2Isabelle.thy ===== *)
theory Spec2Isabelle
  imports Program_Properties Resource_Properties Connect_Properties Token_Properties
begin

text \<open>
  \<^bold>\<open>gcp-emulator-provisioner, verified.\<close>
  The repository holds two Go programs. \<open>gcp-emulator-provisioner\<close> reads a YAML file and brings
  a Pub/Sub endpoint, a Cloud Storage endpoint and a set of service account key files to the
  state the file describes; it may be run again and again. \<open>gcp-token-stub\<close> is a small HTTP
  server that hands out a static OAuth2 token to clients that insist on one. This theory imports
  the development and explains it; the properties stand in the \<open>*_Properties\<close> theories.

  \<^bold>\<open>How the program is put together.\<close> \<open>main\<close> (\<open>cmd/gcp-emulator-provisioner\<close>) resolves its
  settings and calls \<open>run\<close>, which loads and validates the configuration (\<open>internal/config\<close>),
  connects to the endpoints the chosen section needs (\<open>internal/client\<close>), hands the two clients as
  interfaces to a \<open>Provisioner\<close> (\<open>internal/provisioner\<close>), runs one section or all of them, and
  closes the clients on the way out. Each section goes through its resources in the order of the
  configuration, reads the live resource, and creates, updates or leaves it.

  \<^bold>\<open>The language.\<close> \<open>Go_Prelude\<close>: strings as byte lists, errors as options and sums, a chain of
  checks (\<open>first_error\<close>), a loop that stops at the first error (\<open>for_each\<close>), maps as association
  lists in any iteration order, \<open>int32\<close>/\<open>int64\<close> wrap-around, \<open>strings\<close> and \<open>strconv\<close>. \<open>Go_Time\<close>:
  \<open>time.Duration\<close>, \<open>time.ParseDuration\<close> and the binary64 arithmetic it and the backoff use,
  rounding to even written out.

  \<^bold>\<open>Configuration\<close> (\<open>internal/config/config.go\<close>). \<open>Config_Model\<close> has the structs, strategies,
  \<open>expandEnvVars\<close>, \<open>expandConfig\<close> and \<open>Load\<close>; \<open>Config_Validate\<close> the validators with every error
  path, and \<open>ParseDuration\<close>; \<open>Config_Spec\<close> says declaratively what a valid configuration is and
  shows that \<open>validate\<close> accepts exactly that. \<open>Config_Properties\<close> holds the properties: validation
  is sound and complete, \<open>Load\<close> returns only valid configurations with every string and map
  expanded, expansion meets a declarative specification of references, counts with a unit are
  exact or rejected, and day notation is exact up to 106751 days and wraps beyond.

  \<^bold>\<open>Clients\<close> (\<open>internal/client\<close>). \<open>Client_Model\<close> has the transport-neutral resources, the errors
  with \<open>errors.Is\<close>, gRPC and HTTP codes, the interfaces of the provisioner, and the \<open>world\<close>: the
  states of the two endpoints and the file system with the trace of calls and log records.
  \<open>PubSub_Client\<close> models \<open>pubsub.go\<close> (conversion to and from messages, six operations),
  \<open>Storage_Client\<close> models \<open>storage.go\<close>, and \<open>Connect\<close> the dialling and \<open>retryUntilReady\<close> with an
  explicit clock and the list of open handles. \<open>Connect_Properties\<close>: the floating-point backoff
  is exact, retrying ends within the deadline, readiness means an answered probe.

  \<^bold>\<open>Sections\<close> (\<open>internal/provisioner\<close>, \<open>internal/credentials\<close>). \<open>Apply_Paths\<close> models \<open>applyPaths\<close>
  (\<open>update.go\<close>), which sends an update mask at once and falls back to field by field; \<open>Topics\<close>,
  \<open>Subscriptions\<close> and \<open>Buckets\<close> model the files of those names, \<open>Key_Files\<close> the key files with
  PEM, JSON and path cleaning, \<open>PubSub_Section\<close> the two passes of the Pub/Sub section, and
  \<open>Provisioner\<close> the sections behind possibly nil interfaces and \<open>Run\<close>. \<open>PubSub_Properties\<close>,
  \<open>Resource_Properties\<close>, \<open>Storage_Properties\<close> and \<open>Key_Properties\<close> show convergence, idempotence,
  what is kept of live resources, ordering, strategies, round trips and error paths.

  \<^bold>\<open>Programs.\<close> \<open>Program\<close> models \<open>main.go\<close> of the provisioner: settings, \<open>run\<close> with its deferred
  closes, and \<open>main\<close> up to the exit code. \<open>Program_Properties\<close> composes everything: a full run
  provisions everything, never panics, changes nothing in a dry run, keeps sections apart, closes
  what it opens and reports every failure at every log level. \<open>Token_Stub\<close> models the stub: settings, probe, handler, and \<open>run\<close> as a
  step relation over the serving goroutine, the signal and the \<open>select\<close>; \<open>Json_Reader\<close> is the
  reader the written JSON is checked against; \<open>Token_Properties\<close> has the stub's properties, the
  health check's over a network in which a URL reaches the listener at its host and port.

  \<^bold>\<open>Interfaces as locales.\<close> What one part relies on of another, or of code outside the
  repository, is a locale, and the lemmas of the client are proved inside it:
  \<^item> \<open>duration_message\<close>: reading back a protobuf duration; interpreted on \<open>seconds_pb\<close>.
  \<^item> \<open>mask_endpoint\<close> and \<open>reconciled_endpoint\<close>: an endpoint that takes or refuses update masks;
    instances are topics and subscriptions, by sublocale of
  \<^item> \<open>pubsub_endpoint\<close>: what a \<open>PubSubAdmin\<close> promises; interpreted in \<open>Fake_PubSub\<close> on the
    repository's client over the repository's fake server (\<open>pubsub_server_test.go\<close>). It may refuse
    any fields in update masks, as the emulator does, and may fill in what a creation leaves
    unset (deadline, retention, expiration, labels and push attributes of its own: \<open>filled_in\<close>), as
    Pub/Sub does. It has to store dead-letter and retry policies as sent: a server that fills in
    omitted attempts or backoffs is sent the same update on every run
    (\<open>omitted_attempts_always_differ\<close>), and the convergence properties do not speak of it.
  \<^item> \<open>bucket_endpoint\<close>: what a \<open>StorageAdmin\<close> promises; interpreted in \<open>Fake_Storage\<close> on the
    repository's client over a server that answers as the one of its tests.
  \<^item> \<open>key_store\<close>: what the host's files promise; interpreted in \<open>Fake_Host\<close> on files in memory.
  The properties of a section hold for everything that meets its locale; their witnesses run on
  these interpretations, with the configuration of \<open>Sample_Config\<close>.

  \<^bold>\<open>Bounds.\<close> Nothing in the model of the provisioner runs on fuel: loops are structural, and the
  retry loop goes over its sixteen attempts. The reader of JSON takes the length of the text as
  fuel, and a member takes at least one byte. Day counts, durations, ack deadlines and lifetimes
  are integers with the wrap-around of \<open>int64\<close> and \<open>int32\<close> written out.

  \<^bold>\<open>Parameters.\<close> Reading the file, \<open>yaml.Unmarshal\<close>, \<open>url.Parse\<close>, the environment, the SDK
  constructors and calls, \<open>durationpb\<close>, the operating system, RSA, the HTTP client and the listener
  are arguments of the definitions that use them.

  \<^bold>\<open>Not modelled.\<close> The parsing of command lines by \<open>flag\<close>, the delivery of signals other than as the end of a context,
  Unicode outside ASCII in \<open>strings.ToUpper\<close>, \<open>strings.EqualFold\<close> (but for the characters that have
  an ASCII case), \<open>%q\<close> and JSON escapes (such bytes pass through), the
  bytes of the mux's own answers to redirected requests, and the attributes of the record
  \<open>main\<close> logs when loading fails. Tests, container files and documentation hold no program logic
  beyond the fake server.
\<close>

end
